(* ===== verification/Ice_Prelude.thy ===== *)
theory Ice_Prelude
  imports Main "HOL-Library.Word" "HOL-Library.Monad_Syntax"
begin

unbundle bit_operations_syntax

text \<open>
  Shared vocabulary of the development: the machine integers of the C++ code, the byte and
  string types, checked reads (an out-of-bounds access is the value \<open>None\<close>), decimal
  rendering (\<open>std::to_string\<close>), the four-byte alignment loop, and two interfaces that
  several components implement: a fixed-width codec and a state machine with an invariant.
\<close>

section \<open>Machine integers, bytes and strings\<close>

type_synonym byte = "8 word"
type_synonym u16 = "16 word"
type_synonym u32 = "32 word"
type_synonym u64 = "64 word"
type_synonym bytes = "byte list"

text \<open>Conn ids are \<open>gn_conn_id_t\<close>, a 64-bit integer; 0 is the invalid id.\<close>

type_synonym conn_id = u64

text \<open>
  A value of type \<open>'a checked\<close> is the outcome of code that dereferences pointers:
  \<open>None\<close> stands for an access outside the buffer (undefined behaviour in the source).
\<close>

type_synonym 'a checked = "'a option"

named_theorems codec_simps \<open>equations that move encoders and decoders over append\<close>
named_theorems len_simps \<open>lengths of encoded values\<close>

text \<open>\<open>std::string\<close> is \<open>string\<close>; the casts between characters and octets are explicit.\<close>

definition byte_of_char :: "char \<Rightarrow> byte" where
  "byte_of_char c = word_of_nat (of_char c)"

definition char_of_byte :: "byte \<Rightarrow> char" where
  "char_of_byte b = char_of (unat b)"

definition bytes_of_string :: "string \<Rightarrow> bytes" where
  "bytes_of_string s = map byte_of_char s"

definition string_of_bytes :: "bytes \<Rightarrow> string" where
  "string_of_bytes bs = map char_of_byte bs"

lemma char_of_byte_of_char [simp]: "char_of_byte (byte_of_char c) = c"
  by (simp add: char_of_byte_def byte_of_char_def unat_of_nat nat_of_char_less_256)

lemma byte_of_char_of_byte [simp]: "byte_of_char (char_of_byte b) = b"
proof -
  have "unat b < 256" using unsigned_less [of b, where ?'a = nat] by simp
  then show ?thesis by (simp add: char_of_byte_def byte_of_char_def of_char_of)
qed

lemma byte_of_char_eq_iff [simp]: "byte_of_char a = byte_of_char b \<longleftrightarrow> a = b"
  by (metis char_of_byte_of_char)

lemma string_of_bytes_of_string [simp]: "string_of_bytes (bytes_of_string s) = s"
  by (simp add: string_of_bytes_def bytes_of_string_def comp_def)

lemma bytes_of_string_of_bytes [simp]: "bytes_of_string (string_of_bytes bs) = bs"
  by (simp add: string_of_bytes_def bytes_of_string_def comp_def)

lemma length_bytes_of_string [simp, len_simps]: "length (bytes_of_string s) = length s"
  by (simp add: bytes_of_string_def)

lemma length_string_of_bytes [simp, len_simps]: "length (string_of_bytes bs) = length bs"
  by (simp add: string_of_bytes_def)

lemma bytes_of_string_Nil [simp]: "bytes_of_string s = [] \<longleftrightarrow> s = []"
  by (simp add: bytes_of_string_def)

lemma string_of_bytes_Nil [simp]: "string_of_bytes bs = [] \<longleftrightarrow> bs = []"
  by (simp add: string_of_bytes_def)

lemma bytes_of_string_inject [simp]: "bytes_of_string s = bytes_of_string t \<longleftrightarrow> s = t"
  by (metis string_of_bytes_of_string)

section \<open>Joining bit fields\<close>

text \<open>A shifted field joined by OR with a field that fits below it is a sum.\<close>

lemma push_bit_or_nat: "x < 2 ^ n \<Longrightarrow> push_bit n y OR x = y * 2 ^ n + x" for x y :: nat
proof -
  assume "x < 2 ^ n"
  then have x: "take_bit n x = x" by (simp add: take_bit_nat_eq_self_iff)
  have "push_bit n y AND take_bit n x = 0"
    by (rule bit_eqI) (auto simp: bit_simps)
  then have "push_bit n y + x = push_bit n y OR x"
    using x by (intro disjunctive_add_eq_or) simp
  then show ?thesis by (simp add: push_bit_nat_def)
qed

section \<open>Alignment to four octets\<close>

text \<open>\<open>while (offset % 4 != 0) ++offset\<close>, and the number of octets it skips.\<close>

definition pad4 :: "nat \<Rightarrow> nat" where
  "pad4 n = (4 - n mod 4) mod 4"

lemma mod4_cases: "n mod 4 = 0 \<or> n mod 4 = 1 \<or> n mod 4 = 2 \<or> n mod 4 = 3" for n :: nat
proof -
  have "n mod 4 < 4" by (rule mod_less_divisor) (rule zero_less_numeral)
  then show ?thesis by linarith
qed

lemma pad4_Suc: "n mod 4 \<noteq> 0 \<Longrightarrow> pad4 n = Suc (pad4 (Suc n))"
  using mod4_cases [of n] by (auto simp: pad4_def mod_Suc)

lemma pad4_zero [simp]: "4 dvd n \<Longrightarrow> pad4 n = 0"
  by (simp add: pad4_def dvd_eq_mod_eq_0)

lemma pad4_less: "pad4 n < 4"
  unfolding pad4_def by (rule mod_less_divisor) (rule zero_less_numeral)

lemma pad4_dvd: "4 dvd n + pad4 n"
proof -
  have *: "k + (4 - m) = 4 * (d + 1)" if "4 * d + m = k" "m < 4" for k d m :: nat
    using that by simp
  have "n + (4 - n mod 4) = 4 * (n div 4 + 1)"
    by (rule * [OF mult_div_mod_eq]) (rule mod_less_divisor, rule zero_less_numeral)
  then have "(n + (4 - n mod 4)) mod 4 = 0" by (metis mod_mult_self1_is_0)
  then show ?thesis unfolding pad4_def by (simp only: mod_add_right_eq dvd_eq_mod_eq_0)
qed

lemma pad4_le: "n \<le> 4 * k \<Longrightarrow> n + pad4 n \<le> 4 * k"
proof -
  assume "n \<le> 4 * k"
  obtain j where j: "n + pad4 n = 4 * j" using pad4_dvd by (auto simp: dvd_def)
  then have "4 * j < 4 * k + 4" using pad4_less [of n] \<open>n \<le> 4 * k\<close> by linarith
  then have "j \<le> k" by simp
  then show ?thesis using j by simp
qed

lemma pad4_add: "4 dvd m \<Longrightarrow> pad4 (m + n) = pad4 n"
  by (auto simp: pad4_def dvd_def)

function align4 :: "nat \<Rightarrow> nat" where
  "align4 n = (if n mod 4 \<noteq> 0 then align4 (Suc n) else n)"
  by pat_completeness auto

termination align4
  by (relation "measure pad4") (auto simp: pad4_Suc)

declare align4.simps [simp del]

lemma align4_pad4: "align4 n = n + pad4 n"
proof (induction n rule: align4.induct)
  case (1 n)
  show ?case
  proof (cases "n mod 4 = 0")
    case True
    then show ?thesis by (simp add: align4.simps [of n] dvd_eq_mod_eq_0)
  next
    case False
    then show ?thesis using 1 by (simp add: align4.simps [of n] pad4_Suc [of n])
  qed
qed

lemma align4_ge: "n \<le> align4 n"
  by (simp add: align4_pad4)

section \<open>Checked reads\<close>

text \<open>A read of \<open>n\<close> octets at offset \<open>i\<close> (\<open>memcpy\<close> from the buffer, a pointer dereference).\<close>

definition rd :: "bytes \<Rightarrow> nat \<Rightarrow> nat \<Rightarrow> bytes checked" where
  "rd bs i n = (if i + n \<le> length bs then Some (take n (drop i bs)) else None)"

lemma rd_eq_None [simp]: "rd bs i n = None \<longleftrightarrow> length bs < i + n"
  by (auto simp: rd_def)

lemma rd_Some_length: "rd bs i n = Some xs \<Longrightarrow> length xs = n \<and> i + n \<le> length bs"
  by (auto simp: rd_def split: if_splits)

lemma rd_in_bounds: "i + n \<le> length bs \<Longrightarrow> rd bs i n = Some (take n (drop i bs))"
  by (simp add: rd_def)

lemma rd_append_mid [codec_simps]:
  "i = length xs \<Longrightarrow> n = length ys \<Longrightarrow> rd (xs @ ys @ zs) i n = Some ys"
  by (simp add: rd_def)

text \<open>
  The outcome of a parser of untrusted bytes: \<open>None\<close> is an access outside the buffer,
  \<open>reject\<close> is the parser's own refusal (\<open>std::nullopt\<close> or \<open>false\<close>).
\<close>

type_synonym 'a parsed = "'a option checked"

abbreviation reject :: "'a parsed" where "reject \<equiv> Some None"
abbreviation accept :: "'a \<Rightarrow> 'a parsed" where "accept x \<equiv> Some (Some x)"

definition parse_bind :: "'a parsed \<Rightarrow> ('a \<Rightarrow> 'b parsed) \<Rightarrow> 'b parsed" where
  "parse_bind m f = (case m of None \<Rightarrow> None | Some None \<Rightarrow> Some None | Some (Some x) \<Rightarrow> f x)"

lemma parse_bind_simps [simp]:
  "parse_bind None f = None" "parse_bind reject f = reject" "parse_bind (accept x) f = f x"
  by (simp_all add: parse_bind_def)

lemma parse_bind_accept: "parse_bind m f = accept y \<longleftrightarrow> (\<exists>x. m = accept x \<and> f x = accept y)"
  by (auto simp: parse_bind_def split: option.splits)

text \<open>Memory safety of a checked computation: no access left the buffer.\<close>

definition safe :: "'a checked \<Rightarrow> bool" where
  "safe m \<longleftrightarrow> m \<noteq> None"

lemma safe_simps [simp]: "safe (Some x)" "\<not> safe None"
  by (simp_all add: safe_def)

lemma safe_rd [simp]: "safe (rd bs i n) \<longleftrightarrow> i + n \<le> length bs"
  by (auto simp: safe_def)

lemma safe_bind [intro!]: "safe m \<Longrightarrow> (\<And>x. m = Some x \<Longrightarrow> safe (f x)) \<Longrightarrow> safe (m \<bind> f)"
  by (auto simp: safe_def)

lemma safe_if: "(c \<Longrightarrow> safe a) \<Longrightarrow> (\<not> c \<Longrightarrow> safe b) \<Longrightarrow> safe (if c then a else b)"
  by simp

lemma safe_parse_bind [intro!]:
  "safe m \<Longrightarrow> (\<And>x. m = accept x \<Longrightarrow> safe (f x)) \<Longrightarrow> safe (parse_bind m f)"
  by (auto simp: safe_def parse_bind_def split: option.splits)

lemma safe_ex: "safe m \<longleftrightarrow> (\<exists>x. m = Some x)"
  by (auto simp: safe_def)

section \<open>Decimal rendering (\<open>std::to_string\<close>)\<close>

definition digit_char :: "nat \<Rightarrow> char" where
  "digit_char d = char_of (48 + d)"

fun to_string :: "nat \<Rightarrow> string" where
  "to_string n = (if n < 10 then [digit_char n] else to_string (n div 10) @ [digit_char (n mod 10)])"

declare to_string.simps [simp del]

lemma of_digit_char: "d < 10 \<Longrightarrow> of_char (digit_char d) = (48 + d :: nat)"
  by (simp add: digit_char_def of_char_of)

lemma digit_char_inject: "d < 10 \<Longrightarrow> e < 10 \<Longrightarrow> digit_char d = digit_char e \<longleftrightarrow> d = e"
  by (metis add_left_cancel of_digit_char)

lemma to_string_not_Nil [simp]: "to_string n \<noteq> []" "[] \<noteq> to_string n"
  by (simp_all add: to_string.simps [of n])

lemma to_string_digits: "c \<in> set (to_string n) \<Longrightarrow> \<exists>d<10. c = digit_char d"
proof (induction n rule: to_string.induct)
  case (1 n)
  then show ?case
    by (cases "n < 10") (auto simp: to_string.simps [of n] intro: exI [of _ "n mod 10"])
qed

lemma to_string_no_colon: "CHR '':'' \<notin> set (to_string n)"
proof
  assume "CHR '':'' \<in> set (to_string n)"
  then obtain d where d: "d < 10" "CHR '':'' = digit_char d"
    using to_string_digits by blast
  have "of_char (CHR '':'') = (58 :: nat)" by simp
  with d of_digit_char [of d] show False by simp
qed

lemma to_string_inject: "to_string m = to_string n \<Longrightarrow> m = n"
proof (induction m arbitrary: n rule: to_string.induct)
  case (1 m)
  show ?case
  proof (cases "m < 10"; cases "n < 10")
    assume "m < 10" "n < 10"
    with "1.prems" show ?thesis
      by (simp add: to_string.simps [of m] to_string.simps [of n] digit_char_inject)
  next
    assume "m < 10" "\<not> n < 10"
    with "1.prems" show ?thesis
      by (simp add: to_string.simps [of m] to_string.simps [of n])
  next
    assume "\<not> m < 10" "n < 10"
    with "1.prems" show ?thesis
      by (simp add: to_string.simps [of m] to_string.simps [of n])
  next
    assume mn: "\<not> m < 10" "\<not> n < 10"
    with "1.prems" have "to_string (m div 10) = to_string (n div 10)" "m mod 10 = n mod 10"
      by (simp_all add: to_string.simps [of m] to_string.simps [of n] digit_char_inject)
    with "1.IH" mn have "m div 10 = n div 10" by blast
    with \<open>m mod 10 = n mod 10\<close> show ?thesis
      by (metis div_mult_mod_eq)
  qed
qed

section \<open>Interfaces shared by the components\<close>

text \<open>
  A fixed-width codec: \<open>enc\<close> appends the encoding of a value, \<open>dec bs i\<close> reads a value at
  offset \<open>i\<close> and is undefined exactly when the read would leave the buffer.
\<close>

locale fixed_codec =
  fixes enc :: "'v \<Rightarrow> bytes"
    and dec :: "bytes \<Rightarrow> nat \<Rightarrow> 'v checked"
    and width :: nat
  assumes length_enc: "length (enc v) = width"
    and dec_None_iff: "dec bs i = None \<longleftrightarrow> length bs < i + width"
    and dec_enc: "dec (xs @ enc v @ ys) (length xs) = Some v"
    and enc_dec: "dec bs i = Some v \<Longrightarrow> take width (drop i bs) = enc v"
begin

lemma dec_at: "i = length xs \<Longrightarrow> dec (xs @ enc v @ ys) i = Some v"
  by (simp add: dec_enc)

lemma dec_front: "dec (enc v @ ys) 0 = Some v"
  using dec_enc [of "[]"] by simp

lemma dec_in_bounds: "i + width \<le> length bs \<Longrightarrow> \<exists>v. dec bs i = Some v"
  using dec_None_iff [of bs i] by (cases "dec bs i") auto

lemma dec_Some_bound: "dec bs i = Some v \<Longrightarrow> i + width \<le> length bs"
  by (metis dec_None_iff not_less option.distinct(1))

lemma enc_inject: "enc v = enc w \<longleftrightarrow> v = w"
  by (metis dec_front option.inject)

lemma enc_append_inject: "enc v @ xs = enc w @ ys \<longleftrightarrow> v = w \<and> xs = ys"
  by (metis append_eq_append_conv enc_inject length_enc)

lemma dec_shift: "dec (xs @ bs) (length xs + i) = dec bs i"
proof (cases "dec bs i")
  case None
  then have "dec (xs @ bs) (length xs + i) = None" by (simp add: dec_None_iff)
  with None show ?thesis by simp
next
  case (Some v)
  then have bound: "i + width \<le> length bs" and val: "take width (drop i bs) = enc v"
    by (simp_all add: dec_Some_bound enc_dec)
  have "xs @ bs = (xs @ take i bs) @ enc v @ drop (i + width) bs"
    by (simp flip: val) (metis append_take_drop_id drop_drop add.commute)
  moreover have "length (xs @ take i bs) = length xs + i"
    using bound by simp
  ultimately show ?thesis
    using Some by (metis dec_enc)
qed

lemma dec_append: "i + width \<le> length bs \<Longrightarrow> dec (bs @ zs) i = dec bs i"
proof -
  assume bound: "i + width \<le> length bs"
  then obtain v where v: "dec bs i = Some v" using dec_in_bounds by blast
  have "bs @ zs = take i bs @ enc v @ (drop (i + width) bs @ zs)"
    by (simp flip: enc_dec [OF v]) (metis append_assoc append_take_drop_id drop_drop add.commute)
  moreover have "length (take i bs) = i" using bound by simp
  ultimately show ?thesis using v by (metis dec_enc)
qed

end

text \<open>
  A state machine with outputs: \<open>step e s\<close> is the new state and the list of effects of event
  \<open>e\<close>. What every single step keeps, every run keeps.
\<close>

fun run_machine :: "('e \<Rightarrow> 's \<Rightarrow> 's \<times> 'o list) \<Rightarrow> 'e list \<Rightarrow> 's \<Rightarrow> 's \<times> 'o list" where
  "run_machine step [] s = (s, [])"
| "run_machine step (e # es) s =
     (let (s1, o1) = step e s; (s2, o2) = run_machine step es s1 in (s2, o1 @ o2))"

lemma run_machine_append:
  "run_machine step (es @ fs) s =
     (let (s1, o1) = run_machine step es s; (s2, o2) = run_machine step fs s1 in (s2, o1 @ o2))"
  by (induction es arbitrary: s) (auto simp: split_beta Let_def)

locale machine =
  fixes step :: "'e \<Rightarrow> 's \<Rightarrow> 's \<times> 'o list"
    and inv :: "'s \<Rightarrow> bool"
    and good :: "'s \<Rightarrow> 'o \<Rightarrow> bool"
  assumes step_inv: "inv s \<Longrightarrow> inv (fst (step e s))"
    and step_good: "inv s \<Longrightarrow> out \<in> set (snd (step e s)) \<Longrightarrow> good (fst (step e s)) out"
    and good_mono: "inv s \<Longrightarrow> good s out \<Longrightarrow> good (fst (step e s)) out"
begin

lemma run_inv: "inv s \<Longrightarrow> inv (fst (run_machine step es s))"
  by (induction es arbitrary: s) (auto simp: split_beta Let_def step_inv)

lemma run_good_mono: "inv s \<Longrightarrow> good s out \<Longrightarrow> good (fst (run_machine step es s)) out"
  by (induction es arbitrary: s) (auto simp: split_beta Let_def step_inv good_mono)

lemma run_good:
  "inv s \<Longrightarrow> out \<in> set (snd (run_machine step es s)) \<Longrightarrow> good (fst (run_machine step es s)) out"
proof (induction es arbitrary: s)
  case Nil
  then show ?case by simp
next
  case (Cons e es)
  have inv': "inv (fst (step e s))" using Cons.prems by (simp add: step_inv)
  from Cons.prems(2) consider "out \<in> set (snd (step e s))"
    | "out \<in> set (snd (run_machine step es (fst (step e s))))"
    by (auto simp: split_beta Let_def)
  then show ?case
  proof cases
    case 1
    then have "good (fst (step e s)) out" using Cons.prems by (simp add: step_good)
    then show ?thesis using inv' by (simp add: split_beta Let_def run_good_mono)
  next
    case 2
    then show ?thesis using Cons.IH inv' by (simp add: split_beta Let_def)
  qed
qed

end

end
