(* ===== verification/Endian.thy ===== *)
theory Endian
  imports Ice_Prelude
begin

text \<open>
  The big-endian helpers of \<open>src/stun.cpp\<close> (\<open>read16\<close>, \<open>read32\<close>, \<open>write16\<close>, \<open>write32\<close>,
  \<open>write64\<close>) and the pair of 32-bit reads the parser joins into a 64-bit value. Each
  reader/writer pair is an instance of the fixed-width codec interface. The same functions
  stand for \<open>htons\<close>/\<open>htonl\<close> followed by a \<open>memcpy\<close> into a buffer.
\<close>

section \<open>Definitions\<close>

definition read16 :: "bytes \<Rightarrow> nat \<Rightarrow> u16 checked" where
  "read16 p i =
     (if i + 2 \<le> length p then Some (push_bit 8 (ucast (p ! i)) OR ucast (p ! (i + 1))) else None)"

definition read32 :: "bytes \<Rightarrow> nat \<Rightarrow> u32 checked" where
  "read32 p i =
     (if i + 4 \<le> length p
      then Some (push_bit 24 (ucast (p ! i)) OR push_bit 16 (ucast (p ! (i + 1)))
                 OR push_bit 8 (ucast (p ! (i + 2))) OR ucast (p ! (i + 3)))
      else None)"

definition write16 :: "u16 \<Rightarrow> bytes" where
  "write16 v = [ucast (drop_bit 8 v), ucast v]"

definition write32 :: "u32 \<Rightarrow> bytes" where
  "write32 v = [ucast (drop_bit 24 v), ucast (drop_bit 16 v), ucast (drop_bit 8 v), ucast v]"

definition write64 :: "u64 \<Rightarrow> bytes" where
  "write64 v = write32 (ucast (drop_bit 32 v)) @ write32 (ucast v)"

text \<open>The parser's \<open>(hi << 32) | lo\<close> over two 32-bit reads.\<close>

definition read64 :: "bytes \<Rightarrow> nat \<Rightarrow> u64 checked" where
  "read64 p i = do {
     hi \<leftarrow> read32 p i;
     lo \<leftarrow> read32 p (i + 4);
     Some (push_bit 32 (ucast hi) OR ucast lo)
   }"

section \<open>The codec laws\<close>

lemma nth_append_mid:
  "(xs @ ys @ zs) ! (length xs + k) = (ys @ zs) ! k"
  "(xs @ ys @ zs) ! length xs = (ys @ zs) ! 0"
  by (simp_all add: nth_append)

lemma read16_write16_mid: "read16 (xs @ write16 v @ ys) (length xs) = Some v"
proof -
  have "push_bit 8 (ucast (ucast (drop_bit 8 v) :: byte)) OR ucast (ucast v :: byte) = v"
    by (rule bit_word_eqI) (auto simp: bit_simps)
  then show ?thesis by (simp add: read16_def write16_def nth_append)
qed

lemma read32_write32_mid: "read32 (xs @ write32 v @ ys) (length xs) = Some v"
proof -
  have "push_bit 24 (ucast (ucast (drop_bit 24 v) :: byte))
      OR push_bit 16 (ucast (ucast (drop_bit 16 v) :: byte))
      OR push_bit 8 (ucast (ucast (drop_bit 8 v) :: byte)) OR ucast (ucast v :: byte) = v"
    (is "?w = v")
  proof (rule bit_word_eqI)
    fix n assume "n < LENGTH(32)"
    then show "bit ?w n \<longleftrightarrow> bit v n"
      by (cases "n < 8"; cases "n < 16"; cases "n < 24") (auto simp: bit_simps)
  qed
  then show ?thesis by (simp add: read32_def write32_def nth_append)
qed

lemma take2_drop: "i + 2 \<le> length p \<Longrightarrow> take 2 (drop i p) = [p ! i, p ! (i + 1)]"
  by (rule nth_equalityI) (auto simp: less_Suc_eq numeral_2_eq_2)

lemma take4_drop:
  "i + 4 \<le> length p \<Longrightarrow> take 4 (drop i p) = [p ! i, p ! (i + 1), p ! (i + 2), p ! (i + 3)]"
  by (rule nth_equalityI) (auto simp: less_Suc_eq numeral_eq_Suc)

lemma write16_read16: "read16 p i = Some v \<Longrightarrow> take 2 (drop i p) = write16 v"
proof -
  assume *: "read16 p i = Some v"
  then have b: "i + 2 \<le> length p"
    and v: "v = push_bit 8 (ucast (p ! i)) OR ucast (p ! (i + 1))"
    by (auto simp: read16_def split: if_splits)
  have "ucast (drop_bit 8 v) = p ! i" "ucast v = p ! (i + 1)"
    unfolding v by (rule bit_word_eqI; auto simp: bit_simps dest: bit_imp_le_length)+
  then show ?thesis using b by (simp add: take2_drop write16_def)
qed

lemma write32_read32: "read32 p i = Some v \<Longrightarrow> take 4 (drop i p) = write32 v"
proof -
  assume *: "read32 p i = Some v"
  then have b: "i + 4 \<le> length p"
    and v: "v = push_bit 24 (ucast (p ! i)) OR push_bit 16 (ucast (p ! (i + 1)))
       OR push_bit 8 (ucast (p ! (i + 2))) OR ucast (p ! (i + 3))"
    by (auto simp: read32_def split: if_splits)
  have "ucast (drop_bit 24 v) = p ! i" "ucast (drop_bit 16 v) = p ! (i + 1)"
    "ucast (drop_bit 8 v) = p ! (i + 2)" "ucast v = p ! (i + 3)"
    unfolding v by (rule bit_word_eqI; auto simp: bit_simps dest: bit_imp_le_length)+
  then show ?thesis using b by (simp add: take4_drop write32_def)
qed

interpretation c16: fixed_codec write16 read16 2
proof unfold_locales
  show "length (write16 v) = 2" for v by (simp add: write16_def)
  show "read16 bs i = None \<longleftrightarrow> length bs < i + 2" for bs i by (auto simp: read16_def)
qed (rule read16_write16_mid, erule write16_read16)

interpretation c32: fixed_codec write32 read32 4
proof unfold_locales
  show "length (write32 v) = 4" for v by (simp add: write32_def)
  show "read32 bs i = None \<longleftrightarrow> length bs < i + 4" for bs i by (auto simp: read32_def)
qed (rule read32_write32_mid, erule write32_read32)

lemma read64_write64_mid: "read64 (xs @ write64 v @ ys) (length xs) = Some v"
proof -
  let ?hi = "ucast (drop_bit 32 v) :: u32" and ?lo = "ucast v :: u32"
  have "read32 (xs @ write32 ?hi @ (write32 ?lo @ ys)) (length xs) = Some ?hi"
    by (rule c32.dec_enc)
  moreover have "read32 ((xs @ write32 ?hi) @ write32 ?lo @ ys) (length xs + 4) = Some ?lo"
    by (rule c32.dec_at) (simp add: c32.length_enc)
  moreover have "push_bit 32 (ucast ?hi) OR ucast ?lo = v"
    by (rule bit_word_eqI) (auto simp: bit_simps)
  ultimately show ?thesis by (simp add: read64_def write64_def)
qed

lemma write64_read64: "read64 p i = Some v \<Longrightarrow> take 8 (drop i p) = write64 v"
proof -
  assume "read64 p i = Some v"
  then obtain hi lo where r: "read32 p i = Some hi" "read32 p (i + 4) = Some lo"
    and v: "v = push_bit 32 (ucast hi) OR ucast lo"
    by (auto simp: read64_def bind_eq_Some_conv)
  have "ucast (drop_bit 32 v) = hi" "ucast v = lo"
    unfolding v by (rule bit_word_eqI; auto simp: bit_simps dest: bit_imp_le_length)+
  moreover have "take 8 (drop i p) = take 4 (drop i p) @ take 4 (drop (i + 4) p)"
    using take_add [of 4 4 "drop i p"] by (simp add: add.commute)
  ultimately show ?thesis
    using r by (simp add: write64_def write32_read32)
qed

interpretation c64: fixed_codec write64 read64 8
proof unfold_locales
  show "length (write64 v) = 8" for v by (simp add: write64_def c32.length_enc)
  show "read64 bs i = None \<longleftrightarrow> length bs < i + 8" for bs i
    by (auto simp: read64_def Option.bind_eq_None_conv c32.dec_None_iff dest: c32.dec_Some_bound)
qed (rule read64_write64_mid, erule write64_read64)

lemmas endian_len [simp, len_simps] = c16.length_enc c32.length_enc c64.length_enc
lemmas endian_None [simp] = c16.dec_None_iff c32.dec_None_iff c64.dec_None_iff
lemma safe_reads [simp]:
  "safe (read16 bs i) \<longleftrightarrow> i + 2 \<le> length bs"
  "safe (read32 bs i) \<longleftrightarrow> i + 4 \<le> length bs"
  "safe (read64 bs i) \<longleftrightarrow> i + 8 \<le> length bs"
  by (auto simp: safe_def)

lemmas endian_at [codec_simps] = c16.dec_at c32.dec_at c64.dec_at
lemmas endian_front [simp] = c16.dec_front c32.dec_front c64.dec_front
lemmas endian_inject [simp] = c16.enc_append_inject c32.enc_append_inject c64.enc_append_inject

end
