(* ===== verification/Framing.thy ===== *)
theory Framing
  imports Endian
begin

text \<open>
  The framings of the wire: the two-octet length prefix used on every stream transport
  (\<open>encode_stream_frame\<close>, \<open>try_take_stream_frame\<close> in \<open>src/turn.cpp\<close>; \<open>frame_tcp_stun\<close> and the
  loop of \<open>on_tcp_carrier_data\<close> in \<open>src/session.cpp\<close>) and the ChannelData frames of
  \<open>src/stun.cpp\<close>. The interface \<open>stream_framing\<close> states what a receiver needs of a
  length-prefixed framing; under it, however the carrier cuts the byte stream into chunks,
  the receiver delivers exactly the payloads that were framed.
\<close>

section \<open>Length-prefixed stream frames\<close>

text \<open>
  \<open>encode_stream_frame\<close> appends to \<open>out\<close>; the boolean result is the first component.
\<close>

definition encode_stream_frame :: "bytes \<Rightarrow> bytes \<Rightarrow> bool \<times> bytes" where
  "encode_stream_frame payload out =
     (if length payload > 0xFFFF then (False, out)
      else (True, out @ [word_of_nat (drop_bit 8 (length payload)),
                         word_of_nat (length payload AND 0xFF)] @ payload))"

text \<open>
  \<open>try_take_stream_frame\<close>: \<open>None\<close> is the result \<open>false\<close> with the buffer untouched, otherwise
  the frame and the shortened buffer.
\<close>

definition try_take_stream_frame :: "bytes \<Rightarrow> (bytes \<times> bytes) option" where
  "try_take_stream_frame buffer =
     (if length buffer < 2 then None
      else let msg_len = push_bit 8 (unat (buffer ! 0)) OR unat (buffer ! 1)
           in if length buffer < 2 + msg_len then None
              else Some (take msg_len (drop 2 buffer), drop (2 + msg_len) buffer))"

text \<open>The loop \<open>while (try_take_stream_frame(buf, frame)) ...\<close>: the frames it takes, the rest.\<close>

function drain_stream :: "bytes \<Rightarrow> bytes list \<times> bytes" where
  "drain_stream buf =
     (case try_take_stream_frame buf of
        None \<Rightarrow> ([], buf)
      | Some (frame, rest) \<Rightarrow> (let (fs, r) = drain_stream rest in (frame # fs, r)))"
  by pat_completeness auto

lemma try_take_shorter:
  "try_take_stream_frame buf = Some (frame, rest) \<Longrightarrow> length rest < length buf"
  by (auto simp: try_take_stream_frame_def Let_def split: if_splits)

termination drain_stream
  by (relation "measure length") (auto dest: try_take_shorter)

declare drain_stream.simps [simp del]

text \<open>The session's own framing of STUN over TCP: the length is truncated to 16 bits.\<close>

definition frame_tcp_stun :: "bytes \<Rightarrow> bytes" where
  "frame_tcp_stun msg =
     (let len = (word_of_nat (length msg) :: u16)
      in [ucast (drop_bit 8 len AND 0xFF), ucast (len AND 0xFF)] @ msg)"

text \<open>One turn of the loop of \<open>on_tcp_carrier_data\<close>: its guard, its break, and the erase.\<close>

definition take_tcp_frame :: "bytes \<Rightarrow> (bytes \<times> bytes) option" where
  "take_tcp_frame buf =
     (if length buf \<ge> 2
      then let len = (push_bit 8 (ucast (buf ! 0)) OR ucast (buf ! 1) :: u16)
           in if length buf < 2 + unat len then None
              else Some (take (unat len) (drop 2 buf), drop (2 + unat len) buf)
      else None)"

function drain_tcp :: "bytes \<Rightarrow> bytes list \<times> bytes" where
  "drain_tcp buf =
     (case take_tcp_frame buf of
        None \<Rightarrow> ([], buf)
      | Some (frame, rest) \<Rightarrow> (let (fs, r) = drain_tcp rest in (frame # fs, r)))"
  by pat_completeness auto

lemma take_tcp_shorter: "take_tcp_frame buf = Some (frame, rest) \<Longrightarrow> length rest < length buf"
  by (auto simp: take_tcp_frame_def Let_def split: if_splits)

termination drain_tcp
  by (relation "measure length") (auto dest: take_tcp_shorter)

declare drain_tcp.simps [simp del]

section \<open>What a receiver needs of a framing\<close>

text \<open>Feeding chunks: each chunk is appended to the buffer and the buffer is drained.\<close>

fun feed_chunks :: "(bytes \<Rightarrow> bytes list \<times> bytes) \<Rightarrow> bytes \<Rightarrow> bytes list \<Rightarrow> bytes list \<times> bytes" where
  "feed_chunks drain buf [] = ([], buf)"
| "feed_chunks drain buf (c # cs) =
     (let (fs, r) = drain (buf @ c); (gs, r') = feed_chunks drain r cs in (fs @ gs, r'))"

locale stream_framing =
  fixes frame :: "bytes \<Rightarrow> bytes"
    and fits :: "bytes \<Rightarrow> bool"
    and take1 :: "bytes \<Rightarrow> (bytes \<times> bytes) option"
    and drain :: "bytes \<Rightarrow> bytes list \<times> bytes"
  assumes take1_frame: "fits p \<Longrightarrow> take1 (frame p @ rest) = Some (p, rest)"
    and take1_append: "take1 b = Some (p, r) \<Longrightarrow> take1 (b @ x) = Some (p, r @ x)"
    and take1_shorter: "take1 b = Some (p, r) \<Longrightarrow> length r < length b"
    and take1_Nil: "take1 [] = None"
    and drain_unfold: "drain b = (case take1 b of None \<Rightarrow> ([], b)
          | Some (p, r) \<Rightarrow> (let (ps, r') = drain r in (p # ps, r')))"
begin

lemma drain_append:
  "drain (b @ c) = (let (fs, r) = drain b; (gs, r') = drain (r @ c) in (fs @ gs, r'))"
proof (induction b rule: measure_induct_rule [of length])
  case (less b)
  show ?case
  proof (cases "take1 b")
    case None
    then show ?thesis by (simp add: drain_unfold [of b])
  next
    case (Some pr)
    then obtain p r where pr: "take1 b = Some (p, r)" by (cases pr) auto
    then have "take1 (b @ c) = Some (p, r @ c)" by (rule take1_append)
    then show ?thesis
      using less.IH [OF take1_shorter [OF pr]] pr
      by (simp add: drain_unfold [of b] drain_unfold [of "b @ c"] split_beta Let_def)
  qed
qed

lemma drain_stuck: "take1 (snd (drain b)) = None"
proof (induction b rule: measure_induct_rule [of length])
  case (less b)
  show ?case
  proof (cases "take1 b")
    case None
    then show ?thesis by (simp add: drain_unfold [of b])
  next
    case (Some pr)
    then obtain p r where "take1 b = Some (p, r)" by (cases pr) auto
    then show ?thesis
      using less.IH [of r] take1_shorter by (simp add: drain_unfold [of b] split_beta Let_def)
  qed
qed

lemma drain_frames: "(\<forall>p \<in> set ps. fits p) \<Longrightarrow> drain (concat (map frame ps)) = (ps, [])"
proof (induction ps)
  case Nil
  then show ?case by (simp add: drain_unfold [of "[]"] take1_Nil)
next
  case (Cons p ps)
  then show ?case
    using drain_unfold [of "frame p @ concat (map frame ps)"] by (simp add: take1_frame)
qed

lemma feed_chunks_drain: "take1 buf = None \<Longrightarrow> feed_chunks drain buf cs = drain (buf @ concat cs)"
proof (induction cs arbitrary: buf)
  case Nil
  then show ?case by (simp add: drain_unfold [of buf])
next
  case (Cons c cs)
  have "drain (buf @ c @ concat cs) =
      (let (fs, r) = drain (buf @ c); (gs, r') = drain (r @ concat cs) in (fs @ gs, r'))"
    using drain_append [of "buf @ c" "concat cs"] by simp
  then show ?case
    using Cons.IH [OF drain_stuck] by (simp add: split_beta Let_def)
qed

lemma chunking_invariant:
  assumes "\<forall>p \<in> set ps. fits p" and "take1 tail = None"
    and "concat cs = concat (map frame ps) @ tail"
  shows "feed_chunks drain [] cs = (ps, tail)"
proof -
  have "feed_chunks drain [] cs = drain (concat (map frame ps) @ tail)"
    using feed_chunks_drain [OF take1_Nil] assms(3) by simp
  also have "\<dots> = (ps, tail)"
    using drain_frames [OF assms(1)] assms(2)
    by (simp add: drain_append [of "concat (map frame ps)"] drain_unfold [of tail])
  finally show ?thesis .
qed

end

section \<open>The two stream framings implement it\<close>

text \<open>The length field both encoders write and both decoders read.\<close>

lemma length_prefix:
  "[word_of_nat (drop_bit 8 n), word_of_nat (n AND 0xFF)] = write16 (word_of_nat n)"
proof -
  have "word_of_nat (drop_bit 8 n) = (ucast (drop_bit 8 (word_of_nat n :: u16)) :: byte)"
    by (rule bit_word_eqI) (auto simp: bit_simps)
  moreover have "word_of_nat (n AND 0xFF) = (ucast (word_of_nat n :: u16) :: byte)"
  proof -
    have "n AND 0xFF = take_bit 8 n" by (simp add: take_bit_eq_mask mask_eq_exp_minus_1)
    then show ?thesis by (intro bit_word_eqI) (auto simp: bit_simps)
  qed
  ultimately show ?thesis by (simp add: write16_def)
qed

lemma stream_len_read16:
  "length b \<ge> 2 \<Longrightarrow> push_bit 8 (unat (b ! 0)) OR unat (b ! 1) = unat (the (read16 b 0))"
proof -
  assume "length b \<ge> 2"
  have small: "unat x < 2 ^ 8" for x :: byte using unsigned_less [of x, where ?'a = nat] by simp
  have "take_bit 16 (unat x) = unat x" "take_bit 16 (push_bit 8 (unat x)) = push_bit 8 (unat x)"
    for x :: byte
    using small [of x] by (simp_all add: take_bit_nat_eq_self_iff push_bit_nat_def)
  then show ?thesis
    using \<open>length b \<ge> 2\<close>
    by (simp add: read16_def unsigned_or_eq unsigned_push_bit_eq unsigned_ucast_eq)
qed

text \<open>Both takers are the same function of the buffer, written over \<open>read16\<close>.\<close>

lemma try_take_read16:
  "try_take_stream_frame b =
     (case read16 b 0 of None \<Rightarrow> None
      | Some n \<Rightarrow> if length b < 2 + unat n then None
                  else Some (take (unat n) (drop 2 b), drop (2 + unat n) b))"
  using stream_len_read16 [of b]
  by (auto simp: try_take_stream_frame_def Let_def read16_def)

lemma take_tcp_read16: "take_tcp_frame b = try_take_stream_frame b"
  by (auto simp: take_tcp_frame_def try_take_read16 read16_def Let_def)

lemma drain_tcp_stream: "drain_tcp b = drain_stream b"
proof (induction b rule: drain_tcp.induct)
  case (1 b)
  then show ?case
    by (simp add: drain_tcp.simps [of b] drain_stream.simps [of b] take_tcp_read16
        split: option.splits prod.splits)
qed

lemma try_take_frame:
  assumes "length p \<le> 0xFFFF"
  shows "try_take_stream_frame (write16 (word_of_nat (length p)) @ p @ rest) = Some (p, rest)"
proof -
  have "unat (word_of_nat (length p) :: u16) = length p"
    using assms by (simp add: unat_of_nat)
  then show ?thesis by (simp add: try_take_read16)
qed

lemma try_take_append:
  "try_take_stream_frame b = Some (p, r) \<Longrightarrow> try_take_stream_frame (b @ x) = Some (p, r @ x)"
  by (auto simp: try_take_read16 c16.dec_append split: option.splits if_splits
      dest: c16.dec_Some_bound)

lemma try_take_Nil: "try_take_stream_frame [] = None"
  by (simp add: try_take_stream_frame_def)

definition fits16 :: "bytes \<Rightarrow> bool" where
  "fits16 p \<longleftrightarrow> length p \<le> 0xFFFF"

lemma encode_stream_frame_fits:
  "fits16 p \<Longrightarrow> encode_stream_frame p out = (True, out @ write16 (word_of_nat (length p)) @ p)"
  by (simp add: encode_stream_frame_def fits16_def flip: length_prefix)

lemma frame_tcp_stun_eq: "frame_tcp_stun p = write16 (word_of_nat (length p)) @ p"
proof -
  have "ucast (drop_bit 8 l AND 0xFF) = (ucast (drop_bit 8 l) :: byte)"
    "ucast (l AND 0xFF) = (ucast l :: byte)" for l :: u16
    by (rule bit_word_eqI; auto simp: bit_simps bit_numeral_rec less_Suc_eq numeral_eq_Suc)+
  then show ?thesis by (simp add: frame_tcp_stun_def write16_def Let_def)
qed

interpretation turn_stream: stream_framing
  "\<lambda>p. snd (encode_stream_frame p [])" fits16 try_take_stream_frame drain_stream
proof unfold_locales
  show "fits16 p \<Longrightarrow> try_take_stream_frame (snd (encode_stream_frame p []) @ rest) = Some (p, rest)"
    for p rest
    by (simp add: encode_stream_frame_fits try_take_frame fits16_def)
  show "drain_stream b = (case try_take_stream_frame b of None \<Rightarrow> ([], b)
      | Some (p, r) \<Rightarrow> (let (ps, r') = drain_stream r in (p # ps, r')))" for b
    by (rule drain_stream.simps)
qed (auto intro: try_take_append try_take_shorter simp: try_take_Nil)

interpretation tcp_stream: stream_framing frame_tcp_stun fits16 take_tcp_frame drain_tcp
proof unfold_locales
  show "drain_tcp b = (case take_tcp_frame b of None \<Rightarrow> ([], b)
      | Some (p, r) \<Rightarrow> (let (ps, r') = drain_tcp r in (p # ps, r')))" for b
    by (rule drain_tcp.simps)
qed (auto simp: take_tcp_read16 frame_tcp_stun_eq try_take_frame fits16_def try_take_Nil
     intro: try_take_append try_take_shorter)

section \<open>ChannelData frames\<close>

definition TURN_CHANNEL_NUMBER_MIN :: u16 where "TURN_CHANNEL_NUMBER_MIN = 0x4000"
definition TURN_CHANNEL_NUMBER_MAX :: u16 where "TURN_CHANNEL_NUMBER_MAX = 0x7FFF"
definition TURN_CHANNEL_DATA_HEADER_SIZE :: nat where "TURN_CHANNEL_DATA_HEADER_SIZE = 4"

lemmas channel_consts = TURN_CHANNEL_NUMBER_MIN_def TURN_CHANNEL_NUMBER_MAX_def
  TURN_CHANNEL_DATA_HEADER_SIZE_def

record ChannelDataView =
  cd_channel :: u16
  cd_payload :: bytes

text \<open>The \<open>pad\<close> of the source, \<open>(4 - (size & 3)) & 3\<close>, is a \<open>size_t\<close> computation.\<close>

definition encode_channel_data :: "u16 \<Rightarrow> bytes \<Rightarrow> bytes" where
  "encode_channel_data channel payload =
     (let len = (word_of_nat (length payload) :: u16);
          pad = (4 - (length payload AND 3)) AND 3
      in [ucast (drop_bit 8 channel), ucast (channel AND 0xFF),
          ucast (drop_bit 8 len), ucast (len AND 0xFF)] @ payload @ replicate pad 0)"

definition is_channel_data :: "bytes \<Rightarrow> bool" where
  "is_channel_data raw =
     (if length raw < TURN_CHANNEL_DATA_HEADER_SIZE then False
      else let top = raw ! 0 AND 0xC0 in top = 0x40)"

definition parse_channel_data :: "bytes \<Rightarrow> ChannelDataView option checked" where
  "parse_channel_data raw =
     (if length raw < TURN_CHANNEL_DATA_HEADER_SIZE then Some None
      else do {
        channel \<leftarrow> read16 raw 0;
        if channel < TURN_CHANNEL_NUMBER_MIN \<or> channel > TURN_CHANNEL_NUMBER_MAX then Some None
        else do {
          len \<leftarrow> read16 raw 2;
          if 4 + unat len > length raw then Some None
          else do {
            p \<leftarrow> rd raw 4 (unat len);
            Some (Some \<lparr>cd_channel = channel, cd_payload = p\<rparr>)
          }
        }
      })"

lemma parse_channel_data_safe: "safe (parse_channel_data raw)"
  by (auto simp: parse_channel_data_def channel_consts)

lemma and_0xFF_u16: "ucast (l AND 0xFF) = (ucast l :: byte)" for l :: u16
  by (rule bit_word_eqI) (auto simp: bit_simps bit_numeral_rec less_Suc_eq numeral_eq_Suc)

lemma encode_channel_data_eq:
  "encode_channel_data channel payload =
     write16 channel @ write16 (word_of_nat (length payload)) @ payload
       @ replicate ((4 - (length payload AND 3)) AND 3) 0"
  by (simp add: encode_channel_data_def write16_def Let_def and_0xFF_u16)

lemma parse_encode_channel_data:
  assumes "TURN_CHANNEL_NUMBER_MIN \<le> c" "c \<le> TURN_CHANNEL_NUMBER_MAX" "fits16 p"
  shows "parse_channel_data (encode_channel_data c p @ rest) =
    Some (Some \<lparr>cd_channel = c, cd_payload = p\<rparr>)"
proof -
  have len: "unat (word_of_nat (length p) :: u16) = length p"
    using assms(3) by (simp add: unat_of_nat fits16_def)
  have "read16 (encode_channel_data c p @ rest) 2 = Some (word_of_nat (length p))"
    by (simp add: encode_channel_data_eq codec_simps)
  moreover have "rd (encode_channel_data c p @ rest) 4 (length p) = Some p"
    by (simp add: encode_channel_data_eq rd_def)
  ultimately show ?thesis
    using assms(1,2) len
    by (simp add: parse_channel_data_def channel_consts encode_channel_data_eq not_less)
qed

lemma word_and_C0: "b AND 0xC0 = 0x40 \<longleftrightarrow> bit b 6 \<and> \<not> bit b 7" for b :: byte
proof
  assume "b AND 0xC0 = 0x40"
  then have "bit (b AND 0xC0) n = bit (0x40 :: byte) n" for n by simp
  from this [of 6] this [of 7] show "bit b 6 \<and> \<not> bit b 7" by (simp add: bit_simps bit_numeral_rec)
next
  assume "bit b 6 \<and> \<not> bit b 7"
  then show "b AND 0xC0 = 0x40"
    by (intro bit_word_eqI) (auto simp: bit_simps bit_numeral_rec less_Suc_eq numeral_eq_Suc)
qed

lemma u16_channel_range: "0x4000 \<le> w \<and> w \<le> 0x7FFF \<longleftrightarrow> bit w 14 \<and> \<not> bit w 15" for w :: u16
proof -
  define k where "k = unat w div 16384"
  have "unat w < 65536" using unsigned_less [of w, where ?'a = nat] by simp
  then have "k < 4" by (simp add: k_def div_less_iff_less_mult)
  then have k: "k = 0 \<or> k = 1 \<or> k = 2 \<or> k = 3" by auto
  have "bit w 14 = odd k" "bit w 15 = odd (k div 2)"
    using bit_unsigned_iff [of w 14, where ?'a = nat] bit_unsigned_iff [of w 15, where ?'a = nat]
    by (simp_all add: bit_iff_odd [of "unat w"] k_def flip: div_mult2_eq)
  moreover have "0x4000 \<le> w \<longleftrightarrow> 1 \<le> k" "w \<le> 0x7FFF \<longleftrightarrow> k \<le> 1"
    by (auto simp: word_le_nat_alt k_def less_eq_div_iff_mult_less_eq)
  ultimately show ?thesis using k by auto
qed

text \<open>
  The demultiplexing test on the first octet agrees with the range test of the parser.
\<close>

lemma is_channel_data_iff:
  "is_channel_data raw \<longleftrightarrow> length raw \<ge> 4 \<and>
     TURN_CHANNEL_NUMBER_MIN \<le> the (read16 raw 0) \<and> the (read16 raw 0) \<le> TURN_CHANNEL_NUMBER_MAX"
proof (cases "length raw \<ge> 4")
  case False
  then show ?thesis by (simp add: is_channel_data_def channel_consts)
next
  case True
  let ?w = "push_bit 8 (ucast (raw ! 0)) OR ucast (raw ! 1) :: u16"
  have "read16 raw 0 = Some ?w" using True by (simp add: read16_def)
  moreover have "bit ?w 14 = bit (raw ! 0) 6" "bit ?w 15 = bit (raw ! 0) 7"
    by (auto simp: bit_simps dest: bit_imp_le_length)
  ultimately show ?thesis
    using True by (simp add: is_channel_data_def channel_consts word_and_C0 u16_channel_range)
qed

lemma and_3_mod_4: "n AND 3 = n mod 4" for n :: nat
  using take_bit_eq_mask [of 2 n] by (simp add: mask_eq_exp_minus_1 take_bit_eq_mod)

lemma length_encode_channel_data: "4 dvd length (encode_channel_data c p)"
proof -
  have "length (encode_channel_data c p) = (length p + pad4 (length p)) + 4"
    by (simp only: encode_channel_data_eq and_3_mod_4 pad4_def length_append length_replicate endian_len)
  then show ?thesis using pad4_dvd by (metis dvd_add dvd_refl)
qed

section \<open>Properties\<close>

text \<open>C8: However a stream carrier cuts the bytes of a sequence of frames produced by
  \<open>encode_stream_frame\<close> (each payload at most 65535 octets) into chunks, and whatever incomplete
  frame follows them, the receive loop of the TURN client delivers exactly the payloads, in order,
  and keeps exactly the incomplete tail in its buffer.\<close>

theorem stream_chunking:
  assumes "\<forall>p \<in> set ps. length p \<le> 0xFFFF" and "try_take_stream_frame tail = None"
    and "concat cs = concat (map (\<lambda>p. snd (encode_stream_frame p [])) ps) @ tail"
  shows "feed_chunks drain_stream [] cs = (ps, tail)"
  using turn_stream.chunking_invariant [of ps tail cs] assms by (simp add: fits16_def)

theorem stream_chunking_witness:
  "feed_chunks drain_stream [] [[0], [3, 1], [2, 3, 0], [1, 9, 0, 2], [7]] = ([[1, 2, 3], [9]], [0, 2, 7])"
  by (rule stream_chunking [where ps = "[[1, 2, 3], [9]]" and tail = "[0, 2, 7]"])
     (simp_all add: try_take_stream_frame_def encode_stream_frame_fits fits16_def write16_def)

text \<open>The same holds of the session's own framing of STUN over TCP: chunks of
  \<open>frame_tcp_stun\<close> messages (each at most 65535 octets) reassemble in \<open>on_tcp_carrier_data\<close> to
  exactly the messages sent.\<close>

theorem tcp_chunking:
  assumes "\<forall>p \<in> set ps. length p \<le> 0xFFFF" and "take_tcp_frame tail = None"
    and "concat cs = concat (map frame_tcp_stun ps) @ tail"
  shows "feed_chunks drain_tcp [] cs = (ps, tail)"
  using tcp_stream.chunking_invariant [of ps tail cs] assms by (simp add: fits16_def)

theorem tcp_chunking_witness:
  "feed_chunks drain_tcp [] [[0, 2, 5], [6, 0], [0, 0, 1], [8, 0]] = ([[5, 6], [], [8]], [0])"
  by (rule tcp_chunking [where ps = "[[5, 6], [], [8]]" and tail = "[0]"])
     (simp_all add: take_tcp_frame_def frame_tcp_stun_def)

text \<open>ChannelData round trip: for a channel number in the range of the protocol and a payload of at
  most 65535 octets, the parser recovers channel and payload from the encoder's frame, also when
  other octets follow it, and the demultiplexer classifies the frame as ChannelData.\<close>

theorem channel_data_roundtrip:
  assumes "TURN_CHANNEL_NUMBER_MIN \<le> c" "c \<le> TURN_CHANNEL_NUMBER_MAX" "length p \<le> 0xFFFF"
  shows "parse_channel_data (encode_channel_data c p @ rest) =
      Some (Some \<lparr>cd_channel = c, cd_payload = p\<rparr>) \<and>
    is_channel_data (encode_channel_data c p @ rest) \<and> 4 dvd length (encode_channel_data c p)"
proof -
  have "the (read16 (encode_channel_data c p @ rest) 0) = c"
    by (simp add: encode_channel_data_eq)
  then show ?thesis
    using parse_encode_channel_data [of c p rest] assms
    by (simp add: is_channel_data_iff fits16_def length_encode_channel_data)
       (simp add: encode_channel_data_eq)
qed

theorem channel_data_roundtrip_witness:
  "parse_channel_data (encode_channel_data 0x4001 [1, 2, 3, 4, 5] @ [9]) =
      Some (Some \<lparr>cd_channel = 0x4001, cd_payload = [1, 2, 3, 4, 5]\<rparr>)"
  using channel_data_roundtrip [of "0x4001" "[1, 2, 3, 4, 5]" "[9]"] by (simp add: channel_consts)

text \<open>ChannelData parsing is memory safe and complete on every buffer a peer can send: no read leaves
  the buffer, a buffer the demultiplexer does not classify as ChannelData is never parsed as one,
  and a returned payload is the slice of the buffer the length field announces.\<close>

theorem channel_data_safe:
  "\<exists>r. parse_channel_data raw = Some r \<and>
     (r = None \<longleftrightarrow> \<not> (is_channel_data raw \<and> 4 + unat (the (read16 raw 2)) \<le> length raw)) \<and>
     (\<forall>v. r = Some v \<longrightarrow> cd_payload v = take (unat (the (read16 raw 2))) (drop 4 raw))"
proof (cases "is_channel_data raw")
  case False
  then have "parse_channel_data raw = Some None"
    by (cases "read16 raw 0")
       (auto simp: parse_channel_data_def is_channel_data_iff channel_consts not_less)
  with False show ?thesis by simp
next
  case True
  then obtain c n where "length raw \<ge> 4" "read16 raw 0 = Some c" "read16 raw 2 = Some n"
    "TURN_CHANNEL_NUMBER_MIN \<le> c" "c \<le> TURN_CHANNEL_NUMBER_MAX"
    using c16.dec_in_bounds [of 0 raw] c16.dec_in_bounds [of 2 raw]
    by (auto simp: is_channel_data_iff)
  with True show ?thesis
    by (simp add: parse_channel_data_def channel_consts rd_def not_less)
qed

theorem channel_data_safe_witness:
  "\<exists>r. parse_channel_data [0x40, 0, 0, 1, 7] = Some r"
  using channel_data_safe [of "[0x40, 0, 0, 1, 7]"] by blast

end
