(* ===== verification/Inet.thy ===== *)
theory Inet
  imports Ice_Prelude
begin

text \<open>
  Addresses as text. The C library's \<open>inet_pton\<close> and \<open>inet_ntop\<close> are parameters of the
  development, collected in the record \<open>inet\<close>; \<open>inet_ok\<close> states the documented behaviour the
  code relies on. \<open>sample_inet\<close> is a concrete implementation (dotted decimal, and the
  uncompressed eight-group form) that satisfies it. The endpoint keys and URIs of
  \<open>src/session.cpp\<close> are defined here as well, with their injectivity.
\<close>

section \<open>The C library's address conversions\<close>

record inet =
  inet_pton4 :: "string \<Rightarrow> bytes option"
  inet_pton6 :: "string \<Rightarrow> bytes option"
  inet_ntop4 :: "bytes \<Rightarrow> string"
  inet_ntop6 :: "bytes \<Rightarrow> string"

text \<open>\<open>s.c_str()\<close> handed to a C function: the characters before the first NUL.\<close>

definition c_str :: "string \<Rightarrow> string" where
  "c_str s = takeWhile (\<lambda>c. c \<noteq> CHR 0x00) s"

lemma c_str_id: "CHR 0x00 \<notin> set s \<Longrightarrow> c_str s = s"
  by (auto simp: c_str_def takeWhile_eq_all_conv)

text \<open>
  The behaviour relied on: a successful conversion fills the address, a printed address
  converts back, the text of an IPv6 address is not the text of an IPv4 address, and printed
  addresses are C strings.
\<close>

definition inet_ok :: "inet \<Rightarrow> bool" where
  "inet_ok I \<longleftrightarrow>
     (\<forall>s b. inet_pton4 I s = Some b \<longrightarrow> length b = 4) \<and>
     (\<forall>s b. inet_pton6 I s = Some b \<longrightarrow> length b = 16) \<and>
     (\<forall>b. length b = 4 \<longrightarrow> inet_pton4 I (inet_ntop4 I b) = Some b) \<and>
     (\<forall>b. length b = 16 \<longrightarrow> inet_pton6 I (inet_ntop6 I b) = Some b \<and>
        inet_pton4 I (inet_ntop6 I b) = None) \<and>
     (\<forall>b. CHR 0x00 \<notin> set (inet_ntop4 I b) \<and> CHR 0x00 \<notin> set (inet_ntop6 I b))"

lemma inet_okD:
  assumes "inet_ok I"
  shows "inet_pton4 I s = Some b \<Longrightarrow> length b = 4"
    and "inet_pton6 I s = Some b \<Longrightarrow> length b = 16"
    and "length b = 4 \<Longrightarrow> inet_pton4 I (inet_ntop4 I b) = Some b"
    and "length b = 16 \<Longrightarrow> inet_pton6 I (inet_ntop6 I b) = Some b"
    and "length b = 16 \<Longrightarrow> inet_pton4 I (inet_ntop6 I b) = None"
    and "c_str (inet_ntop4 I b) = inet_ntop4 I b"
    and "c_str (inet_ntop6 I b) = inet_ntop6 I b"
  using assms by (auto simp: inet_ok_def c_str_id)

section \<open>Endpoint keys and URIs\<close>

definition endpoint_key :: "string \<Rightarrow> u16 \<Rightarrow> string" where
  "endpoint_key ip port = ip @ '':'' @ to_string (unat port)"

definition endpoint_uri :: "string \<Rightarrow> u16 \<Rightarrow> string" where
  "endpoint_uri ip port = ''udp://'' @ ip @ '':'' @ to_string (unat port)"

definition endpoint_uri_tcp :: "string \<Rightarrow> u16 \<Rightarrow> string" where
  "endpoint_uri_tcp ip port = ''tcp://'' @ ip @ '':'' @ to_string (unat port)"

text \<open>The text after the last separator determines where the separator is.\<close>

lemma append_sep_inject:
  assumes "xs @ [c] @ ys = xs' @ [c] @ ys'" "c \<notin> set ys" "c \<notin> set ys'"
  shows "xs = xs' \<and> ys = ys'"
proof -
  have "rev ys @ [c] @ rev xs = rev ys' @ [c] @ rev xs'"
    using arg_cong [OF assms(1), of rev] by simp
  then have "takeWhile (\<lambda>x. x \<noteq> c) (rev ys @ [c] @ rev xs) =
      takeWhile (\<lambda>x. x \<noteq> c) (rev ys' @ [c] @ rev xs')" by simp
  moreover have "takeWhile (\<lambda>x. x \<noteq> c) (rev zs @ [c] @ us) = rev zs" if "c \<notin> set zs" for zs us
    using that by (subst takeWhile_append2) auto
  ultimately have "rev ys = rev ys'" using assms(2,3) by metis
  then show ?thesis using assms(1) by simp
qed

lemma endpoint_key_inject:
  "endpoint_key ip port = endpoint_key ip' port' \<longleftrightarrow> ip = ip' \<and> port = port'"
proof
  assume "endpoint_key ip port = endpoint_key ip' port'"
  then have "ip = ip' \<and> to_string (unat port) = to_string (unat port')"
    unfolding endpoint_key_def by (intro append_sep_inject) (auto simp: to_string_no_colon)
  then show "ip = ip' \<and> port = port'" by (auto dest: to_string_inject intro: unsigned_word_eqI)
qed auto

section \<open>A concrete instance of the address conversions\<close>

fun split_on :: "char \<Rightarrow> string \<Rightarrow> string list" where
  "split_on c [] = [[]]"
| "split_on c (x # xs) =
     (if x = c then [] # split_on c xs
      else case split_on c xs of [] \<Rightarrow> [[x]] | f # fs \<Rightarrow> (x # f) # fs)"

fun join_with :: "char \<Rightarrow> string list \<Rightarrow> string" where
  "join_with c [] = []"
| "join_with c [f] = f"
| "join_with c (f # fs) = f @ [c] @ join_with c fs"

lemma split_on_no_sep: "c \<notin> set f \<Longrightarrow> split_on c f = [f]"
  by (induction f) auto

lemma split_on_field: "c \<notin> set f \<Longrightarrow> split_on c (f @ [c] @ xs) = f # split_on c xs"
  by (induction f) auto

lemma split_join: "fs \<noteq> [] \<Longrightarrow> (\<forall>f \<in> set fs. c \<notin> set f) \<Longrightarrow> split_on c (join_with c fs) = fs"
proof (induction c fs rule: join_with.induct)
  case (3 c f g fs)
  then show ?case using split_on_field [of c f "join_with c (g # fs)"] by simp
qed (auto simp: split_on_no_sep)

definition digit_value :: "char \<Rightarrow> nat" where
  "digit_value c = of_char c - 48"

definition nat_of_digits :: "string \<Rightarrow> nat" where
  "nat_of_digits s = foldl (\<lambda>n c. 10 * n + digit_value c) 0 s"

lemma nat_of_digits_to_string [simp]: "nat_of_digits (to_string n) = n"
proof (induction n rule: to_string.induct)
  case (1 n)
  then show ?case
    by (cases "n < 10")
       (simp_all add: to_string.simps [of n] nat_of_digits_def digit_value_def of_digit_char)
qed

definition sample_pton4 :: "string \<Rightarrow> bytes option" where
  "sample_pton4 s =
     (let fs = split_on CHR ''.'' s
      in if length fs = 4 \<and> list_all (\<lambda>f. to_string (nat_of_digits f) = f \<and> nat_of_digits f < 256) fs
         then Some (map (\<lambda>f. word_of_nat (nat_of_digits f)) fs) else None)"

definition sample_ntop4 :: "bytes \<Rightarrow> string" where
  "sample_ntop4 b = join_with CHR ''.'' (map (\<lambda>x. to_string (unat x)) b)"

definition hex_digit :: "nat \<Rightarrow> char" where
  "hex_digit n = ''0123456789abcdef'' ! (n mod 16)"

definition hex_value :: "char \<Rightarrow> nat option" where
  "hex_value c = (let i = length (takeWhile (\<lambda>x. x \<noteq> c) ''0123456789abcdef'')
                  in if i < 16 then Some i else None)"

fun hex_bytes :: "string \<Rightarrow> bytes option" where
  "hex_bytes [] = Some []"
| "hex_bytes (h # l # r) = do {
     a \<leftarrow> hex_value h; b \<leftarrow> hex_value l; bs \<leftarrow> hex_bytes r;
     Some (word_of_nat (16 * a + b) # bs) }"
| "hex_bytes [h] = None"

fun hex_text :: "bytes \<Rightarrow> string" where
  "hex_text [] = []"
| "hex_text (b # bs) = hex_digit (unat b div 16) # hex_digit (unat b mod 16) # hex_text bs"

fun pairs_of :: "bytes \<Rightarrow> bytes list" where
  "pairs_of (a # b # bs) = [a, b] # pairs_of bs"
| "pairs_of bs = []"

definition sample_pton6 :: "string \<Rightarrow> bytes option" where
  "sample_pton6 s =
     (let fs = split_on CHR '':'' s
      in if length fs = 8 \<and> list_all (\<lambda>f. length f = 4) fs then hex_bytes (concat fs) else None)"

definition sample_ntop6 :: "bytes \<Rightarrow> string" where
  "sample_ntop6 b = join_with CHR '':'' (map hex_text (pairs_of b))"

definition sample_inet :: inet where
  "sample_inet = \<lparr>inet_pton4 = sample_pton4, inet_pton6 = sample_pton6,
     inet_ntop4 = sample_ntop4, inet_ntop6 = sample_ntop6\<rparr>"

lemma digits_no_sep:
  "CHR ''.'' \<notin> set (to_string n)" "CHR 0x00 \<notin> set (to_string n)"
proof -
  have "c \<notin> set (to_string n)" if "(of_char c :: nat) < 48" for c
  proof
    assume "c \<in> set (to_string n)"
    then obtain d where "d < 10" "c = digit_char d" using to_string_digits by blast
    with that show False by (simp add: of_digit_char)
  qed
  then show "CHR ''.'' \<notin> set (to_string n)" "CHR 0x00 \<notin> set (to_string n)" by simp_all
qed

lemma set_join_with: "set (join_with c fs) \<subseteq> insert c (\<Union> (set ` set fs))"
  by (induction c fs rule: join_with.induct) auto

lemma unat_byte_less: "unat (x :: byte) < 256"
  using unsigned_less [of x, where ?'a = nat] by simp

lemma hex_digit_cases: "hex_digit n \<in> set ''0123456789abcdef''"
  unfolding hex_digit_def by (rule nth_mem) simp

lemma set_hex_text: "set (hex_text bs) \<subseteq> set ''0123456789abcdef''"
  by (induction bs) (use hex_digit_cases in auto)

lemma hex_value_digit: "hex_value (hex_digit n) = Some (n mod 16)"
proof -
  have "n mod 16 < 16" by simp
  then have "n mod 16 \<in> set [0..<16]" by simp
  moreover have "\<forall>k \<in> set [0..<16]. hex_value (''0123456789abcdef'' ! k) = Some k"
    by code_simp
  ultimately show ?thesis unfolding hex_digit_def by blast
qed

lemma hex_bytes_text: "hex_bytes (hex_text bs) = Some bs"
proof (induction bs)
  case (Cons b bs)
  have "unat b div 16 < 16" using unat_byte_less [of b] by (simp add: div_less_iff_less_mult)
  moreover have "word_of_nat (16 * (unat b div 16) + unat b mod 16) = b"
    by (subst mult_div_mod_eq) simp
  ultimately show ?case using Cons by (simp add: hex_value_digit del: of_nat_add of_nat_mult)
qed simp

lemma hex_text_append: "hex_text (xs @ ys) = hex_text xs @ hex_text ys"
  by (induction xs) auto

lemma length_hex_text: "length (hex_text bs) = 2 * length bs"
  by (induction bs) auto

lemma concat_pairs: "even (length bs) \<Longrightarrow> concat (map hex_text (pairs_of bs)) = hex_text bs"
  by (induction bs rule: pairs_of.induct) auto

lemma length_pairs: "length (pairs_of bs) = length bs div 2"
  by (induction bs rule: pairs_of.induct) auto

lemma pairs_length: "p \<in> set (pairs_of bs) \<Longrightarrow> length p = 2"
  by (induction bs rule: pairs_of.induct) auto

lemma hex_bytes_length: "hex_bytes s = Some b \<Longrightarrow> 2 * length b = length s"
  by (induction s arbitrary: b rule: hex_bytes.induct) (auto simp: bind_eq_Some_conv)

lemma concat_length4: "list_all (\<lambda>f. length f = 4) fs \<Longrightarrow> length (concat fs) = 4 * length fs"
  by (induction fs) auto

lemma sample_pton4_ntop4: "length b = 4 \<Longrightarrow> sample_pton4 (sample_ntop4 b) = Some b"
proof -
  assume "length b = 4"
  then have "split_on CHR ''.'' (sample_ntop4 b) = map (\<lambda>x. to_string (unat x)) b"
    unfolding sample_ntop4_def by (intro split_join) (auto simp: digits_no_sep)
  with \<open>length b = 4\<close> show ?thesis
    by (simp add: sample_pton4_def list_all_iff unat_byte_less comp_def)
qed

lemma pair_text_no_sep: "c \<notin> set ''0123456789abcdef'' \<Longrightarrow> c \<notin> set (hex_text p)"
  using set_hex_text by blast

lemma sample_pton6_ntop6: "length b = 16 \<Longrightarrow> sample_pton6 (sample_ntop6 b) = Some b"
proof -
  assume len: "length b = 16"
  then have "split_on CHR '':'' (sample_ntop6 b) = map hex_text (pairs_of b)"
    unfolding sample_ntop6_def
    by (intro split_join) (auto simp: length_pairs simp flip: length_0_conv intro!: pair_text_no_sep)
  with len show ?thesis
    by (simp add: sample_pton6_def list_all_iff length_pairs pairs_length length_hex_text
        concat_pairs hex_bytes_text)
qed

lemma sample_ntop6_no_dot: "c \<notin> set '':0123456789abcdef'' \<Longrightarrow> c \<notin> set (sample_ntop6 b)"
  using set_join_with [of "CHR '':''" "map hex_text (pairs_of b)"] set_hex_text
  unfolding sample_ntop6_def by fastforce

lemma sample_inet_ok: "inet_ok sample_inet"
proof -
  have "CHR 0x00 \<notin> set (sample_ntop4 b)" for b
    using set_join_with [of "CHR ''.''" "map (\<lambda>x. to_string (unat x)) b"]
    by (auto simp: sample_ntop4_def digits_no_sep)
  moreover have "CHR 0x00 \<notin> set (sample_ntop6 b)" for b by (rule sample_ntop6_no_dot) simp
  moreover have "sample_pton4 (sample_ntop6 b) = None" for b
    using sample_ntop6_no_dot [of "CHR ''.''" b] by (simp add: sample_pton4_def split_on_no_sep)
  moreover have "length b = 4" if "sample_pton4 s = Some b" for s b
    using that by (auto simp: sample_pton4_def Let_def split: if_splits)
  moreover have "length b = 16" if "sample_pton6 s = Some b" for s b
    using that concat_length4 [of "split_on CHR '':'' s"]
    by (auto simp: sample_pton6_def Let_def split: if_splits dest!: hex_bytes_length)
  ultimately show ?thesis
    by (auto simp: inet_ok_def sample_inet_def sample_pton4_ntop4 sample_pton6_ntop6)
qed

end
