(* ===== verification/Candidate.thy ===== *)
theory Candidate
  imports Endian Inet
begin

text \<open>
  The candidates of \<open>src/candidate.hpp\<close>: the enumerations, the candidate record and its address
  helpers (\<open>address_str\<close>, \<open>set_address\<close> of \<open>src/session.cpp\<close>), foundations, priorities, and
  the binary signal (\<open>to_wire\<close>, \<open>from_wire\<close>, \<open>serialize_signal\<close>, \<open>deserialize_signal\<close>).
  An enumeration that is filled by a cast from the wire has a constructor for the values the
  source does not name.
\<close>

section \<open>Enumerations and the candidate record\<close>

datatype CandidateType = Host | Srflx | Relay | Prflx | HostMdns | OtherType byte

datatype AddressFamily = IPv4 | IPv6 | OtherFamily byte

datatype TransportType = Udp | TcpActive | TcpPassive | TcpSimultaneousOpen

definition transport_is_tcp :: "TransportType \<Rightarrow> bool" where
  "transport_is_tcp t \<longleftrightarrow> t = TcpActive \<or> t = TcpPassive \<or> t = TcpSimultaneousOpen"

text \<open>The casts between the enumerations and their underlying octet.\<close>

fun type_code :: "CandidateType \<Rightarrow> byte" where
  "type_code Host = 0"
| "type_code Srflx = 1"
| "type_code Relay = 2"
| "type_code Prflx = 3"
| "type_code HostMdns = 4"
| "type_code (OtherType b) = b"

definition type_of_code :: "byte \<Rightarrow> CandidateType" where
  "type_of_code b = (if b = 0 then Host else if b = 1 then Srflx else if b = 2 then Relay
     else if b = 3 then Prflx else if b = 4 then HostMdns else OtherType b)"

fun family_code :: "AddressFamily \<Rightarrow> byte" where
  "family_code IPv4 = 1"
| "family_code IPv6 = 2"
| "family_code (OtherFamily b) = b"

definition family_of_code :: "byte \<Rightarrow> AddressFamily" where
  "family_of_code b = (if b = 1 then IPv4 else if b = 2 then IPv6 else OtherFamily b)"

fun transport_code :: "TransportType \<Rightarrow> byte" where
  "transport_code Udp = 0"
| "transport_code TcpActive = 1"
| "transport_code TcpPassive = 2"
| "transport_code TcpSimultaneousOpen = 3"

text \<open>The transport cast is applied to a value masked to two bits.\<close>

definition transport_of_code :: "byte \<Rightarrow> TransportType" where
  "transport_of_code b = (if b = 0 then Udp else if b = 1 then TcpActive
     else if b = 2 then TcpPassive else TcpSimultaneousOpen)"

definition kMaxMdnsHostnameLen :: nat where "kMaxMdnsHostnameLen = 64"

record Candidate =
  cand_type :: CandidateType
  cand_family :: AddressFamily
  cand_port :: u16
  cand_priority :: u32
  cand_addr :: bytes
  cand_hostname :: string
  cand_transport :: TransportType
  cand_foundation :: string

text \<open>\<open>Candidate c{}\<close>: all members zero, the address sixteen zero octets.\<close>

definition empty_candidate :: Candidate where
  "empty_candidate = \<lparr>cand_type = Host, cand_family = OtherFamily 0, cand_port = 0,
     cand_priority = 0, cand_addr = replicate 16 0, cand_hostname = [], cand_transport = Udp,
     cand_foundation = []\<rparr>"

definition address_str :: "inet \<Rightarrow> Candidate \<Rightarrow> string" where
  "address_str I c =
     (if cand_type c = HostMdns \<and> cand_hostname c \<noteq> [] then cand_hostname c
      else if cand_family c = IPv4 then inet_ntop4 I (take 4 (cand_addr c))
      else inet_ntop6 I (take 16 (cand_addr c)))"

text \<open>\<open>memcpy(addr.data(), p, n)\<close> overwrites the first \<open>n\<close> octets.\<close>

definition overwrite :: "bytes \<Rightarrow> bytes \<Rightarrow> bytes" where
  "overwrite new old = new @ drop (length new) old"

definition set_address :: "inet \<Rightarrow> string \<Rightarrow> Candidate \<Rightarrow> Candidate" where
  "set_address I addr_str c =
     (case inet_pton4 I (c_str addr_str) of
        Some in4 \<Rightarrow> c\<lparr>cand_family := IPv4, cand_addr := overwrite in4 (cand_addr c)\<rparr>
      | None \<Rightarrow>
         (case inet_pton6 I (c_str addr_str) of
            Some in6 \<Rightarrow> c\<lparr>cand_family := IPv6, cand_addr := overwrite in6 (cand_addr c)\<rparr>
          | None \<Rightarrow> c))"

section \<open>Foundations and priorities\<close>

definition fnv_mix :: "u64 \<Rightarrow> byte \<Rightarrow> u64" where
  "fnv_mix h b = (h XOR ucast b) * 0x100000001b3"

definition foundation_hash :: "CandidateType \<Rightarrow> string \<Rightarrow> string \<Rightarrow> TransportType \<Rightarrow> u64" where
  "foundation_hash ty base_address server_address transport =
     (let h = 0xcbf29ce484222325;
          h = fnv_mix h (type_code ty);
          h = fnv_mix h 0xFF;
          h = foldl fnv_mix h (bytes_of_string base_address);
          h = fnv_mix h 0xFF;
          h = foldl fnv_mix h (bytes_of_string server_address);
          h = fnv_mix h 0xFF
      in fnv_mix h (transport_code transport))"

definition compute_foundation :: "CandidateType \<Rightarrow> string \<Rightarrow> string \<Rightarrow> TransportType \<Rightarrow> string" where
  "compute_foundation ty base_address server_address transport =
     to_string (unat (foundation_hash ty base_address server_address transport))"

fun type_pref :: "CandidateType \<Rightarrow> u32" where
  "type_pref Host = 126"
| "type_pref HostMdns = 126"
| "type_pref Prflx = 110"
| "type_pref Srflx = 100"
| "type_pref Relay = 0"
| "type_pref (OtherType b) = 0"

definition compute_priority :: "CandidateType \<Rightarrow> u16 \<Rightarrow> byte \<Rightarrow> u32" where
  "compute_priority ty local_pref component =
     push_bit 24 (type_pref ty) OR push_bit 8 (ucast local_pref) OR (256 - ucast component)"

definition pair_priority :: "u32 \<Rightarrow> u32 \<Rightarrow> bool \<Rightarrow> u64" where
  "pair_priority controlling_prio controlled_prio is_controlling =
     (let g = (if is_controlling then controlling_prio else controlled_prio);
          d = (if is_controlling then controlled_prio else controlling_prio)
      in push_bit 32 (ucast (min g d)) + 2 * ucast (max g d) + (if g > d then 1 else 0))"

section \<open>The wire form of a candidate\<close>

text \<open>
  \<open>CandidateWire\<close> is a packed struct of 24 octets. The record holds the values of its
  fields; \<open>wire_image\<close> and \<open>wire_load\<close> are the copies to and from the buffer, with the
  port and the priority in network byte order.
\<close>

record CandidateWire =
  wire_type :: byte
  wire_family :: byte
  wire_port :: u16
  wire_priority :: u32
  wire_addr :: bytes

definition wire_image :: "CandidateWire \<Rightarrow> bytes" where
  "wire_image w = [wire_type w, wire_family w] @ write16 (wire_port w) @ write32 (wire_priority w)
     @ wire_addr w"

definition wire_load :: "bytes \<Rightarrow> nat \<Rightarrow> CandidateWire checked" where
  "wire_load p i = do {
     hd2 \<leftarrow> rd p i 2;
     port \<leftarrow> read16 p (i + 2);
     prio \<leftarrow> read32 p (i + 4);
     addr \<leftarrow> rd p (i + 8) 16;
     Some \<lparr>wire_type = hd2 ! 0, wire_family = hd2 ! 1, wire_port = port, wire_priority = prio,
       wire_addr = addr\<rparr>
   }"

definition kCandidateTypeMask :: byte where "kCandidateTypeMask = 0x1F"
definition kTransportShift :: nat where "kTransportShift = 5"
definition kTransportMask :: byte where "kTransportMask = 0x03"

definition to_wire :: "Candidate \<Rightarrow> CandidateWire" where
  "to_wire c =
     (let type_bits = type_code (cand_type c) AND kCandidateTypeMask;
          tx_bits = push_bit kTransportShift (transport_code (cand_transport c) AND kTransportMask)
      in \<lparr>wire_type = type_bits OR tx_bits, wire_family = family_code (cand_family c),
          wire_port = cand_port c, wire_priority = cand_priority c, wire_addr = cand_addr c\<rparr>)"

definition from_wire :: "CandidateWire \<Rightarrow> Candidate" where
  "from_wire w = empty_candidate
     \<lparr>cand_type := type_of_code (wire_type w AND kCandidateTypeMask),
      cand_transport := transport_of_code (drop_bit kTransportShift (wire_type w) AND kTransportMask),
      cand_family := family_of_code (wire_family w),
      cand_port := wire_port w,
      cand_priority := wire_priority w,
      cand_addr := wire_addr w\<rparr>"

section \<open>The signal\<close>

definition ICE_SIGNAL_FLAG_MASK :: u32 where "ICE_SIGNAL_FLAG_MASK = 0xFFFF0000"
definition ICE_SIGNAL_COUNT_MASK :: u32 where "ICE_SIGNAL_COUNT_MASK = 0x0000FFFF"
definition ICE_SIGNAL_FLAG_LITE :: u32 where "ICE_SIGNAL_FLAG_LITE = push_bit 16 1"
definition ICE_SIGNAL_FLAG_SYMMETRIC :: u32 where "ICE_SIGNAL_FLAG_SYMMETRIC = push_bit 17 1"
definition MAX_ICE_CANDIDATES :: u32 where "MAX_ICE_CANDIDATES = 256"

definition ICE_SIGNAL_OFFER :: byte where "ICE_SIGNAL_OFFER = 0"
definition ICE_SIGNAL_ANSWER :: byte where "ICE_SIGNAL_ANSWER = 1"
definition ICE_SIGNAL_OFFER_EOC :: byte where "ICE_SIGNAL_OFFER_EOC = 2"
definition ICE_SIGNAL_ANSWER_EOC :: byte where "ICE_SIGNAL_ANSWER_EOC = 3"

lemmas signal_consts = ICE_SIGNAL_FLAG_MASK_def ICE_SIGNAL_COUNT_MASK_def MAX_ICE_CANDIDATES_def

record IceSignalData =
  sig_ufrag :: bytes
  sig_pwd :: bytes
  sig_candidate_count :: u32

text \<open>A \<open>char\<close> array of \<open>n\<close> octets filled from a C string, zero padded.\<close>

definition char_array :: "nat \<Rightarrow> string \<Rightarrow> bytes" where
  "char_array n s = (let t = bytes_of_string (take n (c_str s)) in t @ replicate (n - length t) 0)"

definition has_mdns_name :: "Candidate \<Rightarrow> bool" where
  "has_mdns_name c \<longleftrightarrow> cand_type c = HostMdns \<and> cand_hostname c \<noteq> []"

definition hostname_entry :: "Candidate \<Rightarrow> bytes" where
  "hostname_entry c =
     (let len = min (length (cand_hostname c)) kMaxMdnsHostnameLen
      in write16 (word_of_nat len) @ take len (bytes_of_string (cand_hostname c)))"

definition serialize_signal :: "string \<Rightarrow> string \<Rightarrow> Candidate list \<Rightarrow> u32 \<Rightarrow> bytes" where
  "serialize_signal ufrag pwd candidates flags =
     (let packed = (flags AND ICE_SIGNAL_FLAG_MASK)
            OR (word_of_nat (length candidates) AND ICE_SIGNAL_COUNT_MASK);
          named = filter has_mdns_name candidates;
          mdns_count = (word_of_nat (length named) :: u32)
      in char_array 8 ufrag @ char_array 32 pwd @ write32 packed
         @ concat (map (\<lambda>c. wire_image (to_wire c)) candidates)
         @ (if mdns_count > 0 then write32 mdns_count @ concat (map hostname_entry named) else []))"

text \<open>The loop that fills the candidate vector, \<open>n\<close> entries from index \<open>i\<close>.\<close>

fun load_candidates :: "bytes \<Rightarrow> nat \<Rightarrow> nat \<Rightarrow> Candidate list checked" where
  "load_candidates data i 0 = Some []"
| "load_candidates data i (Suc n) = do {
     w \<leftarrow> wire_load data (44 + i * 24);
     cs \<leftarrow> load_candidates data (Suc i) n;
     Some (from_wire w # cs)
   }"

text \<open>The walk over the trailer: the candidates with their names, the offset, \<open>hn_index\<close>.\<close>

fun walk_hostnames ::
  "bytes \<Rightarrow> nat \<Rightarrow> nat \<Rightarrow> Candidate list \<Rightarrow> (Candidate list \<times> nat \<times> nat) parsed" where
  "walk_hostnames data off hn_index [] = accept ([], off, hn_index)"
| "walk_hostnames data off hn_index (c # cs) =
     (if cand_type c \<noteq> HostMdns
      then parse_bind (walk_hostnames data off hn_index cs) (\<lambda>(cs', r). accept (c # cs', r))
      else if off + 2 > length data then reject
      else do {
        len \<leftarrow> read16 data off;
        if len = 0 \<or> unat len > kMaxMdnsHostnameLen then reject
        else if off + 2 + unat len > length data then reject
        else do {
          name \<leftarrow> rd data (off + 2) (unat len);
          parse_bind (walk_hostnames data (off + 2 + unat len) (hn_index + 1) cs)
            (\<lambda>(cs', r). accept (c\<lparr>cand_hostname := string_of_bytes name\<rparr> # cs', r))
        }
      })"

definition deserialize_signal :: "bytes \<Rightarrow> (IceSignalData \<times> Candidate list \<times> u32) parsed" where
  "deserialize_signal data =
     (if length data < 44 then reject
      else do {
        ufrag \<leftarrow> rd data 0 8;
        pwd \<leftarrow> rd data 8 32;
        packed \<leftarrow> read32 data 40;
        let flags = packed AND ICE_SIGNAL_FLAG_MASK;
        let count = packed AND ICE_SIGNAL_COUNT_MASK;
        let hdr = \<lparr>sig_ufrag = ufrag, sig_pwd = pwd, sig_candidate_count = count\<rparr>;
        let fixed_size = 44 + unat count * 24;
        if count > MAX_ICE_CANDIDATES then reject
        else if length data < fixed_size then reject
        else do {
          candidates \<leftarrow> load_candidates data 0 (unat count);
          let mdns_candidate_count = length (filter (\<lambda>c. cand_type c = HostMdns) candidates);
          if length data = fixed_size
          then (if mdns_candidate_count = 0 then accept (hdr, candidates, flags) else reject)
          else if mdns_candidate_count = 0 then reject
          else if fixed_size + 4 > length data then reject
          else do {
            trailer_count \<leftarrow> read32 data fixed_size;
            if unat trailer_count \<noteq> mdns_candidate_count then reject
            else parse_bind (walk_hostnames data (fixed_size + 4) 0 candidates)
              (\<lambda>(candidates', off, hn_index).
                 if off \<noteq> length data then reject
                 else if hn_index \<noteq> unat trailer_count then reject
                 else accept (hdr, candidates', flags))
          }
        }
      })"

section \<open>Casts and addresses\<close>

definition named_type :: "CandidateType \<Rightarrow> bool" where
  "named_type t \<longleftrightarrow> (\<forall>b. t \<noteq> OtherType b)"

definition named_family :: "AddressFamily \<Rightarrow> bool" where
  "named_family f \<longleftrightarrow> (\<forall>b. f \<noteq> OtherFamily b)"

lemma type_of_code_code: "named_type t \<Longrightarrow> type_of_code (type_code t) = t"
  by (cases t) (auto simp: named_type_def type_of_code_def)

lemma type_code_of_code: "type_code (type_of_code b) = b"
  by (simp add: type_of_code_def)

lemma family_of_code_code: "named_family f \<Longrightarrow> family_of_code (family_code f) = f"
  by (cases f) (auto simp: named_family_def family_of_code_def)

lemma transport_of_code_code: "transport_of_code (transport_code t) = t"
  by (cases t) (auto simp: transport_of_code_def)

lemma transport_code_inject: "transport_code t = transport_code u \<longleftrightarrow> t = u"
  by (metis transport_of_code_code)

text \<open>The packed type octet: both fields come back from their bits.\<close>

lemma type_octet_fields:
  assumes "named_type t"
  shows "((type_code t AND kCandidateTypeMask)
       OR push_bit kTransportShift (transport_code x AND kTransportMask)) AND kCandidateTypeMask
      = type_code t" (is ?A)
    and "drop_bit kTransportShift ((type_code t AND kCandidateTypeMask)
       OR push_bit kTransportShift (transport_code x AND kTransportMask)) AND kTransportMask
      = transport_code x" (is ?B)
proof -
  have "?A \<and> ?B"
    using assms
    by (cases t; cases x)
       (simp_all add: named_type_def kCandidateTypeMask_def kTransportShift_def kTransportMask_def)
  then show ?A ?B by auto
qed

definition wf_candidate :: "Candidate \<Rightarrow> bool" where
  "wf_candidate c \<longleftrightarrow> named_type (cand_type c) \<and> named_family (cand_family c) \<and>
     length (cand_addr c) = 16"

lemma from_wire_to_wire:
  assumes "wf_candidate c"
  shows "from_wire (to_wire c) = c\<lparr>cand_hostname := [], cand_foundation := []\<rparr>"
  using assms type_octet_fields [of "cand_type c" "cand_transport c"]
  by (simp add: from_wire_def to_wire_def Let_def wf_candidate_def type_of_code_code
      family_of_code_code transport_of_code_code empty_candidate_def)

lemma length_wire_image: "length (wire_addr w) = 16 \<Longrightarrow> length (wire_image w) = 24"
  by (simp add: wire_image_def)

lemma wire_load_None [simp]: "wire_load p i = None \<longleftrightarrow> length p < i + 24"
  by (auto simp: wire_load_def Option.bind_eq_None_conv rd_def dest: c16.dec_Some_bound c32.dec_Some_bound)

lemma safe_wire_load [simp]: "safe (wire_load p i) \<longleftrightarrow> i + 24 \<le> length p"
  by (auto simp: safe_def)

lemma wire_load_image:
  assumes "length (wire_addr w) = 16" "i = length xs"
  shows "wire_load (xs @ wire_image w @ ys) i = Some w"
proof -
  have "read16 ((xs @ [wire_type w, wire_family w]) @ write16 (wire_port w) @
      (write32 (wire_priority w) @ wire_addr w @ ys)) (i + 2) = Some (wire_port w)"
    by (rule c16.dec_at) (simp add: assms)
  moreover have "read32 ((xs @ [wire_type w, wire_family w] @ write16 (wire_port w)) @
      write32 (wire_priority w) @ (wire_addr w @ ys)) (i + 4) = Some (wire_priority w)"
    by (rule c32.dec_at) (simp add: assms)
  moreover have "rd ((xs @ [wire_type w, wire_family w] @ write16 (wire_port w) @
      write32 (wire_priority w)) @ wire_addr w @ ys) (i + 8) 16 = Some (wire_addr w)"
    by (rule rd_append_mid) (simp_all add: assms)
  moreover have "rd (xs @ [wire_type w, wire_family w] @ (write16 (wire_port w) @
      write32 (wire_priority w) @ wire_addr w @ ys)) i 2 = Some [wire_type w, wire_family w]"
    by (rule rd_append_mid) (simp_all add: assms)
  ultimately show ?thesis by (simp add: wire_load_def wire_image_def)
qed

text \<open>\<open>set_address\<close> and \<open>address_str\<close>, for candidates that are not hidden behind a name.\<close>

lemma length_overwrite: "length new \<le> length old \<Longrightarrow> length (overwrite new old) = length old"
  by (simp add: overwrite_def)

lemma set_address_wf:
  "inet_ok I \<Longrightarrow> length (cand_addr c) = 16 \<Longrightarrow> length (cand_addr (set_address I s c)) = 16"
  using inet_okD(1,2) [of I "c_str s"]
  by (auto simp: set_address_def length_overwrite split: option.splits)

lemma set_address_printed4:
  assumes "inet_ok I" "length b = 4" "length (cand_addr c) = 16" "cand_type c \<noteq> HostMdns"
  shows "address_str I (set_address I (inet_ntop4 I b) c) = inet_ntop4 I b"
  using assms by (simp add: set_address_def inet_okD address_str_def overwrite_def)

lemma set_address_printed6:
  assumes "inet_ok I" "length b = 16" "length (cand_addr c) = 16" "cand_type c \<noteq> HostMdns"
  shows "address_str I (set_address I (inet_ntop6 I b) c) = inet_ntop6 I b"
  using assms by (simp add: set_address_def inet_okD address_str_def overwrite_def)

section \<open>Signal lemmas\<close>

lemma load_candidates_in_bounds:
  "44 + (i + n) * 24 \<le> length data \<Longrightarrow> \<exists>cs. load_candidates data i n = Some cs \<and> length cs = n"
proof (induction n arbitrary: i)
  case 0
  then show ?case by simp
next
  case (Suc n)
  have "44 + (Suc i + n) * 24 \<le> length data" using Suc.prems by simp
  then obtain cs where cs: "load_candidates data (Suc i) n = Some cs" "length cs = n"
    using Suc.IH by blast
  have "safe (wire_load data (44 + i * 24))" using Suc.prems by simp
  then show ?case using cs by (auto simp: safe_ex)
qed

lemma walk_hostnames_safe: "safe (walk_hostnames data off k cs)"
  by (induction data off k cs rule: walk_hostnames.induct)
     auto

lemma deserialize_signal_safe: "safe (deserialize_signal data)"
proof -
  have loads: "safe (load_candidates data 0 n)" if "44 + n * 24 \<le> length data" for n
    using load_candidates_in_bounds [of 0 n data] that by (auto simp: safe_ex)
  show ?thesis
    by (auto simp: deserialize_signal_def Let_def intro!: loads walk_hostnames_safe)
qed

text \<open>What of a candidate the signal carries: the name of a HostMdns candidate, no foundation.\<close>

definition wire_view :: "Candidate \<Rightarrow> Candidate" where
  "wire_view c = c\<lparr>cand_hostname := (if cand_type c = HostMdns then cand_hostname c else []),
     cand_foundation := []\<rparr>"

definition wire_strip :: "Candidate \<Rightarrow> Candidate" where
  "wire_strip c = c\<lparr>cand_hostname := [], cand_foundation := []\<rparr>"

lemma wire_strip_type [simp]: "cand_type (wire_strip c) = cand_type c" "cand_type (wire_view c) = cand_type c"
  by (simp_all add: wire_strip_def wire_view_def)

lemma wire_strip_view:
  "cand_type c \<noteq> HostMdns \<Longrightarrow> wire_strip c = wire_view c"
  "cand_type c = HostMdns \<Longrightarrow> (wire_strip c)\<lparr>cand_hostname := cand_hostname c\<rparr> = wire_view c"
  by (simp_all add: wire_strip_def wire_view_def)

definition signal_candidate :: "Candidate \<Rightarrow> bool" where
  "signal_candidate c \<longleftrightarrow> wf_candidate c \<and>
     (cand_type c = HostMdns \<longrightarrow> cand_hostname c \<noteq> [] \<and> length (cand_hostname c) \<le> kMaxMdnsHostnameLen)"

lemma load_candidates_images:
  assumes "\<forall>c \<in> set cs. wf_candidate c" "length pre = 44 + i * 24"
  shows "load_candidates (pre @ concat (map (\<lambda>c. wire_image (to_wire c)) cs) @ rest) i (length cs)
    = Some (map wire_strip cs)"
  using assms
proof (induction cs arbitrary: pre i)
  case Nil
  then show ?case by simp
next
  case (Cons c cs)
  let ?img = "wire_image (to_wire c)"
  let ?tail = "concat (map (\<lambda>c. wire_image (to_wire c)) cs) @ rest"
  have addr: "length (wire_addr (to_wire c)) = 16"
    using Cons.prems(1) by (simp add: to_wire_def wf_candidate_def Let_def)
  have "wire_load (pre @ ?img @ ?tail) (44 + i * 24) = Some (to_wire c)"
    by (rule wire_load_image [OF addr]) (simp add: Cons.prems(2))
  moreover have "load_candidates ((pre @ ?img) @ ?tail) (Suc i) (length cs) = Some (map wire_strip cs)"
    using Cons.prems by (intro Cons.IH) (auto simp: length_wire_image [OF addr])
  ultimately show ?case
    using Cons.prems(1) by (simp add: from_wire_to_wire wire_strip_def)
qed

lemma hostname_entry_eq:
  "length (cand_hostname c) \<le> kMaxMdnsHostnameLen \<Longrightarrow>
   hostname_entry c = write16 (word_of_nat (length (cand_hostname c))) @ bytes_of_string (cand_hostname c)"
  by (simp add: hostname_entry_def Let_def min_def)

lemma walk_hostnames_entries:
  assumes "\<forall>c \<in> set cs. signal_candidate c" "off = length pre"
  shows "walk_hostnames (pre @ concat (map hostname_entry (filter has_mdns_name cs)) @ rest) off k
      (map wire_strip cs) =
    accept (map wire_view cs,
      off + length (concat (map hostname_entry (filter has_mdns_name cs))),
      k + length (filter has_mdns_name cs))"
  using assms
proof (induction cs arbitrary: pre off k)
  case Nil
  then show ?case by simp
next
  case (Cons c cs)
  let ?names = "concat (map hostname_entry (filter has_mdns_name cs))"
  show ?case
  proof (cases "cand_type c = HostMdns")
    case False
    then have "\<not> has_mdns_name c" by (simp add: has_mdns_name_def)
    then show ?thesis
      using Cons.IH [of off pre k] Cons.prems False by (simp add: wire_strip_view)
  next
    case True
    let ?h = "cand_hostname c"
    have h: "?h \<noteq> []" "length ?h \<le> 64"
      using Cons.prems(1) True by (auto simp: signal_candidate_def kMaxMdnsHostnameLen_def)
    then have entry: "hostname_entry c = write16 (word_of_nat (length ?h)) @ bytes_of_string ?h"
      by (simp add: hostname_entry_eq kMaxMdnsHostnameLen_def)
    have mdns: "has_mdns_name c" using True h by (simp add: has_mdns_name_def)
    have len: "unat (word_of_nat (length ?h) :: u16) = length ?h"
      using h by (simp add: unat_of_nat)
    then have nz: "(word_of_nat (length ?h) :: u16) \<noteq> 0" using h by (metis length_0_conv unat_0)
    let ?data = "pre @ hostname_entry c @ ?names @ rest"
    have "read16 ?data off = Some (word_of_nat (length ?h))"
      using Cons.prems(2) by (simp add: entry codec_simps)
    moreover have "rd ?data (off + 2) (length ?h) = Some (bytes_of_string ?h)"
      using Cons.prems(2) by (simp add: entry rd_def)
    moreover have "walk_hostnames ((pre @ hostname_entry c) @ ?names @ rest) (off + 2 + length ?h)
        (k + 1) (map wire_strip cs) = accept (map wire_view cs,
          off + 2 + length ?h + length ?names, k + 1 + length (filter has_mdns_name cs))"
      using Cons.prems by (intro Cons.IH) (auto simp: entry)
    ultimately show ?thesis
      using True h nz Cons.prems(2)
      by (simp add: mdns len entry kMaxMdnsHostnameLen_def wire_strip_view)
  qed
qed

lemma masked_fields:
  fixes x :: "'a::len word"
  assumes "F AND C = 0" and "x AND C = x"
  shows "((f AND F) OR x) AND C = x" and "((f AND F) OR x) AND F = f AND F"
proof -
  have "\<not> (bit F i \<and> bit C i)" for i
    using arg_cong [OF assms(1), of "\<lambda>w. bit w i"] by (simp add: bit_and_iff)
  moreover have "bit x i \<Longrightarrow> bit C i" for i
    using arg_cong [OF assms(2), of "\<lambda>w. bit w i"] by (auto simp: bit_and_iff)
  ultimately show "((f AND F) OR x) AND C = x" "((f AND F) OR x) AND F = f AND F"
    by (intro bit_word_eqI; simp add: bit_and_iff bit_or_iff; blast)+
qed

lemma packed_fields:
  assumes "n \<le> 256"
  shows "((flags AND ICE_SIGNAL_FLAG_MASK) OR (word_of_nat n AND ICE_SIGNAL_COUNT_MASK))
      AND ICE_SIGNAL_COUNT_MASK = word_of_nat n" (is ?A)
    and "((flags AND ICE_SIGNAL_FLAG_MASK) OR (word_of_nat n AND ICE_SIGNAL_COUNT_MASK))
      AND ICE_SIGNAL_FLAG_MASK = flags AND ICE_SIGNAL_FLAG_MASK" (is ?B)
    and "unat (word_of_nat n :: u32) = n" (is ?C)
proof -
  show ?C using assms by (simp add: unat_of_nat)
  have "word_of_nat n AND ICE_SIGNAL_COUNT_MASK = take_bit 16 (word_of_nat n)"
    by (simp add: signal_consts take_bit_eq_mask mask_eq_exp_minus_1)
  also have "\<dots> = word_of_nat n"
    using assms
    by (simp add: word_eq_iff_unsigned [where ?'a = nat] unsigned_take_bit_eq unat_of_nat
        take_bit_nat_eq_self_iff)
  finally have n: "word_of_nat n AND ICE_SIGNAL_COUNT_MASK = (word_of_nat n :: u32)" .
  have "ICE_SIGNAL_FLAG_MASK AND ICE_SIGNAL_COUNT_MASK = 0" by (simp add: signal_consts)
  from masked_fields [OF this n] show ?A ?B by (simp_all add: n)
qed

lemma length_char_array [simp]: "length (char_array n s) = n"
  by (simp add: char_array_def Let_def)

lemma length_images:
  "\<forall>c \<in> set cs. wf_candidate c \<Longrightarrow>
   length (concat (map (\<lambda>c. wire_image (to_wire c)) cs)) = length cs * 24"
  by (induction cs) (auto simp: length_wire_image to_wire_def Let_def wf_candidate_def)

lemma named_filter:
  "\<forall>c \<in> set cs. signal_candidate c \<Longrightarrow>
   filter (\<lambda>c. cand_type c = HostMdns) cs = filter has_mdns_name cs"
  by (rule filter_cong) (auto simp: signal_candidate_def has_mdns_name_def)

lemma deserialize_fields:
  assumes "length ufrag = 8" "length pwd = 32"
  shows "rd (ufrag @ pwd @ write32 packed @ rest) 0 8 = Some ufrag"
    and "rd (ufrag @ pwd @ write32 packed @ rest) 8 32 = Some pwd"
    and "read32 (ufrag @ pwd @ write32 packed @ rest) 40 = Some packed"
proof -
  show "rd (ufrag @ pwd @ write32 packed @ rest) 0 8 = Some ufrag"
    "rd (ufrag @ pwd @ write32 packed @ rest) 8 32 = Some pwd"
    using assms by (simp_all add: rd_def)
  have "read32 ((ufrag @ pwd) @ write32 packed @ rest) 40 = Some packed"
    by (rule c32.dec_at) (simp add: assms)
  then show "read32 (ufrag @ pwd @ write32 packed @ rest) 40 = Some packed" by simp
qed

lemma deserialize_serialize:
  assumes cs: "\<forall>c \<in> set cs. signal_candidate c" and n: "length cs \<le> 256"
  shows "deserialize_signal (serialize_signal ufrag pwd cs flags) =
    accept (\<lparr>sig_ufrag = char_array 8 ufrag, sig_pwd = char_array 32 pwd,
        sig_candidate_count = word_of_nat (length cs)\<rparr>,
      map wire_view cs, flags AND ICE_SIGNAL_FLAG_MASK)"
proof -
  have wf: "\<forall>c \<in> set cs. wf_candidate c" using cs by (auto simp: signal_candidate_def)
  let ?packed = "(flags AND ICE_SIGNAL_FLAG_MASK) OR (word_of_nat (length cs) AND ICE_SIGNAL_COUNT_MASK)"
  let ?imgs = "concat (map (\<lambda>c. wire_image (to_wire c)) cs)"
  let ?named = "filter has_mdns_name cs"
  let ?trailer = "if ?named = [] then []
    else write32 (word_of_nat (length ?named)) @ concat (map hostname_entry ?named)"
  let ?pre = "char_array 8 ufrag @ char_array 32 pwd @ write32 ?packed"
  let ?data = "?pre @ ?imgs @ ?trailer"
  have named_le: "length ?named \<le> 256" using n by (meson le_trans length_filter_le)
  then have count: "unat (word_of_nat (length ?named) :: u32) = length ?named"
    by (simp add: unat_of_nat)
  then have "(word_of_nat (length ?named) :: u32) > 0 \<longleftrightarrow> ?named \<noteq> []"
    unfolding word_less_nat_alt by simp
  then have data: "serialize_signal ufrag pwd cs flags = ?data"
    by (simp add: serialize_signal_def Let_def)
  have load: "load_candidates ?data 0 (length cs) = Some (map wire_strip cs)"
    using load_candidates_images [OF wf, of ?pre 0 ?trailer] by simp
  have mdns: "filter (\<lambda>c. cand_type c = HostMdns) (map wire_strip cs) = map wire_strip ?named"
    using named_filter [OF cs] by (simp add: filter_map comp_def)
  have len: "length ?data = 44 + length cs * 24 + length ?trailer"
    using length_images [OF wf] by simp
  have trailer: "?named \<noteq> [] \<Longrightarrow> read32 ?data (44 + length cs * 24) = Some (word_of_nat (length ?named))"
    using c32.dec_at [of _ "?pre @ ?imgs"] length_images [OF wf] by simp
  have walk: "?named \<noteq> [] \<Longrightarrow> walk_hostnames ?data (44 + length cs * 24 + 4) 0 (map wire_strip cs) =
      accept (map wire_view cs, 44 + length cs * 24 + 4 + length (concat (map hostname_entry ?named)),
        length ?named)"
    using walk_hostnames_entries [OF cs, of _ "?pre @ ?imgs @ write32 (word_of_nat (length ?named))" "[]"]
      length_images [OF wf] by simp
  note fields = deserialize_fields [of "char_array 8 ufrag" "char_array 32 pwd" ?packed "?imgs @ ?trailer"]
  have strip: "?named = [] \<Longrightarrow> map wire_strip cs = map wire_view cs"
    using named_filter [OF cs] by (auto simp: filter_empty_conv wire_strip_view)
  have max: "\<not> MAX_ICE_CANDIDATES < word_of_nat (length cs)"
    using packed_fields(3) [OF n] n by (simp add: signal_consts word_less_nat_alt)
  note facts = fields load mdns len packed_fields(1,2) [OF n, of flags] packed_fields(3) [OF n] max
  show ?thesis
  proof (cases "?named = []")
    case True
    then show ?thesis
      unfolding data deserialize_signal_def using facts strip by (simp add: Let_def)
  next
    case False
    then show ?thesis
      unfolding data deserialize_signal_def using facts trailer walk count by (simp add: Let_def)
  qed
qed

text \<open>What an accepted signal looks like.\<close>

definition name_bytes :: "Candidate list \<Rightarrow> nat" where
  "name_bytes cs = (\<Sum>c\<leftarrow>cs. if cand_type c = HostMdns then 2 + length (cand_hostname c) else 0)"

definition received_candidate :: "Candidate \<Rightarrow> bool" where
  "received_candidate c \<longleftrightarrow> length (cand_addr c) = 16 \<and>
     (if cand_type c = HostMdns
      then cand_hostname c \<noteq> [] \<and> length (cand_hostname c) \<le> kMaxMdnsHostnameLen
      else cand_hostname c = [])"

lemma walk_hostnames_accept:
  assumes "walk_hostnames data off k cs = accept (cs', off', k')"
    and "\<forall>c \<in> set cs. length (cand_addr c) = 16 \<and> cand_hostname c = []"
  shows "length cs' = length cs \<and> (\<forall>c \<in> set cs'. received_candidate c) \<and>
    map cand_type cs' = map cand_type cs \<and> off' = off + name_bytes cs'"
  using assms
proof (induction data off k cs arbitrary: cs' off' k' rule: walk_hostnames.induct)
  case (1 data off k)
  then show ?case by (simp add: name_bytes_def)
next
  case (2 data off k c cs)
  show ?case
  proof (cases "cand_type c = HostMdns")
    case False
    then obtain ds where "walk_hostnames data off k cs = accept (ds, off', k')" "cs' = c # ds"
      using "2.prems"(1) by (auto simp: parse_bind_accept)
    then show ?thesis
      using "2.IH"(1) [of ds off' k'] "2.prems"(2) False
      by (auto simp: received_candidate_def name_bytes_def)
  next
    case True
    then have fit: "\<not> off + 2 > length data" using "2.prems"(1) by (auto split: if_splits)
    then obtain len name ds where r: "read16 data off = Some len" "len \<noteq> 0"
        "unat len \<le> kMaxMdnsHostnameLen" "\<not> off + 2 + unat len > length data"
        "rd data (off + 2) (unat len) = Some name"
        "walk_hostnames data (off + 2 + unat len) (k + 1) cs = accept (ds, off', k')"
        "cs' = c\<lparr>cand_hostname := string_of_bytes name\<rparr> # ds"
      using "2.prems"(1) True
      by (auto simp: bind_eq_Some_conv parse_bind_accept not_less split: if_splits)
    then have "length name = unat len" by (auto dest: rd_Some_length)
    moreover have "unat len \<noteq> 0" using r(2) by (simp add: unat_eq_zero)
    ultimately show ?thesis
      using "2.IH"(2) [of len name ds off' k'] "2.prems"(2) True fit r
      by (auto simp: received_candidate_def name_bytes_def)
  qed
qed

lemma load_candidates_shape:
  "load_candidates data i n = Some cs \<Longrightarrow>
   length cs = n \<and> (\<forall>c \<in> set cs. length (cand_addr c) = 16 \<and> cand_hostname c = [])"
proof (induction n arbitrary: i cs)
  case (Suc n)
  then show ?case
    by (fastforce simp: bind_eq_Some_conv wire_load_def from_wire_def empty_candidate_def
        dest: rd_Some_length)
qed simp

lemma deserialize_accept:
  assumes "deserialize_signal data = accept (hdr, cs, flags)"
  shows "length cs = unat (sig_candidate_count hdr) \<and> length cs \<le> 256 \<and>
    (\<forall>c \<in> set cs. received_candidate c) \<and>
    length data = 44 + 24 * length cs + (if \<exists>c \<in> set cs. cand_type c = HostMdns then 4 else 0)
      + name_bytes cs"
proof -
  obtain packed cs0 where load: "load_candidates data 0 (unat (packed AND ICE_SIGNAL_COUNT_MASK)) = Some cs0"
    and count: "sig_candidate_count hdr = packed AND ICE_SIGNAL_COUNT_MASK"
      "packed AND ICE_SIGNAL_COUNT_MASK \<le> MAX_ICE_CANDIDATES"
    and cases: "(\<forall>c \<in> set cs0. cand_type c \<noteq> HostMdns) \<and> cs = cs0 \<and>
          length data = 44 + unat (packed AND ICE_SIGNAL_COUNT_MASK) * 24 \<or>
        (\<exists>c \<in> set cs0. cand_type c = HostMdns) \<and>
          (\<exists>k. walk_hostnames data (44 + unat (packed AND ICE_SIGNAL_COUNT_MASK) * 24 + 4) 0 cs0 =
             accept (cs, length data, k))"
    using assms
    by (auto simp: deserialize_signal_def Let_def bind_eq_Some_conv parse_bind_accept not_less
        filter_empty_conv split: if_splits) blast+
  have n: "unat (packed AND ICE_SIGNAL_COUNT_MASK) \<le> 256"
    using count(2) by (simp add: word_le_nat_alt signal_consts)
  note shape = load_candidates_shape [OF load]
  from cases show ?thesis
  proof
    assume "(\<forall>c \<in> set cs0. cand_type c \<noteq> HostMdns) \<and> cs = cs0 \<and>
      length data = 44 + unat (packed AND ICE_SIGNAL_COUNT_MASK) * 24"
    moreover from this have "name_bytes cs0 = 0" by (auto simp: name_bytes_def sum_list_eq_0_iff)
    ultimately show ?thesis
      using shape n count by (auto simp: received_candidate_def)
  next
    assume *: "(\<exists>c \<in> set cs0. cand_type c = HostMdns) \<and>
      (\<exists>k. walk_hostnames data (44 + unat (packed AND ICE_SIGNAL_COUNT_MASK) * 24 + 4) 0 cs0 =
         accept (cs, length data, k))"
    then have w: "length cs = length cs0 \<and> (\<forall>c \<in> set cs. received_candidate c) \<and>
        map cand_type cs = map cand_type cs0 \<and>
        length data = 44 + unat (packed AND ICE_SIGNAL_COUNT_MASK) * 24 + 4 + name_bytes cs"
      using walk_hostnames_accept shape by blast
    then have "cand_type ` set cs = cand_type ` set cs0" by (metis image_set)
    with * have "\<exists>c \<in> set cs. cand_type c = HostMdns" by (metis image_iff)
    with w shape n count show ?thesis by simp
  qed
qed

section \<open>Priorities\<close>

lemma type_pref_bound: "unat (type_pref ty) \<le> 126"
  by (cases ty) auto

lemma unat_component: "unat (256 - ucast component :: u32) = 256 - unat component" for component :: byte
proof -
  have "unat component < 256" by (rule unat_byte_less)
  then have "(ucast component :: u32) \<le> 256"
    by (simp add: word_le_nat_alt unsigned_ucast_eq take_bit_nat_eq_self)
  then have "unat (256 - ucast component :: u32) = 256 - unat (ucast component :: u32)"
    by (simp add: unat_sub)
  then show ?thesis
    using \<open>unat component < 256\<close> by (simp add: unsigned_ucast_eq take_bit_nat_eq_self)
qed

lemma unat_u16_less: "unat (x :: u16) < 65536"
  using unsigned_less [of x, where ?'a = nat] by simp

lemma compute_priority_nat:
  assumes "component \<noteq> 0"
  shows "unat (compute_priority ty local_pref component) =
    2 ^ 24 * unat (type_pref ty) + 2 ^ 8 * unat local_pref + (256 - unat component)"
proof -
  have c: "256 - unat component < 2 ^ 8" using assms by (simp add: unat_gt_0)
  have t: "unat (type_pref ty) \<le> 126" by (rule type_pref_bound)
  have l: "unat local_pref < 2 ^ 16" using unat_u16_less [of local_pref] by simp
  have low: "push_bit 8 (unat local_pref) OR (256 - unat component) =
      unat local_pref * 2 ^ 8 + (256 - unat component)"
    by (rule push_bit_or_nat [OF c])
  have bound: "unat local_pref * 2 ^ 8 + (256 - unat component) < 2 ^ 24"
    using l c by simp
  have "unat (compute_priority ty local_pref component) =
      push_bit 24 (unat (type_pref ty)) OR (push_bit 8 (unat local_pref) OR (256 - unat component))"
    using t l
    by (simp add: compute_priority_def unsigned_or_eq unsigned_push_bit_eq unsigned_ucast_eq
        unat_component take_bit_nat_eq_self push_bit_nat_def or.assoc)
  then show ?thesis
    unfolding low using push_bit_or_nat [OF bound, of "unat (type_pref ty)"] by simp
qed

lemma pair_priority_nat:
  assumes "unat g < 2 ^ 31" "unat d < 2 ^ 31"
  shows "unat (pair_priority g d True) =
    2 ^ 32 * min (unat g) (unat d) + 2 * max (unat g) (unat d) + (if unat g > unat d then 1 else 0)"
    (is "_ = ?N")
proof -
  have mm: "unat (min g d) = min (unat g) (unat d)" "unat (max g d) = max (unat g) (unat d)"
    by (auto simp: min_def max_def word_le_nat_alt)
  have "pair_priority g d True = word_of_nat ?N"
    by (simp add: pair_priority_def push_bit_eq_mult word_less_nat_alt flip: mm)
  moreover have "?N < 2 ^ 64"
  proof -
    have "min (unat g) (unat d) \<le> 2 ^ 31 - 1" "max (unat g) (unat d) \<le> 2 ^ 31 - 1"
      using assms by auto
    then show ?thesis by simp
  qed
  ultimately show ?thesis by (simp only: unat_of_nat) simp
qed

lemma pair_priority_sym: "pair_priority a b False = pair_priority b a True"
  by (simp add: pair_priority_def)

lemma compute_priority_bound:
  assumes "component \<noteq> 0"
  shows "unat (compute_priority ty local_pref component) < 2 ^ 31"
  using compute_priority_nat [OF assms, of ty local_pref] type_pref_bound [of ty]
    unat_u16_less [of local_pref] by simp

section \<open>Foundations\<close>

text \<open>The FNV prime is odd, hence invertible modulo \<open>2^64\<close>.\<close>

lemma fnv_prime_inverse: "(0x100000001b3 :: u64) * 0xce965057aff6957b = 1"
  by simp

lemma fnv_mix_inject_hash: "fnv_mix h b = fnv_mix h' b \<longleftrightarrow> h = h'"
proof
  assume "fnv_mix h b = fnv_mix h' b"
  then have "(h XOR ucast b) * (0x100000001b3 * 0xce965057aff6957b) =
      (h' XOR ucast b) * (0x100000001b3 * 0xce965057aff6957b)"
    unfolding fnv_mix_def by (simp only: mult.assoc [symmetric])
  then have "h XOR ucast b = h' XOR ucast b" unfolding fnv_prime_inverse by simp
  then have "(h XOR ucast b) XOR ucast b = (h' XOR ucast b) XOR ucast b" by simp
  then show "h = h'" by (simp add: xor.assoc)
qed simp

lemma fnv_mix_inject_byte: "fnv_mix h b = fnv_mix h b' \<longleftrightarrow> b = b'"
proof
  assume "fnv_mix h b = fnv_mix h b'"
  then have "(h XOR ucast b) * (0x100000001b3 * 0xce965057aff6957b) =
      (h XOR ucast b') * (0x100000001b3 * 0xce965057aff6957b)"
    unfolding fnv_mix_def by (simp only: mult.assoc [symmetric])
  then have "h XOR ucast b = h XOR ucast b'" unfolding fnv_prime_inverse by simp
  then have "h XOR (h XOR ucast b) = h XOR (h XOR ucast b')" by simp
  then have "(ucast b :: u64) = ucast b'" by (simp add: xor.assoc [symmetric])
  then have "unat (ucast b :: u64) = unat (ucast b' :: u64)" by simp
  then show "b = b'"
    using unat_byte_less [of b] unat_byte_less [of b']
    by (simp add: unsigned_ucast_eq take_bit_nat_eq_self unsigned_word_eqI)
qed simp

lemma fnv_fold_inject: "foldl fnv_mix h bs = foldl fnv_mix h' bs \<longleftrightarrow> h = h'"
  by (induction bs arbitrary: h h') (auto simp: fnv_mix_inject_hash)

lemma fnv_fold_one_byte:
  "foldl fnv_mix h (xs @ [b] @ ys) = foldl fnv_mix h (xs @ [b'] @ ys) \<longleftrightarrow> b = b'"
  by (simp add: fnv_fold_inject fnv_mix_inject_byte)

lemma compute_foundation_hash:
  "compute_foundation t b s x = compute_foundation t' b' s' x' \<longleftrightarrow>
   foundation_hash t b s x = foundation_hash t' b' s' x'"
  by (auto simp: compute_foundation_def dest: to_string_inject intro: unsigned_word_eqI)

lemmas foundation_simps = compute_foundation_hash foundation_hash_def Let_def
  fnv_mix_inject_hash fnv_mix_inject_byte fnv_fold_inject

section \<open>Properties\<close>

text \<open>C2: Signal round trip: for at most 256 well-formed candidates, each HostMdns candidate with a name
  of 1 to 64 characters, the receiver of \<open>serialize_signal\<close> accepts and obtains the sender's
  (padded) credentials, the candidates in order with their names and without the local
  foundation, and the flag bits.\<close>

theorem signal_roundtrip:
  assumes "\<forall>c \<in> set cs. signal_candidate c" and "length cs \<le> 256"
  shows "deserialize_signal (serialize_signal ufrag pwd cs flags) =
    accept (\<lparr>sig_ufrag = char_array 8 ufrag, sig_pwd = char_array 32 pwd,
        sig_candidate_count = word_of_nat (length cs)\<rparr>,
      map wire_view cs, flags AND ICE_SIGNAL_FLAG_MASK)"
  using assms by (rule deserialize_serialize)

theorem signal_roundtrip_witness:
  "deserialize_signal (serialize_signal ''abcdefgh'' ''pw''
      [empty_candidate\<lparr>cand_type := HostMdns, cand_family := IPv4, cand_hostname := ''x.local''\<rparr>,
       empty_candidate\<lparr>cand_type := Srflx, cand_family := IPv6, cand_port := 9\<rparr>] 0x20000) =
    accept (\<lparr>sig_ufrag = char_array 8 ''abcdefgh'', sig_pwd = char_array 32 ''pw'',
        sig_candidate_count = 2\<rparr>,
      [empty_candidate\<lparr>cand_type := HostMdns, cand_family := IPv4, cand_hostname := ''x.local''\<rparr>,
       empty_candidate\<lparr>cand_type := Srflx, cand_family := IPv6, cand_port := 9\<rparr>], 0x20000)"
  using signal_roundtrip [of
      "[empty_candidate\<lparr>cand_type := HostMdns, cand_family := IPv4, cand_hostname := ''x.local''\<rparr>,
       empty_candidate\<lparr>cand_type := Srflx, cand_family := IPv6, cand_port := 9\<rparr>]"
      "''abcdefgh''" "''pw''" "0x20000"]
  by (simp add: signal_candidate_def wf_candidate_def named_type_def named_family_def
      empty_candidate_def kMaxMdnsHostnameLen_def wire_view_def ICE_SIGNAL_FLAG_MASK_def)

text \<open>C17: \<open>deserialize_signal\<close> is memory safe on every input, and what it accepts is well formed: at
  most 256 candidates, as many as the header announces, every address 16 octets, every HostMdns
  candidate with a name of 1 to 64 octets and no other candidate with a name, and the length of
  the signal is exactly the one these parts need (no trailing garbage).\<close>

theorem deserialize_signal_sound:
  "\<exists>r. deserialize_signal data = Some r \<and>
    (\<forall>hdr cs flags. r = Some (hdr, cs, flags) \<longrightarrow>
       length cs = unat (sig_candidate_count hdr) \<and> length cs \<le> 256 \<and>
       (\<forall>c \<in> set cs. received_candidate c) \<and>
       length data = 44 + 24 * length cs + (if \<exists>c \<in> set cs. cand_type c = HostMdns then 4 else 0)
         + name_bytes cs)"
proof -
  obtain r where r: "deserialize_signal data = Some r"
    using deserialize_signal_safe [of data] by (auto simp: safe_ex)
  show ?thesis
    by (rule exI [of _ r], rule conjI [OF r], intro allI impI, rule deserialize_accept) (simp add: r)
qed

theorem deserialize_signal_sound_witness:
  "\<exists>r. deserialize_signal (replicate 40 0 @ [0, 0, 0, 0]) = Some r"
  using deserialize_signal_sound [of "replicate 40 0 @ [0, 0, 0, 0]"] by blast

text \<open>Candidate priorities: for a component id of at least 1, \<open>compute_priority\<close> is the sum
  \<open>2^24 * type preference + 2^8 * local preference + (256 - component)\<close> without overlap of the fields,
  stays below \<open>2^31\<close>, and a candidate of a preferred type outranks every candidate of a less
  preferred type, whatever the local preferences and components.\<close>

theorem priority_order:
  assumes "component \<noteq> 0" "component' \<noteq> 0"
  shows "unat (compute_priority ty local_pref component) =
      2 ^ 24 * unat (type_pref ty) + 2 ^ 8 * unat local_pref + (256 - unat component) \<and>
    unat (compute_priority ty local_pref component) < 2 ^ 31 \<and>
    (type_pref ty' < type_pref ty \<longrightarrow>
      compute_priority ty' local_pref' component' < compute_priority ty local_pref component)"
proof -
  have "compute_priority ty' local_pref' component' < compute_priority ty local_pref component"
    if "type_pref ty' < type_pref ty"
  proof -
    have "unat (type_pref ty') + 1 \<le> unat (type_pref ty)"
      using that by (simp add: word_less_nat_alt)
    then have "2 ^ 24 * unat (type_pref ty') + 2 ^ 24 \<le> 2 ^ 24 * unat (type_pref ty)" by simp
    moreover have "2 ^ 8 * unat local_pref' + (256 - unat component') < 2 ^ 24"
    proof -
      have "unat component' > 0" using assms(2) by (simp add: unat_gt_0)
      then show ?thesis using unat_u16_less [of local_pref'] by simp
    qed
    ultimately show ?thesis
      unfolding word_less_nat_alt compute_priority_nat [OF assms(1)] compute_priority_nat [OF assms(2)]
      by linarith
  qed
  then show ?thesis
    using compute_priority_nat [OF assms(1)] compute_priority_bound [OF assms(1)] by simp
qed

theorem priority_order_witness:
  "compute_priority Srflx 65535 1 < compute_priority Host 0 1 \<and>
   unat (compute_priority Host 65535 1) = 2130706431"
  using priority_order [of 1 1 Host 65535 Host 0] priority_order [of 1 1 Host 0 Srflx 65535] by simp

text \<open>Pair priorities: the two agents of a session compute the same value for a pair (each passes
  its own candidate first and its own role), the value is \<open>2^32 min(G,D) + 2 max(G,D) + [G > D]\<close>
  with no wrap-around for priorities below \<open>2^31\<close>, and a pair with the larger minimum outranks.\<close>

theorem pair_priority_agreement:
  assumes "unat g < 2 ^ 31" "unat d < 2 ^ 31" "unat g' < 2 ^ 31" "unat d' < 2 ^ 31"
  shows "pair_priority g d True = pair_priority d g False \<and>
    unat (pair_priority g d True) = 2 ^ 32 * min (unat g) (unat d) + 2 * max (unat g) (unat d)
      + (if unat g > unat d then 1 else 0) \<and>
    (min g d < min g' d' \<longrightarrow> pair_priority g d True < pair_priority g' d' True)"
proof -
  have mm: "unat (min x y) = min (unat x) (unat y)" for x y :: u32
    by (auto simp: min_def word_le_nat_alt)
  have "pair_priority g d True < pair_priority g' d' True" if "min g d < min g' d'"
  proof -
    have "min (unat g) (unat d) + 1 \<le> min (unat g') (unat d')"
      using that by (simp add: word_less_nat_alt mm)
    then have "2 ^ 32 * (min (unat g) (unat d) + 1) \<le> 2 ^ 32 * min (unat g') (unat d')"
      by (rule mult_le_mono2)
    then have lo: "2 ^ 32 * min (unat g) (unat d) + 2 ^ 32 \<le> 2 ^ 32 * min (unat g') (unat d')"
      by (simp only: distrib_left mult_1_right)
    have hi: "2 * max (unat g) (unat d) + 2 \<le> 2 ^ 32" using assms by simp
    have "a + m + e < b + m' + e'" if "a + c \<le> b" "m + 2 \<le> c" "e \<le> 1"
      for a b c m m' e e' :: nat using that by linarith
    from this [OF lo hi] show ?thesis
      unfolding word_less_nat_alt pair_priority_nat [OF assms(1,2)] pair_priority_nat [OF assms(3,4)]
      by simp
  qed
  then show ?thesis using pair_priority_sym pair_priority_nat [OF assms(1,2)] by simp
qed

theorem pair_priority_agreement_witness:
  "unat (pair_priority 9 5 False) = 21474836498 \<and> pair_priority 9 5 False < pair_priority 6 7 True"
  using pair_priority_agreement [of 5 9 6 7] by auto

text \<open>The foundation separates what must not share one: with the other components equal, two
  candidates have the same foundation only if they have the same type, only if they have the same
  transport, and base (or server) addresses that differ in a single character give different
  foundations.\<close>

theorem foundation_separates:
  "(compute_foundation t base srv x = compute_foundation t' base srv x \<longleftrightarrow> type_code t = type_code t') \<and>
   (compute_foundation t base srv x = compute_foundation t base srv x' \<longleftrightarrow> x = x') \<and>
   (compute_foundation t (p @ [a] @ q) srv x = compute_foundation t (p @ [b] @ q) srv x \<longleftrightarrow> a = b) \<and>
   (compute_foundation t base (p @ [a] @ q) x = compute_foundation t base (p @ [b] @ q) x \<longleftrightarrow> a = b)"
  by (simp add: foundation_simps transport_code_inject bytes_of_string_def)

end
