(* ===== verification/Stun_Builder.thy ===== *)
theory Stun_Builder
  imports Endian Inet
begin

text \<open>
  The message builder of \<open>src/stun.cpp\<close> and \<open>src/stun.hpp\<close>: the protocol constants, the
  XOR-ed addresses, the checksum, and the class \<open>StunBuilder\<close> with one function per method. The
  random transaction id (\<open>generate_txn_id\<close>) and HMAC-SHA1 (OpenSSL) are arguments.
\<close>

section \<open>Constants\<close>

definition STUN_BINDING_REQUEST :: u16 where "STUN_BINDING_REQUEST = 0x0001"
definition STUN_BINDING_INDICATION :: u16 where "STUN_BINDING_INDICATION = 0x0011"
definition STUN_BINDING_RESPONSE :: u16 where "STUN_BINDING_RESPONSE = 0x0101"
definition STUN_BINDING_ERROR :: u16 where "STUN_BINDING_ERROR = 0x0111"
definition STUN_MAGIC_COOKIE :: u32 where "STUN_MAGIC_COOKIE = 0x2112A442"
definition STUN_ATTR_MAPPED_ADDRESS :: u16 where "STUN_ATTR_MAPPED_ADDRESS = 0x0001"
definition STUN_ATTR_USERNAME :: u16 where "STUN_ATTR_USERNAME = 0x0006"
definition STUN_ATTR_UNKNOWN_ATTRIBUTES :: u16 where "STUN_ATTR_UNKNOWN_ATTRIBUTES = 0x000A"
definition STUN_ATTR_MESSAGE_INTEGRITY :: u16 where "STUN_ATTR_MESSAGE_INTEGRITY = 0x0008"
definition STUN_ATTR_ERROR_CODE :: u16 where "STUN_ATTR_ERROR_CODE = 0x0009"
definition STUN_ATTR_XOR_MAPPED_ADDRESS :: u16 where "STUN_ATTR_XOR_MAPPED_ADDRESS = 0x0020"
definition STUN_ATTR_PRIORITY :: u16 where "STUN_ATTR_PRIORITY = 0x0024"
definition STUN_ATTR_USE_CANDIDATE :: u16 where "STUN_ATTR_USE_CANDIDATE = 0x0025"
definition STUN_ATTR_ICE_CONTROLLING :: u16 where "STUN_ATTR_ICE_CONTROLLING = 0x802A"
definition STUN_ATTR_ICE_CONTROLLED :: u16 where "STUN_ATTR_ICE_CONTROLLED = 0x8029"
definition STUN_ATTR_FINGERPRINT :: u16 where "STUN_ATTR_FINGERPRINT = 0x8028"
definition TURN_ALLOCATE_REQUEST :: u16 where "TURN_ALLOCATE_REQUEST = 0x0003"
definition TURN_ALLOCATE_RESPONSE :: u16 where "TURN_ALLOCATE_RESPONSE = 0x0103"
definition TURN_ALLOCATE_ERROR :: u16 where "TURN_ALLOCATE_ERROR = 0x0113"
definition TURN_REFRESH_REQUEST :: u16 where "TURN_REFRESH_REQUEST = 0x0004"
definition TURN_REFRESH_RESPONSE :: u16 where "TURN_REFRESH_RESPONSE = 0x0104"
definition TURN_CREATE_PERM_REQUEST :: u16 where "TURN_CREATE_PERM_REQUEST = 0x0008"
definition TURN_CREATE_PERM_RESPONSE :: u16 where "TURN_CREATE_PERM_RESPONSE = 0x0108"
definition TURN_SEND_INDICATION :: u16 where "TURN_SEND_INDICATION = 0x0016"
definition TURN_DATA_INDICATION :: u16 where "TURN_DATA_INDICATION = 0x0017"
definition TURN_CHANNEL_BIND_REQUEST :: u16 where "TURN_CHANNEL_BIND_REQUEST = 0x0009"
definition TURN_CHANNEL_BIND_RESPONSE :: u16 where "TURN_CHANNEL_BIND_RESPONSE = 0x0109"
definition TURN_CHANNEL_BIND_ERROR :: u16 where "TURN_CHANNEL_BIND_ERROR = 0x0119"
definition REQUESTED_TRANSPORT_UDP :: byte where "REQUESTED_TRANSPORT_UDP = 17"
definition REQUESTED_TRANSPORT_TCP :: byte where "REQUESTED_TRANSPORT_TCP = 6"
definition TURN_CONNECT_REQUEST :: u16 where "TURN_CONNECT_REQUEST = 0x000A"
definition TURN_CONNECT_RESPONSE :: u16 where "TURN_CONNECT_RESPONSE = 0x010A"
definition TURN_CONNECT_ERROR :: u16 where "TURN_CONNECT_ERROR = 0x011A"
definition TURN_CONNECTION_BIND_REQUEST :: u16 where "TURN_CONNECTION_BIND_REQUEST = 0x000B"
definition TURN_CONNECTION_BIND_RESPONSE :: u16 where "TURN_CONNECTION_BIND_RESPONSE = 0x010B"
definition TURN_CONNECTION_BIND_ERROR :: u16 where "TURN_CONNECTION_BIND_ERROR = 0x011B"
definition TURN_CONNECTION_ATTEMPT_INDICATION :: u16 where "TURN_CONNECTION_ATTEMPT_INDICATION = 0x001C"
definition TURN_ATTR_CHANNEL_NUMBER :: u16 where "TURN_ATTR_CHANNEL_NUMBER = 0x000C"
definition TURN_ATTR_LIFETIME :: u16 where "TURN_ATTR_LIFETIME = 0x000D"
definition TURN_ATTR_XOR_PEER_ADDRESS :: u16 where "TURN_ATTR_XOR_PEER_ADDRESS = 0x0012"
definition TURN_ATTR_DATA :: u16 where "TURN_ATTR_DATA = 0x0013"
definition TURN_ATTR_XOR_RELAYED_ADDRESS :: u16 where "TURN_ATTR_XOR_RELAYED_ADDRESS = 0x0016"
definition TURN_ATTR_REQUESTED_TRANSPORT :: u16 where "TURN_ATTR_REQUESTED_TRANSPORT = 0x0019"
definition TURN_ATTR_REALM :: u16 where "TURN_ATTR_REALM = 0x0014"
definition TURN_ATTR_NONCE :: u16 where "TURN_ATTR_NONCE = 0x0015"
definition TURN_ATTR_CONNECTION_ID :: u16 where "TURN_ATTR_CONNECTION_ID = 0x002A"

lemmas stun_consts =
  STUN_BINDING_REQUEST_def
  STUN_BINDING_INDICATION_def
  STUN_BINDING_RESPONSE_def
  STUN_BINDING_ERROR_def
  STUN_MAGIC_COOKIE_def
  STUN_ATTR_MAPPED_ADDRESS_def
  STUN_ATTR_USERNAME_def
  STUN_ATTR_UNKNOWN_ATTRIBUTES_def
  STUN_ATTR_MESSAGE_INTEGRITY_def
  STUN_ATTR_ERROR_CODE_def
  STUN_ATTR_XOR_MAPPED_ADDRESS_def
  STUN_ATTR_PRIORITY_def
  STUN_ATTR_USE_CANDIDATE_def
  STUN_ATTR_ICE_CONTROLLING_def
  STUN_ATTR_ICE_CONTROLLED_def
  STUN_ATTR_FINGERPRINT_def
  TURN_ALLOCATE_REQUEST_def
  TURN_ALLOCATE_RESPONSE_def
  TURN_ALLOCATE_ERROR_def
  TURN_REFRESH_REQUEST_def
  TURN_REFRESH_RESPONSE_def
  TURN_CREATE_PERM_REQUEST_def
  TURN_CREATE_PERM_RESPONSE_def
  TURN_SEND_INDICATION_def
  TURN_DATA_INDICATION_def
  TURN_CHANNEL_BIND_REQUEST_def
  TURN_CHANNEL_BIND_RESPONSE_def
  TURN_CHANNEL_BIND_ERROR_def
  REQUESTED_TRANSPORT_UDP_def
  REQUESTED_TRANSPORT_TCP_def
  TURN_CONNECT_REQUEST_def
  TURN_CONNECT_RESPONSE_def
  TURN_CONNECT_ERROR_def
  TURN_CONNECTION_BIND_REQUEST_def
  TURN_CONNECTION_BIND_RESPONSE_def
  TURN_CONNECTION_BIND_ERROR_def
  TURN_CONNECTION_ATTEMPT_INDICATION_def
  TURN_ATTR_CHANNEL_NUMBER_def
  TURN_ATTR_LIFETIME_def
  TURN_ATTR_XOR_PEER_ADDRESS_def
  TURN_ATTR_DATA_def
  TURN_ATTR_XOR_RELAYED_ADDRESS_def
  TURN_ATTR_REQUESTED_TRANSPORT_def
  TURN_ATTR_REALM_def
  TURN_ATTR_NONCE_def
  TURN_ATTR_CONNECTION_ID_def

section \<open>Addresses\<close>

record MappedAddress =
  ma_ip :: string
  ma_port :: u16

type_synonym TransactionId = bytes

definition xor_port :: "u16 \<Rightarrow> u16" where
  "xor_port port = port XOR ucast (drop_bit 16 STUN_MAGIC_COOKIE)"

text \<open>The 16-octet key for IPv6: the magic cookie followed by the transaction id.\<close>

definition xor_key :: "TransactionId \<Rightarrow> bytes" where
  "xor_key txn = write32 STUN_MAGIC_COOKIE @ txn"

definition encode_xor_addr :: "inet \<Rightarrow> string \<Rightarrow> u16 \<Rightarrow> TransactionId \<Rightarrow> bytes" where
  "encode_xor_addr I ip port txn =
     (case inet_pton4 I (c_str ip) of
        Some addr4 \<Rightarrow>
          [0, 0x01] @ write16 (xor_port port) @ write32 (the (read32 addr4 0) XOR STUN_MAGIC_COOKIE)
      | None \<Rightarrow>
         (case inet_pton6 I (c_str ip) of
            Some addr6 \<Rightarrow>
              [0, 0x02] @ write16 (xor_port port) @ map2 (XOR) addr6 (xor_key txn)
          | None \<Rightarrow> [0]))"

text \<open>The argument \<open>data\<close> is the attribute value; its length is the parameter \<open>len\<close>.\<close>

definition decode_xor_addr :: "inet \<Rightarrow> bytes \<Rightarrow> TransactionId \<Rightarrow> MappedAddress parsed" where
  "decode_xor_addr I data txn =
     (if length data < 4 then reject
      else do {
        fam \<leftarrow> rd data 1 1;
        xport \<leftarrow> read16 data 2;
        if fam = [0x01] \<and> length data \<ge> 8
        then do {
          xaddr \<leftarrow> read32 data 4;
          accept \<lparr>ma_ip = inet_ntop4 I (write32 (xaddr XOR STUN_MAGIC_COOKIE)), ma_port = xor_port xport\<rparr>
        }
        else if fam = [0x02] \<and> length data \<ge> 20
        then do {
          b \<leftarrow> rd data 4 16;
          accept \<lparr>ma_ip = inet_ntop6 I (map2 (XOR) b (xor_key txn)), ma_port = xor_port xport\<rparr>
        }
        else reject
      })"

section \<open>The checksum of FINGERPRINT\<close>

definition crc_bit :: "u32 \<Rightarrow> u32" where
  "crc_bit crc = drop_bit 1 crc XOR (0xEDB88320 AND (- (crc AND 1)))"

definition crc_octet :: "u32 \<Rightarrow> byte \<Rightarrow> u32" where
  "crc_octet crc b = (crc_bit ^^ 8) (crc XOR ucast b)"

definition stun_crc32 :: "bytes \<Rightarrow> u32" where
  "stun_crc32 data = foldl crc_octet 0xFFFFFFFF data XOR 0xFFFFFFFF"

section \<open>The builder\<close>

record StunBuilder =
  sb_msg_type :: u16
  sb_txn_id :: TransactionId
  sb_attrs :: bytes

text \<open>The constructor; \<open>txn\<close> is the value \<open>generate_txn_id\<close> draws.\<close>

definition new_builder :: "u16 \<Rightarrow> TransactionId \<Rightarrow> StunBuilder" where
  "new_builder msg_type txn = \<lparr>sb_msg_type = msg_type, sb_txn_id = txn, sb_attrs = []\<rparr>"

definition set_txn_id :: "TransactionId \<Rightarrow> StunBuilder \<Rightarrow> StunBuilder" where
  "set_txn_id txn b = b\<lparr>sb_txn_id := txn\<rparr>"

text \<open>\<open>while (attrs_.size() % 4 != 0) attrs_.push_back(0)\<close>\<close>

function pad_to4 :: "bytes \<Rightarrow> bytes" where
  "pad_to4 bs = (if length bs mod 4 \<noteq> 0 then pad_to4 (bs @ [0]) else bs)"
  by pat_completeness auto

termination pad_to4
  by (relation "measure (\<lambda>bs. pad4 (length bs))") (auto simp: pad4_Suc)

declare pad_to4.simps [simp del]

definition add_attr :: "u16 \<Rightarrow> bytes \<Rightarrow> StunBuilder \<Rightarrow> StunBuilder" where
  "add_attr ty value b =
     b\<lparr>sb_attrs := pad_to4 (sb_attrs b @ write16 ty @ write16 (word_of_nat (length value)) @ value)\<rparr>"

definition add_attr_u32 :: "u16 \<Rightarrow> u32 \<Rightarrow> StunBuilder \<Rightarrow> StunBuilder" where
  "add_attr_u32 ty value b = add_attr ty (write32 value) b"

definition add_attr_u64 :: "u16 \<Rightarrow> u64 \<Rightarrow> StunBuilder \<Rightarrow> StunBuilder" where
  "add_attr_u64 ty value b = add_attr ty (write64 value) b"

definition add_username :: "string \<Rightarrow> StunBuilder \<Rightarrow> StunBuilder" where
  "add_username username b = add_attr STUN_ATTR_USERNAME (bytes_of_string username) b"

definition add_priority :: "u32 \<Rightarrow> StunBuilder \<Rightarrow> StunBuilder" where
  "add_priority priority b = add_attr_u32 STUN_ATTR_PRIORITY priority b"

definition add_use_candidate :: "StunBuilder \<Rightarrow> StunBuilder" where
  "add_use_candidate b = add_attr STUN_ATTR_USE_CANDIDATE [] b"

definition add_ice_controlling :: "u64 \<Rightarrow> StunBuilder \<Rightarrow> StunBuilder" where
  "add_ice_controlling tiebreaker b = add_attr_u64 STUN_ATTR_ICE_CONTROLLING tiebreaker b"

definition add_ice_controlled :: "u64 \<Rightarrow> StunBuilder \<Rightarrow> StunBuilder" where
  "add_ice_controlled tiebreaker b = add_attr_u64 STUN_ATTR_ICE_CONTROLLED tiebreaker b"

definition add_xor_peer_address :: "inet \<Rightarrow> string \<Rightarrow> u16 \<Rightarrow> StunBuilder \<Rightarrow> StunBuilder" where
  "add_xor_peer_address I ip port b =
     add_attr TURN_ATTR_XOR_PEER_ADDRESS (encode_xor_addr I ip port (sb_txn_id b)) b"

definition add_xor_relayed_address :: "inet \<Rightarrow> string \<Rightarrow> u16 \<Rightarrow> StunBuilder \<Rightarrow> StunBuilder" where
  "add_xor_relayed_address I ip port b =
     add_attr TURN_ATTR_XOR_RELAYED_ADDRESS (encode_xor_addr I ip port (sb_txn_id b)) b"

definition add_error_code :: "u16 \<Rightarrow> string \<Rightarrow> StunBuilder \<Rightarrow> StunBuilder" where
  "add_error_code code reason b =
     add_attr STUN_ATTR_ERROR_CODE
       ([0, 0, ucast (code div 100), ucast (code mod 100)] @ bytes_of_string reason) b"

definition add_data :: "bytes \<Rightarrow> StunBuilder \<Rightarrow> StunBuilder" where
  "add_data data b = add_attr TURN_ATTR_DATA data b"

definition add_channel_number :: "u16 \<Rightarrow> StunBuilder \<Rightarrow> StunBuilder" where
  "add_channel_number channel b =
     add_attr TURN_ATTR_CHANNEL_NUMBER
       [ucast (drop_bit 8 channel), ucast (channel AND 0xFF), 0, 0] b"

definition add_requested_transport :: "byte \<Rightarrow> StunBuilder \<Rightarrow> StunBuilder" where
  "add_requested_transport proto b = add_attr TURN_ATTR_REQUESTED_TRANSPORT [proto, 0, 0, 0] b"

definition add_lifetime :: "u32 \<Rightarrow> StunBuilder \<Rightarrow> StunBuilder" where
  "add_lifetime seconds b = add_attr_u32 TURN_ATTR_LIFETIME seconds b"

definition add_realm :: "string \<Rightarrow> StunBuilder \<Rightarrow> StunBuilder" where
  "add_realm realm b = add_attr TURN_ATTR_REALM (bytes_of_string realm) b"

definition add_nonce :: "string \<Rightarrow> StunBuilder \<Rightarrow> StunBuilder" where
  "add_nonce nonce b = add_attr TURN_ATTR_NONCE (bytes_of_string nonce) b"

definition add_connection_id :: "u32 \<Rightarrow> StunBuilder \<Rightarrow> StunBuilder" where
  "add_connection_id connection_id b = add_attr_u32 TURN_ATTR_CONNECTION_ID connection_id b"

text \<open>The header and the attributes so far, with a given value in the length field.\<close>

definition stun_header :: "u16 \<Rightarrow> u16 \<Rightarrow> TransactionId \<Rightarrow> bytes" where
  "stun_header msg_type len txn =
     write16 msg_type @ write16 len @ write32 STUN_MAGIC_COOKIE @ txn"

definition stun_image :: "StunBuilder \<Rightarrow> nat \<Rightarrow> bytes" where
  "stun_image b len = stun_header (sb_msg_type b) (word_of_nat len) (sb_txn_id b) @ sb_attrs b"

text \<open>HMAC-SHA1 of OpenSSL: key, message, 20-octet digest.\<close>

type_synonym hmac = "bytes \<Rightarrow> bytes \<Rightarrow> bytes"

definition add_integrity :: "hmac \<Rightarrow> string \<Rightarrow> StunBuilder \<Rightarrow> StunBuilder" where
  "add_integrity HMAC key b =
     add_attr STUN_ATTR_MESSAGE_INTEGRITY
       (take 20 (HMAC (bytes_of_string key) (stun_image b (length (sb_attrs b) + 24)))) b"

definition add_fingerprint :: "StunBuilder \<Rightarrow> StunBuilder" where
  "add_fingerprint b =
     add_attr_u32 STUN_ATTR_FINGERPRINT
       (stun_crc32 (stun_image b (length (sb_attrs b) + 8)) XOR 0x5354554E) b"

text \<open>\<open>target & ~3\<close> is the target rounded down to a multiple of four.\<close>

definition add_padding_to :: "nat \<Rightarrow> StunBuilder \<Rightarrow> StunBuilder" where
  "add_padding_to target b =
     (let cur = 20 + length (sb_attrs b); aligned = 4 * (target div 4)
      in if target \<le> cur then b
         else if target - cur < 4 then b
         else if aligned \<le> cur then b
         else let value_len = aligned - cur - 4
              in if value_len > 0xFFFF then b
                 else add_attr STUN_ATTR_UNKNOWN_ATTRIBUTES (replicate value_len 0) b)"

definition build :: "StunBuilder \<Rightarrow> bytes" where
  "build b = stun_image b (length (sb_attrs b))"

section \<open>What the builder produces\<close>

text \<open>The encoding of one attribute, and of a list of attributes.\<close>

definition tlv :: "u16 \<times> bytes \<Rightarrow> bytes" where
  "tlv a = write16 (fst a) @ write16 (word_of_nat (length (snd a))) @ snd a
     @ replicate (pad4 (length (snd a))) 0"

definition tlvs :: "(u16 \<times> bytes) list \<Rightarrow> bytes" where
  "tlvs as = concat (map tlv as)"

lemma pad_to4_eq: "pad_to4 bs = bs @ replicate (pad4 (length bs)) 0"
proof (induction bs rule: pad_to4.induct)
  case (1 bs)
  show ?case
  proof (cases "length bs mod 4 = 0")
    case True
    then show ?thesis by (simp add: pad_to4.simps [of bs] dvd_eq_mod_eq_0)
  next
    case False
    then show ?thesis using 1
      by (simp add: pad_to4.simps [of bs] pad4_Suc [of "length bs"])
  qed
qed

lemma length_tlv: "length (tlv a) = 4 + length (snd a) + pad4 (length (snd a))"
  by (simp add: tlv_def)

lemma tlv_dvd: "4 dvd length (tlv a)"
  using pad4_dvd [of "length (snd a)"] by (simp only: length_tlv add.assoc) (simp only: dvd_add dvd_refl)

lemma tlvs_simps [simp]:
  "tlvs [] = []" "tlvs (a # as) = tlv a @ tlvs as" "tlvs (as @ bs) = tlvs as @ tlvs bs"
  by (simp_all add: tlvs_def)

lemma tlvs_dvd: "4 dvd length (tlvs as)"
  by (induction as) (simp_all add: tlv_dvd)

lemma add_attr_attrs:
  assumes "4 dvd length (sb_attrs b)"
  shows "sb_attrs (add_attr ty v b) = sb_attrs b @ tlv (ty, v)"
proof -
  have "length (sb_attrs b @ write16 ty @ write16 (word_of_nat (length v)) @ v) =
      (length (sb_attrs b) + 4) + length v" by simp
  moreover have "4 dvd length (sb_attrs b) + 4" using assms by simp
  ultimately have "pad4 (length (sb_attrs b @ write16 ty @ write16 (word_of_nat (length v)) @ v)) =
      pad4 (length v)" by (simp only: pad4_add)
  then show ?thesis by (simp add: add_attr_def pad_to4_eq tlv_def)
qed

lemma add_attr_tlvs:
  "sb_attrs b = tlvs as \<Longrightarrow> sb_attrs (add_attr ty v b) = tlvs (as @ [(ty, v)])"
  by (simp add: add_attr_attrs tlvs_dvd)

lemma add_attr_frame [simp]:
  "sb_msg_type (add_attr ty v b) = sb_msg_type b" "sb_txn_id (add_attr ty v b) = sb_txn_id b"
  by (simp_all add: add_attr_def)

end
