(* ===== verification/Stun_Parser.thy ===== *)
theory Stun_Parser
  imports Stun_Builder
begin

text \<open>
  The parser and the integrity check of \<open>src/stun.cpp\<close>: \<open>parse_stun\<close>, \<open>verify_integrity\<close>. Both
  walk over the attributes of a buffer received from the network; reads are checked, so that
  memory safety is a statement about the definitions.
\<close>

section \<open>Definitions\<close>

record StunMessage =
  sm_msg_type :: u16
  sm_txn_id :: TransactionId
  sm_xor_mapped :: "MappedAddress option"
  sm_xor_peer :: "MappedAddress option"
  sm_xor_relayed :: "MappedAddress option"
  sm_priority :: "u32 option"
  sm_lifetime :: "u32 option"
  sm_error_code :: "u16 option"
  sm_username :: "string option"
  sm_realm :: "string option"
  sm_nonce :: "string option"
  sm_connection_id :: "u32 option"
  sm_data :: bytes
  sm_use_candidate :: bool
  sm_ice_controlling :: "u64 option"
  sm_ice_controlled :: "u64 option"
  sm_has_integrity :: bool
  sm_has_fingerprint :: bool

definition empty_message :: "u16 \<Rightarrow> TransactionId \<Rightarrow> StunMessage" where
  "empty_message msg_type txn =
     \<lparr>sm_msg_type = msg_type, sm_txn_id = txn, sm_xor_mapped = None, sm_xor_peer = None,
      sm_xor_relayed = None, sm_priority = None, sm_lifetime = None, sm_error_code = None,
      sm_username = None, sm_realm = None, sm_nonce = None, sm_connection_id = None, sm_data = [],
      sm_use_candidate = False, sm_ice_controlling = None, sm_ice_controlled = None,
      sm_has_integrity = False, sm_has_fingerprint = False\<rparr>"

text \<open>
  The \<open>switch\<close> over the attribute type. The attribute value is the slice \<open>attr_data[0..attr_len)\<close>;
  a read outside the slice counts as a violation even if it stays in the message.
\<close>

definition apply_attr :: "inet \<Rightarrow> u16 \<Rightarrow> bytes \<Rightarrow> StunMessage \<Rightarrow> StunMessage checked" where
  "apply_attr I attr_type v msg =
     (if attr_type = STUN_ATTR_XOR_MAPPED_ADDRESS then do {
        a \<leftarrow> decode_xor_addr I v (sm_txn_id msg); Some (msg\<lparr>sm_xor_mapped := a\<rparr>) }
      else if attr_type = TURN_ATTR_XOR_PEER_ADDRESS then do {
        a \<leftarrow> decode_xor_addr I v (sm_txn_id msg); Some (msg\<lparr>sm_xor_peer := a\<rparr>) }
      else if attr_type = TURN_ATTR_XOR_RELAYED_ADDRESS then do {
        a \<leftarrow> decode_xor_addr I v (sm_txn_id msg); Some (msg\<lparr>sm_xor_relayed := a\<rparr>) }
      else if attr_type = STUN_ATTR_PRIORITY then
        (if length v \<ge> 4 then do { x \<leftarrow> read32 v 0; Some (msg\<lparr>sm_priority := Some x\<rparr>) } else Some msg)
      else if attr_type = TURN_ATTR_LIFETIME then
        (if length v \<ge> 4 then do { x \<leftarrow> read32 v 0; Some (msg\<lparr>sm_lifetime := Some x\<rparr>) } else Some msg)
      else if attr_type = STUN_ATTR_USE_CANDIDATE then Some (msg\<lparr>sm_use_candidate := True\<rparr>)
      else if attr_type = STUN_ATTR_ICE_CONTROLLING then
        (if length v \<ge> 8 then do { x \<leftarrow> read64 v 0; Some (msg\<lparr>sm_ice_controlling := Some x\<rparr>) }
         else Some msg)
      else if attr_type = STUN_ATTR_ICE_CONTROLLED then
        (if length v \<ge> 8 then do { x \<leftarrow> read64 v 0; Some (msg\<lparr>sm_ice_controlled := Some x\<rparr>) }
         else Some msg)
      else if attr_type = STUN_ATTR_ERROR_CODE then
        (if length v \<ge> 4 then do {
           cn \<leftarrow> rd v 2 2;
           Some (msg\<lparr>sm_error_code := Some (ucast (cn ! 0) * 100 + ucast (cn ! 1))\<rparr>) }
         else Some msg)
      else if attr_type = STUN_ATTR_USERNAME then Some (msg\<lparr>sm_username := Some (string_of_bytes v)\<rparr>)
      else if attr_type = TURN_ATTR_REALM then Some (msg\<lparr>sm_realm := Some (string_of_bytes v)\<rparr>)
      else if attr_type = TURN_ATTR_NONCE then Some (msg\<lparr>sm_nonce := Some (string_of_bytes v)\<rparr>)
      else if attr_type = TURN_ATTR_CONNECTION_ID then
        (if length v \<ge> 4 then do { x \<leftarrow> read32 v 0; Some (msg\<lparr>sm_connection_id := Some x\<rparr>) }
         else Some msg)
      else if attr_type = TURN_ATTR_DATA then Some (msg\<lparr>sm_data := v\<rparr>)
      else if attr_type = STUN_ATTR_MESSAGE_INTEGRITY then Some (msg\<lparr>sm_has_integrity := True\<rparr>)
      else if attr_type = STUN_ATTR_FINGERPRINT then Some (msg\<lparr>sm_has_fingerprint := True\<rparr>)
      else Some msg)"

text \<open>The loop over the attributes; \<open>limit\<close> is \<open>20u + msg_len\<close>.\<close>

function parse_attrs ::
  "inet \<Rightarrow> bytes \<Rightarrow> nat \<Rightarrow> nat \<Rightarrow> StunMessage \<Rightarrow> StunMessage checked" where
  "parse_attrs I data limit offset msg =
     (if offset + 4 \<le> limit then do {
        attr_type \<leftarrow> read16 data offset;
        attr_len \<leftarrow> read16 data (offset + 2);
        let attr_start = offset + 4;
        if attr_start + unat attr_len > length data then Some msg
        else do {
          v \<leftarrow> rd data attr_start (unat attr_len);
          msg' \<leftarrow> apply_attr I attr_type v msg;
          parse_attrs I data limit (align4 (attr_start + unat attr_len)) msg'
        }
      }
      else Some msg)"
  by pat_completeness auto

lemma align4_step: "offset + 4 \<le> limit \<Longrightarrow> limit - align4 (offset + 4 + n) < limit - offset"
  using align4_ge [of "offset + 4 + n"] by linarith

termination parse_attrs
  by (relation "measure (\<lambda>(I, data, limit, offset, msg). limit - offset)")
     (auto intro: align4_step [simplified])

declare parse_attrs.simps [simp del]

definition parse_stun :: "inet \<Rightarrow> bytes \<Rightarrow> StunMessage parsed" where
  "parse_stun I data =
     (if length data < 20 then reject
      else do {
        msg_type \<leftarrow> read16 data 0;
        msg_len \<leftarrow> read16 data 2;
        cookie \<leftarrow> read32 data 4;
        if cookie \<noteq> STUN_MAGIC_COOKIE then reject
        else if 20 + unat msg_len > length data then reject
        else do {
          txn \<leftarrow> rd data 8 12;
          msg \<leftarrow> parse_attrs I data (20 + unat msg_len) 20 (empty_message msg_type txn);
          accept msg
        }
      })"

text \<open>The search loop of \<open>verify_integrity\<close>; 0 is "not found".\<close>

function find_integrity :: "bytes \<Rightarrow> nat \<Rightarrow> nat \<Rightarrow> nat checked" where
  "find_integrity raw limit offset =
     (if offset + 4 \<le> limit then do {
        at \<leftarrow> read16 raw offset;
        al \<leftarrow> read16 raw (offset + 2);
        if at = STUN_ATTR_MESSAGE_INTEGRITY then Some offset
        else find_integrity raw limit (align4 (offset + 4 + unat al))
      }
      else Some 0)"
  by pat_completeness auto

termination find_integrity
  by (relation "measure (\<lambda>(raw, limit, offset). limit - offset)")
     (auto intro: align4_step [simplified])

declare find_integrity.simps [simp del]

definition verify_integrity :: "hmac \<Rightarrow> bytes \<Rightarrow> string \<Rightarrow> bool checked" where
  "verify_integrity HMAC raw key =
     (if length raw < 44 then Some False
      else do {
        msg_len \<leftarrow> read16 raw 2;
        mi_offset \<leftarrow> find_integrity raw (20 + unat msg_len) 20;
        if mi_offset = 0 then Some False
        else do {
          type_octets \<leftarrow> rd raw 0 2;
          cookie_txn \<leftarrow> rd raw 4 16;
          body \<leftarrow> rd raw 20 (mi_offset - 20);
          let hdr = type_octets @ write16 (word_of_nat (mi_offset - 20 + 24)) @ cookie_txn;
          stored \<leftarrow> rd raw (mi_offset + 4) 20;
          Some (take 20 (HMAC (bytes_of_string key) (hdr @ body)) = stored)
        }
      })"

section \<open>Memory safety of the parser\<close>

lemma decode_xor_addr_safe [simp]: "safe (decode_xor_addr I v txn)"
  by (auto simp: decode_xor_addr_def)

lemma apply_attr_safe [simp]: "safe (apply_attr I t v msg)"
  unfolding apply_attr_def by (intro safe_if safe_bind) simp_all

lemma parse_attrs_safe: "limit \<le> length data \<Longrightarrow> safe (parse_attrs I data limit offset msg)"
proof (induction I data limit offset msg rule: parse_attrs.induct)
  case (1 I data limit offset msg)
  then show ?case
    by (subst parse_attrs.simps) (auto simp: Let_def)
qed

lemma parse_stun_safe: "safe (parse_stun I data)"
  by (auto simp: parse_stun_def parse_attrs_safe)

section \<open>Walking over encoded attributes\<close>

fun apply_tlvs :: "inet \<Rightarrow> (u16 \<times> bytes) list \<Rightarrow> StunMessage \<Rightarrow> StunMessage checked" where
  "apply_tlvs I [] msg = Some msg"
| "apply_tlvs I (a # as) msg = do { m \<leftarrow> apply_attr I (fst a) (snd a) msg; apply_tlvs I as m }"

definition fits_tlv :: "u16 \<times> bytes \<Rightarrow> bool" where
  "fits_tlv a \<longleftrightarrow> length (snd a) \<le> 0xFFFF"

lemma apply_tlvs_append: "apply_tlvs I (as @ bs) msg = do { m \<leftarrow> apply_tlvs I as msg; apply_tlvs I bs m }"
proof (induction as arbitrary: msg)
  case (Cons a as)
  then show ?case by (cases "apply_attr I (fst a) (snd a) msg") auto
qed simp

lemma apply_tlvs_safe: "safe (apply_tlvs I as msg)"
  by (induction as arbitrary: msg) auto

lemma unat_len16: "fits_tlv a \<Longrightarrow> unat (word_of_nat (length (snd a)) :: u16) = length (snd a)"
  by (simp add: fits_tlv_def unat_of_nat)

text \<open>One attribute at an aligned offset: its header, its value and the offset of the next one.\<close>

lemma tlv_at:
  shows "read16 (pre @ tlv a @ post) (length pre) = Some (fst a)"
    and "read16 (pre @ tlv a @ post) (length pre + 2) = Some (word_of_nat (length (snd a)))"
    and "rd (pre @ tlv a @ post) (length pre + 4) (length (snd a)) = Some (snd a)"
proof -
  let ?n = "length (snd a)"
  show "read16 (pre @ tlv a @ post) (length pre) = Some (fst a)"
    by (simp add: tlv_def codec_simps)
  have "read16 ((pre @ write16 (fst a)) @ write16 (word_of_nat ?n) @
      (snd a @ replicate (pad4 ?n) 0 @ post)) (length pre + 2) = Some (word_of_nat ?n)"
    by (rule c16.dec_at) simp
  then show "read16 (pre @ tlv a @ post) (length pre + 2) = Some (word_of_nat ?n)"
    by (simp add: tlv_def)
  have "rd ((pre @ write16 (fst a) @ write16 (word_of_nat ?n)) @ snd a @
      (replicate (pad4 ?n) 0 @ post)) (length pre + 4) ?n = Some (snd a)"
    by (rule rd_append_mid) simp_all
  then show "rd (pre @ tlv a @ post) (length pre + 4) ?n = Some (snd a)"
    by (simp add: tlv_def)
qed

lemma tlv_next: "4 dvd length pre \<Longrightarrow> align4 (length pre + 4 + length (snd a)) = length (pre @ tlv a)"
proof -
  assume "4 dvd length pre"
  then have "4 dvd length pre + 4" by simp
  then have "pad4 (length pre + 4 + length (snd a)) = pad4 (length (snd a))" by (rule pad4_add)
  then show ?thesis by (simp add: align4_pad4 length_tlv)
qed

lemma parse_attrs_tlvs:
  assumes "\<forall>a \<in> set as. fits_tlv a" "4 dvd length pre"
    and "length pre + length (tlvs as) \<le> limit"
  shows "parse_attrs I (pre @ tlvs as @ post) limit (length pre) msg =
    do { m \<leftarrow> apply_tlvs I as msg;
         parse_attrs I (pre @ tlvs as @ post) limit (length pre + length (tlvs as)) m }"
  using assms
proof (induction as arbitrary: pre msg)
  case Nil
  then show ?case by simp
next
  case (Cons a as)
  let ?data = "pre @ tlv a @ tlvs as @ post"
  have fit: "fits_tlv a" using Cons.prems by simp
  note at = tlv_at [of pre a "tlvs as @ post"] tlv_next [OF Cons.prems(2), of a]
  have guard: "length pre + 4 \<le> limit" "\<not> length pre + 4 + length (snd a) > length ?data"
    using Cons.prems(3) by (simp_all add: length_tlv)
  have step: "parse_attrs I ?data limit (length pre) msg =
      do { m \<leftarrow> apply_attr I (fst a) (snd a) msg; parse_attrs I ?data limit (length (pre @ tlv a)) m }"
    using at guard by (subst parse_attrs.simps) (simp add: unat_len16 [OF fit] Let_def)
  have "parse_attrs I ((pre @ tlv a) @ tlvs as @ post) limit (length (pre @ tlv a)) m =
      do { m' \<leftarrow> apply_tlvs I as m;
           parse_attrs I ((pre @ tlv a) @ tlvs as @ post) limit
             (length (pre @ tlv a) + length (tlvs as)) m' }" for m
    using Cons.prems by (intro Cons.IH) (auto simp: tlv_dvd)
  then show ?case using step by (simp add: add.assoc)
qed

lemma find_integrity_tlvs:
  assumes "\<forall>a \<in> set as. fits_tlv a \<and> fst a \<noteq> STUN_ATTR_MESSAGE_INTEGRITY" "4 dvd length pre"
    and "length pre + length (tlvs as) + 4 \<le> limit"
  shows "find_integrity (pre @ tlvs as @ tlv (STUN_ATTR_MESSAGE_INTEGRITY, d) @ post) limit (length pre) =
    Some (length pre + length (tlvs as))"
  using assms
proof (induction as arbitrary: pre)
  case Nil
  then show ?case
    using c16.dec_in_bounds [of "length pre + 2" "pre @ tlv (STUN_ATTR_MESSAGE_INTEGRITY, d) @ post"]
    by (subst find_integrity.simps) (auto simp: tlv_def codec_simps)
next
  case (Cons a as)
  let ?data = "pre @ tlv a @ (tlvs as @ tlv (STUN_ATTR_MESSAGE_INTEGRITY, d) @ post)"
  have fit: "fits_tlv a" and no: "fst a \<noteq> STUN_ATTR_MESSAGE_INTEGRITY" using Cons.prems by auto
  note at = tlv_at [of pre a "tlvs as @ tlv (STUN_ATTR_MESSAGE_INTEGRITY, d) @ post"]
    tlv_next [OF Cons.prems(2), of a]
  have "find_integrity ?data limit (length pre) = find_integrity ?data limit (length (pre @ tlv a))"
    using at no Cons.prems(3) by (subst find_integrity.simps) (simp add: unat_len16 [OF fit])
  moreover have "find_integrity ((pre @ tlv a) @ tlvs as @ tlv (STUN_ATTR_MESSAGE_INTEGRITY, d) @ post)
      limit (length (pre @ tlv a)) = Some (length (pre @ tlv a) + length (tlvs as))"
    using Cons.prems by (intro Cons.IH) (auto simp: tlv_dvd)
  ultimately show ?case by (simp add: add.assoc)
qed

section \<open>Messages\<close>

lemma length_stun_header: "length txn = 12 \<Longrightarrow> length (stun_header ty len txn) = 20"
  by (simp add: stun_header_def)

lemma stun_header_fields:
  assumes "length txn = 12"
  shows "read16 (stun_header ty len txn @ rest) 0 = Some ty"
    and "read16 (stun_header ty len txn @ rest) 2 = Some len"
    and "read32 (stun_header ty len txn @ rest) 4 = Some STUN_MAGIC_COOKIE"
    and "rd (stun_header ty len txn @ rest) 8 12 = Some txn"
    and "rd (stun_header ty len txn @ rest) 0 2 = Some (write16 ty)"
    and "rd (stun_header ty len txn @ rest) 4 16 = Some (write32 STUN_MAGIC_COOKIE @ txn)"
proof -
  show "read16 (stun_header ty len txn @ rest) 0 = Some ty" by (simp add: stun_header_def)
  have "read16 (write16 ty @ write16 len @ (write32 STUN_MAGIC_COOKIE @ txn @ rest)) 2 = Some len"
    by (rule c16.dec_at) simp
  then show "read16 (stun_header ty len txn @ rest) 2 = Some len" by (simp add: stun_header_def)
  have "read32 ((write16 ty @ write16 len) @ write32 STUN_MAGIC_COOKIE @ (txn @ rest)) 4 =
      Some STUN_MAGIC_COOKIE" by (rule c32.dec_at) simp
  then show "read32 (stun_header ty len txn @ rest) 4 = Some STUN_MAGIC_COOKIE"
    by (simp add: stun_header_def)
  show "rd (stun_header ty len txn @ rest) 8 12 = Some txn"
    "rd (stun_header ty len txn @ rest) 0 2 = Some (write16 ty)"
    "rd (stun_header ty len txn @ rest) 4 16 = Some (write32 STUN_MAGIC_COOKIE @ txn)"
    using assms by (simp_all add: stun_header_def rd_def)
qed

text \<open>A message given by its type, its transaction id and its attributes.\<close>

definition message :: "u16 \<Rightarrow> TransactionId \<Rightarrow> (u16 \<times> bytes) list \<Rightarrow> bytes" where
  "message ty txn as = stun_header ty (word_of_nat (length (tlvs as))) txn @ tlvs as"

definition fits_message :: "TransactionId \<Rightarrow> (u16 \<times> bytes) list \<Rightarrow> bool" where
  "fits_message txn as \<longleftrightarrow> length txn = 12 \<and> length (tlvs as) \<le> 0xFFFF"

lemma fits_message_tlv: "fits_message txn as \<Longrightarrow> a \<in> set as \<Longrightarrow> fits_tlv a"
proof -
  assume fits: "fits_message txn as" and "a \<in> set as"
  then obtain xs ys where "as = xs @ a # ys" by (meson split_list)
  then have "length (snd a) \<le> length (tlvs as)" by (simp add: length_tlv)
  with fits show ?thesis by (simp add: fits_message_def fits_tlv_def)
qed

lemma build_message:
  "sb_attrs b = tlvs as \<Longrightarrow> build b = message (sb_msg_type b) (sb_txn_id b) as"
  by (simp add: build_def stun_image_def message_def)

lemma parse_message:
  assumes "fits_message txn as"
  shows "parse_stun I (message ty txn as @ rest) =
    do { m \<leftarrow> apply_tlvs I as (empty_message ty txn); accept m }"
proof -
  have txn: "length txn = 12" and len: "length (tlvs as) \<le> 0xFFFF"
    using assms by (simp_all add: fits_message_def)
  let ?hdr = "stun_header ty (word_of_nat (length (tlvs as))) txn"
  have hdr: "length ?hdr = 20" by (rule length_stun_header [OF txn])
  have n: "unat (word_of_nat (length (tlvs as)) :: u16) = length (tlvs as)"
    using len by (simp add: unat_of_nat)
  have "parse_attrs I (?hdr @ tlvs as @ rest) (20 + length (tlvs as)) (length ?hdr) m0 =
      do { m \<leftarrow> apply_tlvs I as m0;
           parse_attrs I (?hdr @ tlvs as @ rest) (20 + length (tlvs as)) (length ?hdr + length (tlvs as)) m }"
    for m0 using fits_message_tlv [OF assms] hdr by (intro parse_attrs_tlvs) auto
  moreover have "parse_attrs I data limit limit m = Some m" for data limit m
    by (simp add: parse_attrs.simps)
  ultimately show ?thesis
    using stun_header_fields [OF txn, of ty "word_of_nat (length (tlvs as))" "tlvs as @ rest"] hdr n
    by (simp add: parse_stun_def message_def Option.bind_assoc)
qed

lemma verify_message:
  assumes "fits_message txn (as @ [(STUN_ATTR_MESSAGE_INTEGRITY, d)] @ bs)"
    and "\<forall>a \<in> set as. fst a \<noteq> STUN_ATTR_MESSAGE_INTEGRITY" and "length d = 20"
  shows "verify_integrity HMAC (message ty txn (as @ [(STUN_ATTR_MESSAGE_INTEGRITY, d)] @ bs)) key =
    Some (take 20 (HMAC (bytes_of_string key)
      (stun_header ty (word_of_nat (length (tlvs as) + 24)) txn @ tlvs as)) = d)"
proof -
  let ?all = "as @ [(STUN_ATTR_MESSAGE_INTEGRITY, d)] @ bs"
  let ?mi = "tlv (STUN_ATTR_MESSAGE_INTEGRITY, d)"
  let ?hdr = "stun_header ty (word_of_nat (length (tlvs ?all))) txn"
  have txn: "length txn = 12" and len: "length (tlvs ?all) \<le> 0xFFFF"
    using assms(1) by (simp_all add: fits_message_def)
  have hdr: "length ?hdr = 20" by (rule length_stun_header [OF txn])
  have n: "unat (word_of_nat (length (tlvs ?all)) :: u16) = length (tlvs ?all)"
    using len by (simp only: unat_of_nat) simp
  have mi: "length ?mi = 24" using assms(3) by (simp add: length_tlv)
  have find: "find_integrity (?hdr @ tlvs as @ ?mi @ tlvs bs) (20 + length (tlvs ?all)) (length ?hdr) =
      Some (length ?hdr + length (tlvs as))"
    using fits_message_tlv [OF assms(1)] assms(2) hdr mi by (intro find_integrity_tlvs) auto
  have body: "rd (?hdr @ tlvs as @ ?mi @ tlvs bs) 20 (length (tlvs as)) = Some (tlvs as)"
    using hdr by (intro rd_append_mid) auto
  have "rd ((?hdr @ tlvs as @ write16 STUN_ATTR_MESSAGE_INTEGRITY @ write16 (word_of_nat (length d))) @
      d @ tlvs bs) (20 + length (tlvs as) + 4) 20 = Some d"
    using hdr assms(3) by (intro rd_append_mid) auto
  then have stored: "rd (?hdr @ tlvs as @ ?mi @ tlvs bs) (20 + length (tlvs as) + 4) 20 = Some d"
    using assms(3) by (simp add: tlv_def)
  have msg: "message ty txn ?all = ?hdr @ tlvs as @ ?mi @ tlvs bs" by (simp add: message_def)
  show ?thesis
    unfolding msg
    using stun_header_fields [OF txn, of ty "word_of_nat (length (tlvs ?all))" "tlvs as @ ?mi @ tlvs bs"]
      find body stored hdr n mi
    by (simp add: verify_integrity_def Let_def stun_header_def [of ty "word_of_nat (length (tlvs as)) + 24"]
        add.commute)
qed

section \<open>Building with a list of attributes\<close>

definition add_attrs :: "(u16 \<times> bytes) list \<Rightarrow> StunBuilder \<Rightarrow> StunBuilder" where
  "add_attrs as b = foldl (\<lambda>b a. add_attr (fst a) (snd a) b) b as"

lemma add_attrs_tlvs: "sb_attrs b = tlvs xs \<Longrightarrow> sb_attrs (add_attrs as b) = tlvs (xs @ as)"
proof (induction as arbitrary: b xs)
  case (Cons a as)
  then have "sb_attrs (add_attr (fst a) (snd a) b) = tlvs (xs @ [a])"
    using add_attr_tlvs [of b xs "fst a" "snd a"] by simp
  from Cons.IH [OF this] show ?case by (simp add: add_attrs_def)
qed (simp add: add_attrs_def)

lemma add_attrs_frame [simp]:
  "sb_msg_type (add_attrs as b) = sb_msg_type b" "sb_txn_id (add_attrs as b) = sb_txn_id b"
  by (induction as arbitrary: b) (simp_all add: add_attrs_def)

lemma new_builder_simps [simp]:
  "sb_msg_type (new_builder ty txn) = ty" "sb_txn_id (new_builder ty txn) = txn"
  "sb_attrs (new_builder ty txn) = tlvs []"
  by (simp_all add: new_builder_def)

lemma add_attrs_new: "sb_attrs (add_attrs as (new_builder ty txn)) = tlvs as"
  using add_attrs_tlvs [of "new_builder ty txn" "[]"] by simp

definition integrity_digest :: "hmac \<Rightarrow> string \<Rightarrow> u16 \<Rightarrow> TransactionId \<Rightarrow> (u16 \<times> bytes) list \<Rightarrow> bytes" where
  "integrity_digest HMAC key ty txn as =
     take 20 (HMAC (bytes_of_string key)
       (stun_header ty (word_of_nat (length (tlvs as) + 24)) txn @ tlvs as))"

lemma add_integrity_tlvs:
  "sb_attrs b = tlvs as \<Longrightarrow> sb_attrs (add_integrity HMAC key b) =
     tlvs (as @ [(STUN_ATTR_MESSAGE_INTEGRITY, integrity_digest HMAC key (sb_msg_type b) (sb_txn_id b) as)])"
  unfolding add_integrity_def by (simp add: add_attr_tlvs stun_image_def integrity_digest_def)

lemma add_integrity_frame [simp]:
  "sb_msg_type (add_integrity HMAC key b) = sb_msg_type b"
  "sb_txn_id (add_integrity HMAC key b) = sb_txn_id b"
  by (simp_all add: add_integrity_def)

lemma build_integrity:
  "build (add_attrs bs (add_integrity HMAC key (add_attrs as (new_builder ty txn)))) =
   message ty txn (as @ [(STUN_ATTR_MESSAGE_INTEGRITY, integrity_digest HMAC key ty txn as)] @ bs)"
proof -
  have "sb_attrs (add_integrity HMAC key (add_attrs as (new_builder ty txn))) =
      tlvs (as @ [(STUN_ATTR_MESSAGE_INTEGRITY, integrity_digest HMAC key ty txn as)])"
    using add_integrity_tlvs [OF add_attrs_new [of as ty txn], of HMAC key] by simp
  from build_message [OF add_attrs_tlvs [OF this, of bs]] show ?thesis by simp
qed

definition hmac_ok :: "hmac \<Rightarrow> bool" where
  "hmac_ok HMAC \<longleftrightarrow> (\<forall>k m. length (HMAC k m) = 20)"

lemma length_integrity_digest: "hmac_ok HMAC \<Longrightarrow> length (integrity_digest HMAC key ty txn as) = 20"
  by (simp add: integrity_digest_def hmac_ok_def)

text \<open>A concrete keyed digest of 20 octets, for closed examples.\<close>

definition sample_hmac :: hmac where
  "sample_hmac k m = write32 (foldl crc_octet 0 (k @ m)) @ replicate 16 (word_of_nat (length m))"

lemma sample_hmac_ok: "hmac_ok sample_hmac"
  by (simp add: hmac_ok_def sample_hmac_def)

section \<open>Addresses\<close>

lemma xor_port_xor_port [simp]: "xor_port (xor_port p) = p"
  by (simp add: xor_port_def xor.assoc)

lemma map2_xor_cancel: "length b = length k \<Longrightarrow> map2 (XOR) (map2 (XOR) b k) k = b" for b k :: bytes
  by (rule nth_equalityI) (simp_all add: xor.assoc)

lemma decode_encode4:
  assumes "inet_pton4 I (c_str ip) = Some b" "length b = 4"
  shows "decode_xor_addr I (encode_xor_addr I ip port txn) txn' =
    accept \<lparr>ma_ip = inet_ntop4 I b, ma_port = port\<rparr>"
proof -
  obtain r where r: "read32 b 0 = Some r" using assms(2) c32.dec_in_bounds [of 0 b] by auto
  then have b: "write32 r = b" using c32.enc_dec [OF r] assms(2) by simp
  let ?enc = "[0, 1] @ write16 (xor_port port) @ write32 (r XOR STUN_MAGIC_COOKIE)"
  have enc: "encode_xor_addr I ip port txn = ?enc" using assms(1) r by (simp add: encode_xor_addr_def)
  have "read16 ?enc 2 = Some (xor_port port)" by (rule c16.dec_at) simp
  moreover have "read32 (([0, 1] @ write16 (xor_port port)) @ write32 (r XOR STUN_MAGIC_COOKIE) @ []) 4 =
      Some (r XOR STUN_MAGIC_COOKIE)" by (rule c32.dec_at) simp
  ultimately show ?thesis
    unfolding enc by (simp add: decode_xor_addr_def rd_def xor.assoc b)
qed

lemma decode_encode6:
  assumes "inet_pton4 I (c_str ip) = None" "inet_pton6 I (c_str ip) = Some b" "length b = 16"
    and "length txn = 12"
  shows "decode_xor_addr I (encode_xor_addr I ip port txn) txn =
    accept \<lparr>ma_ip = inet_ntop6 I b, ma_port = port\<rparr>"
proof -
  have key: "length b = length (xor_key txn)" using assms(3,4) by (simp add: xor_key_def)
  let ?enc = "[0, 2] @ write16 (xor_port port) @ map2 (XOR) b (xor_key txn)"
  have enc: "encode_xor_addr I ip port txn = ?enc" using assms by (simp add: encode_xor_addr_def)
  have "read16 ?enc 2 = Some (xor_port port)" by (rule c16.dec_at) simp
  then show ?thesis
    unfolding enc using assms(3) key map2_xor_cancel [OF key]
    by (simp add: decode_xor_addr_def rd_def)
qed

section \<open>Properties\<close>

text \<open>C22: \<open>parse_stun\<close> is memory safe and total: whatever octets arrive, no read leaves the buffer (nor
  the value of the attribute being decoded) and the loop over the attributes ends with a result.\<close>

theorem parse_stun_total: "\<exists>r. parse_stun I data = Some r"
  using parse_stun_safe [of I data] by (auto simp: safe_ex)

text \<open>C23: Build/parse round trip: for every list of attributes whose encoding fits the 16-bit length
  field, the parser reads from the built message (also when octets follow it) the type, the
  transaction id and exactly these attributes, in the order they were added.\<close>

theorem stun_roundtrip:
  assumes "length txn = 12" and "length (tlvs as) \<le> 0xFFFF"
  shows "parse_stun I (build (add_attrs as (new_builder ty txn)) @ rest) =
    do { m \<leftarrow> apply_tlvs I as (empty_message ty txn); accept m }"
  using parse_message [of txn as I ty rest] build_message [OF add_attrs_new [of as ty txn]] assms
  by (simp add: fits_message_def)

theorem stun_roundtrip_witness:
  "parse_stun sample_inet (build (add_attrs [(STUN_ATTR_PRIORITY, write32 7), (STUN_ATTR_USE_CANDIDATE, [])]
      (new_builder STUN_BINDING_REQUEST (replicate 12 5))) @ [1, 2]) =
    accept ((empty_message STUN_BINDING_REQUEST (replicate 12 5))
      \<lparr>sm_priority := Some 7, sm_use_candidate := True\<rparr>)"
  using stun_roundtrip [of "replicate 12 5"
      "[(STUN_ATTR_PRIORITY, write32 7), (STUN_ATTR_USE_CANDIDATE, [])]" sample_inet STUN_BINDING_REQUEST "[1, 2]"]
    c32.dec_front [of 7 "[]"]
  by (simp add: length_tlv apply_attr_def stun_consts)

text \<open>C24: \<open>verify_integrity\<close> decides whether the digest matches: on a message built with
  \<open>add_integrity\<close> under \<open>key\<close> (no earlier MESSAGE-INTEGRITY, any attributes after it), it reads only
  inside the message, accepts under the same key, and under another key accepts exactly when the
  two keys give the same digest of the covered octets.\<close>

theorem verify_integrity_correct:
  assumes "hmac_ok HMAC" and "length txn = 12"
    and "\<forall>a \<in> set as. fst a \<noteq> STUN_ATTR_MESSAGE_INTEGRITY"
    and "length (tlvs as) + 24 + length (tlvs bs) \<le> 0xFFFF"
  shows "verify_integrity HMAC
      (build (add_attrs bs (add_integrity HMAC key (add_attrs as (new_builder ty txn))))) key' =
    Some (integrity_digest HMAC key' ty txn as = integrity_digest HMAC key ty txn as)"
proof -
  let ?d = "integrity_digest HMAC key ty txn as"
  have d: "length ?d = 20" by (rule length_integrity_digest [OF assms(1)])
  have "fits_message txn (as @ [(STUN_ATTR_MESSAGE_INTEGRITY, ?d)] @ bs)"
    using assms(2,4) d by (simp add: fits_message_def length_tlv)
  from verify_message [OF this assms(3) d, of HMAC ty key'] show ?thesis
    unfolding build_integrity by (simp add: integrity_digest_def)
qed

theorem verify_integrity_correct_witness:
  "verify_integrity sample_hmac (build (add_attrs [(STUN_ATTR_FINGERPRINT, [1, 2, 3, 4])]
     (add_integrity sample_hmac ''secret''
       (add_attrs [(STUN_ATTR_USERNAME, [65, 66])] (new_builder STUN_BINDING_REQUEST (replicate 12 1))))))
     ''secret'' = Some True"
  using verify_integrity_correct [OF sample_hmac_ok, of "replicate 12 1" "[(STUN_ATTR_USERNAME, [65, 66])]"
      "[(STUN_ATTR_FINGERPRINT, [1, 2, 3, 4])]" "''secret''" STUN_BINDING_REQUEST "''secret''"]
  by (simp add: stun_consts length_tlv pad4_def)

text \<open>C28: What MESSAGE-INTEGRITY does not cover: attributes appended after it are accepted by the parser
  and do not disturb the check. A message that verifies still verifies, with the same key, when a
  USE-CANDIDATE attribute is appended without knowledge of the key, and the parser reports it.\<close>

theorem unauthenticated_trailer_accepted:
  assumes "hmac_ok HMAC" and "length txn = 12"
    and "\<forall>a \<in> set as. fst a \<noteq> STUN_ATTR_MESSAGE_INTEGRITY"
    and "length (tlvs as) + 28 \<le> 0xFFFF"
  shows "let forged = build (add_attrs [(STUN_ATTR_USE_CANDIDATE, [])]
        (add_integrity HMAC key (add_attrs as (new_builder ty txn))))
    in verify_integrity HMAC forged key = Some True \<and>
      (\<exists>m. parse_stun I forged = accept m \<and> sm_use_candidate m)"
proof -
  define forged where "forged = build (add_attrs [(STUN_ATTR_USE_CANDIDATE, [])]
    (add_integrity HMAC key (add_attrs as (new_builder ty txn))))"
  let ?d = "integrity_digest HMAC key ty txn as"
  let ?all = "(as @ [(STUN_ATTR_MESSAGE_INTEGRITY, ?d)]) @ [(STUN_ATTR_USE_CANDIDATE, [])]"
  have d: "length ?d = 20" by (rule length_integrity_digest [OF assms(1)])
  have fits: "fits_message txn ?all"
    using assms(2,4) d by (simp add: fits_message_def length_tlv)
  have msg: "forged = message ty txn ?all" unfolding forged_def build_integrity by simp
  obtain m where "apply_tlvs I (as @ [(STUN_ATTR_MESSAGE_INTEGRITY, ?d)]) (empty_message ty txn) = Some m"
    using apply_tlvs_safe safe_ex by metis
  then have "apply_tlvs I ?all (empty_message ty txn) = Some (m\<lparr>sm_use_candidate := True\<rparr>)"
    by (simp only: apply_tlvs_append) (simp add: apply_attr_def stun_consts)
  then have "parse_stun I forged = accept (m\<lparr>sm_use_candidate := True\<rparr>)"
    using parse_message [OF fits, of I ty "[]"] by (simp add: msg)
  moreover have "verify_integrity HMAC forged key = Some True"
    using verify_message [OF fits [unfolded append_assoc] assms(3) d, of HMAC ty key]
    by (simp add: msg integrity_digest_def)
  ultimately show ?thesis unfolding Let_def forged_def [symmetric] by auto
qed

theorem unauthenticated_trailer_accepted_witness:
  "\<exists>m. parse_stun sample_inet (build (add_attrs [(STUN_ATTR_USE_CANDIDATE, [])]
      (add_integrity sample_hmac ''k'' (add_attrs [] (new_builder STUN_BINDING_REQUEST (replicate 12 1)))))) =
    accept m \<and> sm_use_candidate m"
  using unauthenticated_trailer_accepted [OF sample_hmac_ok, of "replicate 12 1" "[]" "''k''"
      STUN_BINDING_REQUEST sample_inet]
  by (simp add: Let_def)

text \<open>C29: \<open>verify_integrity\<close> is not memory safe on its own: a message whose MESSAGE-INTEGRITY attribute is
  the last one and has a value of at most 16 octets makes the comparison read past the buffer,
  although the parser accepts the same message and reports an integrity attribute.\<close>

theorem verify_integrity_overread:
  assumes "fits_message txn (as @ [(STUN_ATTR_MESSAGE_INTEGRITY, d)])"
    and "\<forall>a \<in> set as. fst a \<noteq> STUN_ATTR_MESSAGE_INTEGRITY"
    and "length d \<le> 16" and "24 \<le> length (tlvs as) + 4 + length d"
  shows "verify_integrity HMAC (message ty txn (as @ [(STUN_ATTR_MESSAGE_INTEGRITY, d)])) key = None \<and>
    (\<exists>m. parse_stun I (message ty txn (as @ [(STUN_ATTR_MESSAGE_INTEGRITY, d)])) = accept m \<and>
       sm_has_integrity m)"
proof -
  let ?mi = "tlv (STUN_ATTR_MESSAGE_INTEGRITY, d)"
  let ?n = "length (tlvs as) + length ?mi"
  let ?raw = "stun_header ty (word_of_nat ?n) txn @ tlvs as @ ?mi @ []"
  have txn: "length txn = 12" and len: "?n \<le> 0xFFFF"
    using assms(1) by (simp_all add: fits_message_def)
  have hdr: "length (stun_header ty (word_of_nat ?n) txn) = 20" by (rule length_stun_header [OF txn])
  have msg: "message ty txn (as @ [(STUN_ATTR_MESSAGE_INTEGRITY, d)]) = ?raw" by (simp add: message_def)
  have n: "unat (word_of_nat ?n :: u16) = ?n" using len by (simp only: unat_of_nat) simp
  have "find_integrity ?raw (20 + ?n) (length (stun_header ty (word_of_nat ?n) txn)) =
      Some (length (stun_header ty (word_of_nat ?n) txn) + length (tlvs as))"
    using fits_message_tlv [OF assms(1)] assms(2) hdr
    by (intro find_integrity_tlvs) (auto simp: length_tlv)
  then have find: "find_integrity ?raw (20 + ?n) 20 = Some (20 + length (tlvs as))"
    using hdr by simp
  have "length d + pad4 (length d) \<le> 16" using pad4_le [of "length d" 4] assms(3) by simp
  then have short: "length ?mi \<le> 20" by (simp add: length_tlv)
  moreover have "\<not> length ?raw < 44" using hdr assms(4) by (simp add: length_tlv)
  ultimately have "verify_integrity HMAC ?raw key = None"
    using stun_header_fields(2) [OF txn, of ty "word_of_nat ?n" "tlvs as @ ?mi @ []"] find n hdr
    by (simp add: verify_integrity_def Let_def rd_def)
  moreover obtain m where m: "apply_tlvs I as (empty_message ty txn) = Some m"
    using apply_tlvs_safe safe_ex by metis
  then have "parse_stun I ?raw = accept (m\<lparr>sm_has_integrity := True\<rparr>)"
    unfolding msg [symmetric] using parse_message [OF assms(1), of I ty "[]"]
    by (simp add: apply_tlvs_append apply_attr_def stun_consts)
  ultimately show ?thesis unfolding msg by auto
qed

theorem verify_integrity_overread_witness:
  "verify_integrity sample_hmac (message STUN_BINDING_REQUEST (replicate 12 0)
     ([(STUN_ATTR_USERNAME, replicate 16 65)] @ [(STUN_ATTR_MESSAGE_INTEGRITY, [])])) ''k'' = None"
  using verify_integrity_overread [of "replicate 12 0" "[(STUN_ATTR_USERNAME, replicate 16 65)]" "[]"
      sample_hmac STUN_BINDING_REQUEST "''k''"]
  by (simp add: fits_message_def length_tlv stun_consts)

text \<open>XOR address round trip: an address attribute decodes to the canonical text of the address that
  was encoded and to the same port, for IPv4 and for IPv6 under the same transaction id, and
  text that is no address yields an attribute the receiver rejects.\<close>

theorem xor_address_roundtrip:
  assumes "inet_ok I" and "length txn = 12"
  shows "decode_xor_addr I (encode_xor_addr I ip port txn) txn =
    (case inet_pton4 I (c_str ip) of
       Some b \<Rightarrow> accept \<lparr>ma_ip = inet_ntop4 I b, ma_port = port\<rparr>
     | None \<Rightarrow> (case inet_pton6 I (c_str ip) of
         Some b \<Rightarrow> accept \<lparr>ma_ip = inet_ntop6 I b, ma_port = port\<rparr>
       | None \<Rightarrow> reject))"
proof (cases "inet_pton4 I (c_str ip)")
  case (Some b)
  then show ?thesis using decode_encode4 [OF Some] inet_okD(1) [OF assms(1) Some] by simp
next
  case None
  show ?thesis
  proof (cases "inet_pton6 I (c_str ip)")
    case (Some b)
    then show ?thesis
      using decode_encode6 [OF None Some] inet_okD(2) [OF assms(1) Some] assms(2) None by simp
  qed (simp add: None encode_xor_addr_def decode_xor_addr_def)
qed

theorem xor_address_roundtrip_witness:
  "decode_xor_addr sample_inet (encode_xor_addr sample_inet ''10.0.0.7'' 5000 (replicate 12 3))
     (replicate 12 3) = accept \<lparr>ma_ip = ''10.0.0.7'', ma_port = 5000\<rparr>"
proof -
  have "inet_pton4 sample_inet (c_str ''10.0.0.7'') = Some [10, 0, 0, 7]"
    "inet_ntop4 sample_inet [10, 0, 0, 7] = ''10.0.0.7''"
    by code_simp+
  then show ?thesis
    using xor_address_roundtrip [OF sample_inet_ok, of "replicate 12 3" "''10.0.0.7''" 5000] by simp
qed

end
