(* ===== verification/Path_Mtu.thy ===== *)
theory Path_Mtu
  imports Ice_Prelude
begin

text \<open>
  The path-MTU search of \<open>src/path_mtu.cpp\<close> and \<open>src/path_mtu.hpp\<close> (class \<open>PathMtuProbe\<close>): its
  state, its constructor and its two events. The lemmas give the invariant of the search, a
  measure that every event decreases, and the quality of the answer on a path that delivers
  exactly the packets up to some size. \<open>size_t\<close> values are natural numbers: all of them are
  bounded by an \<open>int\<close> of the ladder, so the sum of two does not overflow.
\<close>

section \<open>Definitions\<close>

definition kProbeGranularity :: nat where "kProbeGranularity = 8"
definition kProbeLossThreshold :: nat where "kProbeLossThreshold = 2"

datatype PathMtuState = Base | Searching | SearchComplete | Error

record PathMtuProbe =
  pm_base :: nat
  pm_steps :: "int list"
  pm_ladder_idx :: nat
  pm_low :: nat
  pm_high :: nat
  pm_current :: nat
  pm_effective :: nat
  pm_loss_count :: nat
  pm_state :: PathMtuState

text \<open>The constructor: sort, drop duplicates, drop what is not above the base.\<close>

definition new_probe :: "nat \<Rightarrow> int list \<Rightarrow> PathMtuProbe" where
  "new_probe base steps =
     (let steps = sort steps;
          steps = remdups_adj steps;
          steps = filter (\<lambda>v. \<not> (v \<le> 0 \<or> nat v \<le> base)) steps;
          p = \<lparr>pm_base = base, pm_steps = steps, pm_ladder_idx = 0, pm_low = 0, pm_high = 0,
               pm_current = 0, pm_effective = base, pm_loss_count = 0, pm_state = Base\<rparr>
      in if steps = [] then p\<lparr>pm_state := SearchComplete\<rparr>
         else p\<lparr>pm_state := Searching, pm_ladder_idx := 0, pm_current := nat (steps ! 0)\<rparr>)"

definition next_probe_size :: "PathMtuProbe \<Rightarrow> nat option" where
  "next_probe_size p =
     (if pm_state p = SearchComplete then None
      else if pm_current p = 0 then None
      else Some (pm_current p))"

definition on_probe_ack :: "PathMtuProbe \<Rightarrow> PathMtuProbe" where
  "on_probe_ack p =
     (if pm_state p = SearchComplete then p
      else
        let p = p\<lparr>pm_effective := pm_current p, pm_loss_count := 0\<rparr>
        in if pm_high p \<noteq> 0
           then let p = p\<lparr>pm_low := pm_current p\<rparr>
                in if pm_high p - pm_low p \<le> kProbeGranularity
                   then p\<lparr>pm_state := SearchComplete, pm_current := 0\<rparr>
                   else p\<lparr>pm_current := (pm_low p + pm_high p) div 2, pm_state := Searching\<rparr>
           else if pm_ladder_idx p + 1 \<ge> length (pm_steps p)
           then p\<lparr>pm_state := SearchComplete, pm_current := 0\<rparr>
           else let p = p\<lparr>pm_ladder_idx := pm_ladder_idx p + 1\<rparr>
                in p\<lparr>pm_current := nat (pm_steps p ! pm_ladder_idx p), pm_state := Searching\<rparr>)"

definition on_probe_loss :: "PathMtuProbe \<Rightarrow> PathMtuProbe" where
  "on_probe_loss p =
     (if pm_state p = SearchComplete then p
      else
        let p = p\<lparr>pm_loss_count := pm_loss_count p + 1\<rparr>
        in if pm_loss_count p < kProbeLossThreshold then p
           else
             let p = p\<lparr>pm_loss_count := 0, pm_state := Error\<rparr>;
                 p = p\<lparr>pm_high := pm_current p, pm_low := pm_effective p\<rparr>
             in if pm_high p - pm_low p \<le> kProbeGranularity
                then p\<lparr>pm_state := SearchComplete, pm_current := 0\<rparr>
                else p\<lparr>pm_current := (pm_low p + pm_high p) div 2, pm_state := Searching\<rparr>)"

definition effective_mtu :: "PathMtuProbe \<Rightarrow> nat" where
  "effective_mtu p = pm_effective p"

definition is_complete :: "PathMtuProbe \<Rightarrow> bool" where
  "is_complete p \<longleftrightarrow> pm_state p = SearchComplete"

lemmas pmtu_consts = kProbeGranularity_def kProbeLossThreshold_def

text \<open>The events the session feeds to the probe.\<close>

datatype ProbeEvent = Ack | Loss

fun probe_event :: "ProbeEvent \<Rightarrow> PathMtuProbe \<Rightarrow> PathMtuProbe" where
  "probe_event Ack p = on_probe_ack p"
| "probe_event Loss p = on_probe_loss p"

definition probe_step :: "ProbeEvent \<Rightarrow> PathMtuProbe \<Rightarrow> PathMtuProbe \<times> nat list" where
  "probe_step e p = (let p' = probe_event e p in (p', [effective_mtu p']))"

text \<open>
  A path that delivers exactly the packets of at most \<open>mtu\<close> octets, probed until the search
  is complete (\<open>fuel\<close> bounds the number of probes).
\<close>

fun probe_path :: "nat \<Rightarrow> nat \<Rightarrow> PathMtuProbe \<Rightarrow> PathMtuProbe" where
  "probe_path mtu 0 p = p"
| "probe_path mtu (Suc fuel) p =
     (case next_probe_size p of
        None \<Rightarrow> p
      | Some sz \<Rightarrow> probe_path mtu fuel (if sz \<le> mtu then on_probe_ack p else on_probe_loss p))"

section \<open>The invariant\<close>

definition rungs_ok :: "PathMtuProbe \<Rightarrow> bool" where
  "rungs_ok p \<longleftrightarrow> sorted_wrt (<) (pm_steps p) \<and> (\<forall>v \<in> set (pm_steps p). nat v > pm_base p)"

definition pmtu_inv :: "PathMtuProbe \<Rightarrow> bool" where
  "pmtu_inv p \<longleftrightarrow> rungs_ok p \<and> pm_base p \<le> pm_effective p \<and> pm_loss_count p < kProbeLossThreshold \<and>
     (pm_state p = Searching \<or> pm_state p = SearchComplete) \<and>
     (pm_state p = Searching \<longrightarrow>
        pm_effective p < pm_current p \<and>
        (if pm_high p = 0
         then pm_ladder_idx p < length (pm_steps p) \<and> pm_current p = nat (pm_steps p ! pm_ladder_idx p)
         else pm_low p = pm_effective p \<and> pm_current p < pm_high p \<and>
              pm_high p - pm_low p > kProbeGranularity \<and> pm_current p = (pm_low p + pm_high p) div 2))"

lemma rungs_ok_frame:
  "pm_steps p = pm_steps q \<Longrightarrow> pm_base p = pm_base q \<Longrightarrow> rungs_ok p = rungs_ok q"
  by (simp add: rungs_ok_def)

lemma strict_remdups_adj: "sorted xs \<Longrightarrow> sorted_wrt (<) (remdups_adj xs)" for xs :: "int list"
  by (induction xs rule: remdups_adj.induct) (auto simp: le_less)

lemma sorted_filter_strict:
  "sorted_wrt (<) (filter P (remdups_adj (sort xs)))" for xs :: "int list"
  by (intro sorted_wrt_filter strict_remdups_adj) simp

lemma new_probe_inv: "pmtu_inv (new_probe base steps)"
proof -
  let ?s = "filter (\<lambda>v. \<not> (v \<le> 0 \<or> nat v \<le> base)) (remdups_adj (sort steps))"
  have "\<forall>v \<in> set ?s. nat v > base" by auto
  moreover have "?s \<noteq> [] \<Longrightarrow> ?s ! 0 \<in> set ?s" by (intro nth_mem) simp
  ultimately show ?thesis
    using sorted_filter_strict [of "\<lambda>v. \<not> (v \<le> 0 \<or> nat v \<le> base)" steps]
    by (simp add: new_probe_def Let_def pmtu_inv_def rungs_ok_def pmtu_consts not_le)
qed

lemma midpoint: "h - l > 8 \<Longrightarrow> l < (l + h) div 2 \<and> (l + h) div 2 < h" for l h :: nat
  by linarith

lemma next_rung_greater:
  assumes "rungs_ok p" "Suc i < length (pm_steps p)"
  shows "nat (pm_steps p ! i) < nat (pm_steps p ! Suc i)"
proof -
  have "pm_steps p ! i < pm_steps p ! Suc i"
    using assms by (auto simp: rungs_ok_def sorted_wrt_iff_nth_less)
  moreover have "nat (pm_steps p ! Suc i) > pm_base p"
    using assms by (auto simp: rungs_ok_def)
  ultimately show ?thesis by linarith
qed

lemma on_probe_ack_inv: "pmtu_inv p \<Longrightarrow> pmtu_inv (on_probe_ack p)"
  using next_rung_greater [of p "pm_ladder_idx p"] midpoint [of "pm_current p" "pm_high p"]
  by (auto simp: pmtu_inv_def on_probe_ack_def Let_def pmtu_consts rungs_ok_def)

lemma on_probe_loss_inv: "pmtu_inv p \<Longrightarrow> pmtu_inv (on_probe_loss p)"
  using midpoint [of "pm_effective p" "pm_current p"]
  by (auto simp: pmtu_inv_def on_probe_loss_def Let_def pmtu_consts rungs_ok_def)

lemma probe_event_inv: "pmtu_inv p \<Longrightarrow> pmtu_inv (probe_event e p)"
  by (cases e) (simp_all add: on_probe_ack_inv on_probe_loss_inv)

text \<open>No event lowers the effective MTU, so every value reported stays a lower bound.\<close>

lemma probe_event_mono: "pmtu_inv p \<Longrightarrow> pm_effective p \<le> pm_effective (probe_event e p)"
  by (cases e) (auto simp: pmtu_inv_def on_probe_ack_def on_probe_loss_def Let_def)

lemma probe_event_frame:
  "pm_base (probe_event e p) = pm_base p" "pm_steps (probe_event e p) = pm_steps p"
  by (cases e; simp add: on_probe_ack_def on_probe_loss_def Let_def)+

interpretation pmtu: machine probe_step pmtu_inv "\<lambda>p v. v \<le> pm_effective p"
proof unfold_locales
  fix s out e
  show "pmtu_inv s \<Longrightarrow> pmtu_inv (fst (probe_step e s))"
    by (simp add: probe_step_def Let_def probe_event_inv)
  show "pmtu_inv s \<Longrightarrow> out \<in> set (snd (probe_step e s)) \<Longrightarrow> out \<le> pm_effective (fst (probe_step e s))"
    by (simp add: probe_step_def Let_def effective_mtu_def)
  show "pmtu_inv s \<Longrightarrow> out \<le> pm_effective s \<Longrightarrow> out \<le> pm_effective (fst (probe_step e s))"
    using probe_event_mono [of s e] by (simp add: probe_step_def Let_def)
qed

section \<open>Termination of the search\<close>

definition top_rung :: "PathMtuProbe \<Rightarrow> nat" where
  "top_rung p = (if pm_steps p = [] then pm_base p else nat (last (pm_steps p)))"

definition search_measure :: "PathMtuProbe \<Rightarrow> nat" where
  "search_measure p =
     (if pm_state p = SearchComplete then 0
      else 2 * (if pm_high p = 0 then length (pm_steps p) - pm_ladder_idx p + top_rung p + 1
                else pm_high p - pm_low p) - pm_loss_count p)"

lemma rung_le_top:
  assumes "rungs_ok p" "i < length (pm_steps p)"
  shows "nat (pm_steps p ! i) \<le> top_rung p"
proof -
  have ne: "pm_steps p \<noteq> []" using assms(2) by auto
  have "pm_steps p ! i \<le> last (pm_steps p)"
  proof (cases "i = length (pm_steps p) - 1")
    case True
    then show ?thesis using ne by (simp add: last_conv_nth)
  next
    case False
    then have "i < length (pm_steps p) - 1" "length (pm_steps p) - 1 < length (pm_steps p)"
      using assms(2) ne by auto
    then show ?thesis
      using assms(1) ne by (auto simp: rungs_ok_def sorted_wrt_iff_nth_less last_conv_nth intro: less_imp_le)
  qed
  then show ?thesis using ne by (simp add: top_rung_def nat_mono)
qed

lemma top_rung_event [simp]: "top_rung (probe_event e p) = top_rung p"
  by (simp add: top_rung_def probe_event_frame)

lemma ack_measure:
  assumes "pmtu_inv p" "\<not> is_complete p"
  shows "search_measure (on_probe_ack p) < search_measure p"
  using assms top_rung_event [of Ack p]
  by (auto simp: pmtu_inv_def is_complete_def search_measure_def on_probe_ack_def Let_def pmtu_consts
      top_rung_def)

lemma loss_measure:
  assumes "pmtu_inv p" "\<not> is_complete p"
  shows "search_measure (on_probe_loss p) < search_measure p"
proof -
  define X where "X = (if pm_high p = 0 then length (pm_steps p) - pm_ladder_idx p + top_rung p + 1
    else pm_high p - pm_low p)"
  have st: "pm_state p = Searching" using assms by (auto simp: pmtu_inv_def is_complete_def)
  have inv: "rungs_ok p" "pm_loss_count p = 0 \<or> pm_loss_count p = 1"
    "pm_effective p < pm_current p"
    using assms st by (auto simp: pmtu_inv_def pmtu_consts)
  have X: "pm_current p - pm_effective p < X"
  proof (cases "pm_high p = 0")
    case True
    then have "pm_current p \<le> top_rung p"
      using assms st rung_le_top [OF inv(1)] by (auto simp: pmtu_inv_def)
    then show ?thesis using True by (simp add: X_def)
  next
    case False
    then show ?thesis using assms st inv(3) by (auto simp: pmtu_inv_def X_def)
  qed
  have m: "search_measure p = 2 * X - pm_loss_count p"
    using st by (simp add: search_measure_def X_def)
  from inv(2) show ?thesis
  proof
    assume "pm_loss_count p = 0"
    then have "search_measure (on_probe_loss p) = 2 * X - 1"
      using st by (simp add: search_measure_def on_probe_loss_def Let_def pmtu_consts X_def top_rung_def)
    then show ?thesis using m X \<open>pm_loss_count p = 0\<close> by simp
  next
    assume "pm_loss_count p = 1"
    then have "search_measure (on_probe_loss p) \<le> 2 * (pm_current p - pm_effective p)"
      using st inv(3) by (simp add: search_measure_def on_probe_loss_def Let_def pmtu_consts)
    then show ?thesis using m X \<open>pm_loss_count p = 1\<close> by simp
  qed
qed

lemma event_measure:
  "pmtu_inv p \<Longrightarrow> \<not> is_complete p \<Longrightarrow> search_measure (probe_event e p) < search_measure p"
  by (cases e) (simp_all add: ack_measure loss_measure)

lemma complete_stable: "is_complete p \<Longrightarrow> probe_event e p = p"
  by (cases e) (simp_all add: is_complete_def on_probe_ack_def on_probe_loss_def)

section \<open>The answer on a path with a fixed limit\<close>

definition path_inv :: "nat \<Rightarrow> PathMtuProbe \<Rightarrow> bool" where
  "path_inv mtu p \<longleftrightarrow> pmtu_inv p \<and> pm_effective p \<le> mtu \<and> (pm_high p \<noteq> 0 \<longrightarrow> mtu < pm_high p) \<and>
     (is_complete p \<longrightarrow>
        pm_high p \<noteq> 0 \<and> pm_high p - pm_effective p \<le> kProbeGranularity \<or> pm_effective p = top_rung p)"

lemma new_probe_path_inv: "base \<le> mtu \<Longrightarrow> path_inv mtu (new_probe base steps)"
  using new_probe_inv [of base steps]
  by (auto simp: path_inv_def new_probe_def Let_def is_complete_def top_rung_def)

lemma ack_path_inv:
  assumes "path_inv mtu p" "\<not> is_complete p" "pm_current p \<le> mtu"
  shows "path_inv mtu (on_probe_ack p)"
proof -
  have inv: "pmtu_inv p" and st: "pm_state p = Searching"
    using assms by (auto simp: path_inv_def pmtu_inv_def is_complete_def)
  have last: "pm_current p = top_rung p" if "pm_high p = 0" "pm_ladder_idx p + 1 \<ge> length (pm_steps p)"
  proof -
    have "pm_ladder_idx p = length (pm_steps p) - 1" "pm_steps p \<noteq> []"
      using that inv st by (auto simp: pmtu_inv_def)
    then show ?thesis using that inv st by (auto simp: pmtu_inv_def top_rung_def last_conv_nth)
  qed
  show ?thesis
    using assms st last on_probe_ack_inv [OF inv]
    by (auto simp: path_inv_def is_complete_def on_probe_ack_def Let_def top_rung_def)
qed

lemma loss_path_inv:
  assumes "path_inv mtu p" "\<not> is_complete p" "\<not> pm_current p \<le> mtu"
  shows "path_inv mtu (on_probe_loss p)"
proof -
  have inv: "pmtu_inv p" and st: "pm_state p = Searching"
    using assms by (auto simp: path_inv_def pmtu_inv_def is_complete_def)
  show ?thesis
    using assms st on_probe_loss_inv [OF inv]
    by (auto simp: path_inv_def is_complete_def on_probe_loss_def Let_def top_rung_def)
qed

lemma next_probe_size_inv:
  "pmtu_inv p \<Longrightarrow> next_probe_size p = (if is_complete p then None else Some (pm_current p))"
  by (auto simp: next_probe_size_def is_complete_def pmtu_inv_def)

lemma probe_path_inv:
  assumes "path_inv mtu p" "search_measure p \<le> fuel"
  shows "path_inv mtu (probe_path mtu fuel p) \<and> is_complete (probe_path mtu fuel p)"
  using assms
proof (induction fuel arbitrary: p)
  case 0
  then have "pmtu_inv p" by (simp add: path_inv_def)
  then show ?case using 0 event_measure [of p Ack] by fastforce
next
  case (Suc fuel)
  have inv: "pmtu_inv p" using Suc.prems by (simp add: path_inv_def)
  show ?case
  proof (cases "is_complete p")
    case True
    then show ?thesis using Suc.prems next_probe_size_inv [OF inv] by simp
  next
    case False
    let ?q = "if pm_current p \<le> mtu then on_probe_ack p else on_probe_loss p"
    have "path_inv mtu ?q"
      using Suc.prems False by (simp add: ack_path_inv loss_path_inv)
    moreover have "search_measure ?q < search_measure p"
      using ack_measure [OF inv False] loss_measure [OF inv False] by simp
    ultimately show ?thesis
      using Suc.IH [of ?q] Suc.prems(2) next_probe_size_inv [OF inv] False by simp
  qed
qed

lemma run_complete:
  "pmtu_inv p \<Longrightarrow> search_measure p \<le> length es \<Longrightarrow> is_complete (fst (run_machine probe_step es p))"
proof (induction es arbitrary: p)
  case Nil
  then show ?case using event_measure [of p Ack] by fastforce
next
  case (Cons e es)
  have "search_measure (probe_event e p) \<le> length es"
    using Cons.prems event_measure [of p e] complete_stable [of p e]
    by (cases "is_complete p") (auto simp: search_measure_def is_complete_def)
  then show ?case
    using Cons.IH [OF probe_event_inv [OF Cons.prems(1)]]
    by (simp add: probe_step_def Let_def split_beta)
qed

section \<open>Properties\<close>

text \<open>C26: The path-MTU search ends: after any sequence of probe acknowledgements and losses, in any order,
  that is at least as long as the initial measure, the search is complete (and no further
  event changes it).\<close>

theorem pmtu_terminates:
  assumes "search_measure (new_probe base steps) \<le> length es"
  shows "is_complete (fst (run_machine probe_step es (new_probe base steps))) \<and>
    next_probe_size (fst (run_machine probe_step es (new_probe base steps))) = None"
  using run_complete [OF new_probe_inv assms] by (simp add: next_probe_size_def is_complete_def)

theorem pmtu_terminates_witness:
  "is_complete (fst (run_machine probe_step (replicate 3007 Loss) (new_probe 1200 [1500])))"
proof -
  have "search_measure (new_probe 1200 [1500]) = 3004"
    by (simp add: search_measure_def new_probe_def top_rung_def)
  then show ?thesis using pmtu_terminates [of 1200 "[1500]" "replicate 3007 Loss"] by simp
qed

text \<open>The effective path MTU never drops below the configured base and never decreases: in every run
  the final value is at least the base and at least every value reported on the way.\<close>

theorem pmtu_monotone:
  "(\<forall>v \<in> set (snd (run_machine probe_step es (new_probe base steps))).
      v \<le> effective_mtu (fst (run_machine probe_step es (new_probe base steps)))) \<and>
   base \<le> effective_mtu (fst (run_machine probe_step es (new_probe base steps)))"
proof -
  let ?r = "run_machine probe_step es (new_probe base steps)"
  have "pm_effective (new_probe base steps) = base" by (simp add: new_probe_def Let_def)
  then have "base \<le> pm_effective (fst ?r)"
    using pmtu.run_good_mono [OF new_probe_inv, of base base steps es] by simp
  then show ?thesis
    using pmtu.run_good [OF new_probe_inv] by (auto simp: effective_mtu_def)
qed

theorem pmtu_monotone_witness:
  "1200 \<le> effective_mtu (fst (run_machine probe_step [Ack, Loss] (new_probe 1200 [1400, 1500])))"
  using pmtu_monotone [of "[Ack, Loss]" 1200 "[1400, 1500]"] by blast

text \<open>C25: The answer of the search: on a path that delivers exactly the packets of at most \<open>mtu\<close> octets
  (with \<open>mtu\<close> at least the base), probing completes with an effective MTU that the path
  delivers and that is less than 8 octets below \<open>mtu\<close>, unless it is the top rung of the ladder.\<close>

theorem pmtu_accuracy:
  assumes "base \<le> mtu" and "search_measure (new_probe base steps) \<le> fuel"
  shows "let p = probe_path mtu fuel (new_probe base steps)
    in is_complete p \<and> effective_mtu p \<le> mtu \<and>
      (mtu < effective_mtu p + kProbeGranularity \<or> effective_mtu p = top_rung p)"
  using probe_path_inv [OF new_probe_path_inv [OF assms(1)] assms(2)]
  by (auto simp: Let_def path_inv_def effective_mtu_def)

theorem pmtu_accuracy_witness:
  "effective_mtu (probe_path 1450 3300 (new_probe 1200 [1400, 1500])) \<le> 1450"
proof -
  have "search_measure (new_probe 1200 [1400, 1500]) = 3006"
    by (simp add: search_measure_def new_probe_def top_rung_def)
  then show ?thesis using pmtu_accuracy [of 1200 1450 "[1400, 1500]" 3300] by (simp add: Let_def)
qed

end
