(* ===== verification/Turn_Client.thy ===== *)
theory Turn_Client
  imports Framing Stun_Parser
begin

text \<open>
  The TURN client of \<open>src/turn.cpp\<close> and \<open>src/turn.hpp\<close> (class \<open>TurnClient\<close>). The client is a
  record; every method is a function from the client to the new client and the list of its
  effects: bytes handed to the carrier, callbacks invoked, timers armed. OpenSSL (HMAC, MD5), the
  source of transaction ids, the address conversions and the conn ids the data-carrier
  factory returns are the fields of \<open>turn_env\<close>; the n-th transaction id and the n-th data
  carrier are \<open>te_txn E n\<close> and \<open>te_data_cid E n\<close>, counted in the client. The mutex only
  serialises methods and has no counterpart.
\<close>

section \<open>State\<close>

record turn_env =
  te_inet :: inet
  te_hmac :: hmac
  te_md5 :: "bytes \<Rightarrow> bytes"
  te_txn :: "nat \<Rightarrow> TransactionId"
  te_data_cid :: "nat \<Rightarrow> conn_id"

record TurnConfig =
  tcf_server :: string
  tcf_port :: u16
  tcf_username :: string
  tcf_password :: string
  tcf_tcp_transport :: bool
  tcf_tls_transport :: bool
  tcf_requested_transport :: byte

definition default_turn_config :: TurnConfig where
  "default_turn_config = \<lparr>tcf_server = [], tcf_port = 3478, tcf_username = [], tcf_password = [],
     tcf_tcp_transport = False, tcf_tls_transport = False,
     tcf_requested_transport = REQUESTED_TRANSPORT_UDP\<rparr>"

record PendingBind =
  pb_connection_id :: u32
  pb_peer_ip :: string
  pb_peer_port :: u16

record TurnClient =
  tc_carrier :: bool
  tc_server_cid :: conn_id
  tc_cfg :: TurnConfig
  tc_data_cb :: bool
  tc_alloc_cb :: bool
  tc_conn_attempt_cb :: bool
  tc_data_conn_cb :: bool
  tc_data_carrier_factory :: bool
  tc_allocated :: bool
  tc_refresh_healthy :: bool
  tc_relayed :: MappedAddress
  tc_realm :: string
  tc_nonce :: string
  tc_auth_key :: string
  tc_lifetime :: u32
  tc_permissions :: "string set"
  tc_peer_to_channel :: "string \<rightharpoonup> u16"
  tc_channel_to_peer :: "u16 \<rightharpoonup> string \<times> u16"
  tc_next_channel :: u16
  tc_rx_buffer :: bytes
  tc_pending_connects :: "string \<rightharpoonup> string \<times> u16"
  tc_pending_binds :: "conn_id \<rightharpoonup> PendingBind"
  tc_data_conn_rx_buffers :: "conn_id \<rightharpoonup> bytes"
  tc_data_connections :: "u32 \<rightharpoonup> conn_id"
  tc_bound_peers :: "conn_id \<rightharpoonup> string \<times> u16"
  tc_txn_count :: nat
  tc_data_cid_count :: nat

text \<open>Effects, in the order the code performs them.\<close>

datatype TurnAction =
    CarrierSend conn_id bytes
  | DataCb string u16 bytes
  | AllocCb string u16
  | ConnAttemptCb string u16 u32
  | DataConnCb u32 conn_id string u16
  | ArmRefreshTimer nat
  | CancelRefreshTimer
  | BadFunctionCall

type_synonym turn_result = "TurnClient \<times> TurnAction list"

definition new_turn_client :: "bool \<Rightarrow> conn_id \<Rightarrow> TurnConfig \<Rightarrow> bool \<Rightarrow> bool \<Rightarrow> TurnClient" where
  "new_turn_client carrier server_cid cfg data_cb alloc_cb =
     \<lparr>tc_carrier = carrier, tc_server_cid = server_cid, tc_cfg = cfg, tc_data_cb = data_cb,
      tc_alloc_cb = alloc_cb, tc_conn_attempt_cb = False, tc_data_conn_cb = False,
      tc_data_carrier_factory = False, tc_allocated = False, tc_refresh_healthy = True,
      tc_relayed = \<lparr>ma_ip = [], ma_port = 0\<rparr>, tc_realm = [], tc_nonce = [], tc_auth_key = [],
      tc_lifetime = 600, tc_permissions = {}, tc_peer_to_channel = Map.empty,
      tc_channel_to_peer = Map.empty, tc_next_channel = 0x4000, tc_rx_buffer = [],
      tc_pending_connects = Map.empty, tc_pending_binds = Map.empty,
      tc_data_conn_rx_buffers = Map.empty, tc_data_connections = Map.empty,
      tc_bound_peers = Map.empty, tc_txn_count = 0, tc_data_cid_count = 0\<rparr>"

definition is_healthy :: "TurnClient \<Rightarrow> bool" where
  "is_healthy c \<longleftrightarrow> tc_allocated c \<and> tc_refresh_healthy c"

section \<open>Sending\<close>

definition compute_auth_key :: "turn_env \<Rightarrow> TurnClient \<Rightarrow> TurnClient" where
  "compute_auth_key E c =
     (let input = tcf_username (tc_cfg c) @ '':'' @ tc_realm c @ '':'' @ tcf_password (tc_cfg c)
      in c\<lparr>tc_auth_key := string_of_bytes (take 16 (te_md5 E (bytes_of_string input)))\<rparr>)"

definition send_to_server :: "bytes \<Rightarrow> TurnClient \<Rightarrow> TurnAction list" where
  "send_to_server bs c =
     (if \<not> tc_carrier c \<or> tc_server_cid c = 0 then []
      else if tcf_tcp_transport (tc_cfg c) \<or> tcf_tls_transport (tc_cfg c)
      then let (ok, framed) = encode_stream_frame bs []
           in if ok then [CarrierSend (tc_server_cid c) framed] else []
      else [CarrierSend (tc_server_cid c) bs])"

definition send_framed_on_data_cid :: "conn_id \<Rightarrow> bytes \<Rightarrow> TurnClient \<Rightarrow> TurnAction list" where
  "send_framed_on_data_cid cid bs c =
     (if \<not> tc_carrier c \<or> cid = 0 then []
      else let (ok, framed) = encode_stream_frame bs []
           in if ok then [CarrierSend cid framed] else [])"

text \<open>A builder with the next transaction id.\<close>

definition fresh_builder :: "turn_env \<Rightarrow> u16 \<Rightarrow> TurnClient \<Rightarrow> StunBuilder \<times> TurnClient" where
  "fresh_builder E msg_type c =
     (new_builder msg_type (te_txn E (tc_txn_count c)), c\<lparr>tc_txn_count := tc_txn_count c + 1\<rparr>)"

text \<open>\<open>.add_username(..).add_realm(..).add_nonce(..).add_integrity(..).add_fingerprint()\<close>\<close>

definition add_credentials :: "turn_env \<Rightarrow> TurnClient \<Rightarrow> StunBuilder \<Rightarrow> StunBuilder" where
  "add_credentials E c b =
     add_fingerprint (add_integrity (te_hmac E) (tc_auth_key c)
       (add_nonce (tc_nonce c) (add_realm (tc_realm c) (add_username (tcf_username (tc_cfg c)) b))))"

definition allocate :: "turn_env \<Rightarrow> TurnClient \<Rightarrow> bool \<times> turn_result" where
  "allocate E c =
     (if tcf_server (tc_cfg c) = [] then (False, c, [])
      else if \<not> tc_carrier c \<or> tc_server_cid c = 0 then (False, c, [])
      else let (b, c) = fresh_builder E TURN_ALLOCATE_REQUEST c;
               msg = build (add_requested_transport (tcf_requested_transport (tc_cfg c)) b)
           in (True, c, send_to_server msg c))"

definition send_indication :: "turn_env \<Rightarrow> string \<Rightarrow> u16 \<Rightarrow> bytes \<Rightarrow> TurnClient \<Rightarrow> turn_result" where
  "send_indication E peer_ip peer_port data c =
     (let channel = (case tc_peer_to_channel c (endpoint_key peer_ip peer_port) of
                       Some ch \<Rightarrow> ch | None \<Rightarrow> 0)
      in if channel \<noteq> 0 then (c, send_to_server (encode_channel_data channel data) c)
         else let (b, c) = fresh_builder E TURN_SEND_INDICATION c;
                  msg = build (add_data data (add_xor_peer_address (te_inet E) peer_ip peer_port b))
              in (c, send_to_server msg c))"

definition bind_channel :: "turn_env \<Rightarrow> string \<Rightarrow> u16 \<Rightarrow> TurnClient \<Rightarrow> turn_result" where
  "bind_channel E peer_ip peer_port c =
     (if tcf_requested_transport (tc_cfg c) = REQUESTED_TRANSPORT_TCP then (c, [])
      else
        let key = endpoint_key peer_ip peer_port
        in if tc_peer_to_channel c key \<noteq> None then (c, [])
           else
             let channel = tc_next_channel c;
                 c = c\<lparr>tc_next_channel := tc_next_channel c + 1\<rparr>
             in if channel > TURN_CHANNEL_NUMBER_MAX then (c, [])
                else
                  let c = c\<lparr>tc_peer_to_channel := (tc_peer_to_channel c)(key \<mapsto> channel),
                            tc_channel_to_peer := (tc_channel_to_peer c)(channel \<mapsto> (peer_ip, peer_port)),
                            tc_permissions := insert peer_ip (tc_permissions c)\<rparr>;
                      (b, c) = fresh_builder E TURN_CHANNEL_BIND_REQUEST c;
                      msg = build (add_credentials E c
                        (add_xor_peer_address (te_inet E) peer_ip peer_port (add_channel_number channel b)))
                  in (c, send_to_server msg c))"

definition create_permission :: "turn_env \<Rightarrow> string \<Rightarrow> TurnClient \<Rightarrow> turn_result" where
  "create_permission E peer_ip c =
     (if peer_ip \<in> tc_permissions c then (c, [])
      else
        let c = c\<lparr>tc_permissions := insert peer_ip (tc_permissions c)\<rparr>;
            (b, c) = fresh_builder E TURN_CREATE_PERM_REQUEST c;
            msg = build (add_credentials E c (add_xor_peer_address (te_inet E) peer_ip 0 b))
        in (c, send_to_server msg c))"

section \<open>Allocation lifetime\<close>

definition refresh :: "turn_env \<Rightarrow> TurnClient \<Rightarrow> turn_result" where
  "refresh E c =
     (let (b, c) = fresh_builder E TURN_REFRESH_REQUEST c;
          msg = build (add_credentials E c (add_lifetime (tc_lifetime c) b))
      in (c, send_to_server msg c))"

definition turn_close :: "turn_env \<Rightarrow> TurnClient \<Rightarrow> turn_result" where
  "turn_close E c =
     (if \<not> tc_allocated c then (c, [CancelRefreshTimer])
      else
        let (b, c) = fresh_builder E TURN_REFRESH_REQUEST c;
            msg = build (add_credentials E c (add_lifetime 0 b))
        in (c\<lparr>tc_allocated := False\<rparr>, CancelRefreshTimer # send_to_server msg c))"

definition schedule_refresh :: "TurnClient \<Rightarrow> TurnAction list" where
  "schedule_refresh c = [ArmRefreshTimer (unat (tc_lifetime c div 2))]"

text \<open>The completion handler of the refresh timer, without an error code.\<close>

definition on_refresh_timer :: "turn_env \<Rightarrow> TurnClient \<Rightarrow> turn_result" where
  "on_refresh_timer E c =
     (if tc_allocated c
      then let (c, acts) = refresh E c in (c, acts @ schedule_refresh c)
      else (c, []))"

section \<open>Inbound messages\<close>

text \<open>
  A checked parse whose \<open>None\<close> (a read outside the buffer) cannot happen is consumed here:
  \<open>parse_stun\<close> and \<open>parse_channel_data\<close> are total.
\<close>

definition parsed_value :: "'a parsed \<Rightarrow> 'a option" where
  "parsed_value m = (case m of Some r \<Rightarrow> r | None \<Rightarrow> None)"

definition handle_channel_data :: "bytes \<Rightarrow> TurnClient \<Rightarrow> TurnAction list" where
  "handle_channel_data bs c =
     (case parsed_value (parse_channel_data bs) of
        None \<Rightarrow> []
      | Some frame \<Rightarrow>
         (case tc_channel_to_peer c (cd_channel frame) of
            None \<Rightarrow> []
          | Some (peer_ip, peer_port) \<Rightarrow>
              if tc_data_cb c then [DataCb peer_ip peer_port (cd_payload frame)] else []))"

definition handle_allocate_response :: "StunMessage \<Rightarrow> TurnClient \<Rightarrow> turn_result" where
  "handle_allocate_response msg c =
     (case sm_xor_relayed msg of
        None \<Rightarrow> (c, [])
      | Some relayed \<Rightarrow>
          let c = c\<lparr>tc_relayed := relayed, tc_allocated := True\<rparr>;
              c = (case sm_lifetime msg of Some l \<Rightarrow> c\<lparr>tc_lifetime := l\<rparr> | None \<Rightarrow> c)
          in (c, schedule_refresh c @
                 (if tc_alloc_cb c then [AllocCb (ma_ip relayed) (ma_port relayed)] else [])))"

text \<open>The only callback that is invoked without a test for an empty function object.\<close>

definition handle_data_indication :: "StunMessage \<Rightarrow> TurnClient \<Rightarrow> TurnAction list" where
  "handle_data_indication msg c =
     (case sm_xor_peer msg of
        Some peer \<Rightarrow>
          if sm_data msg \<noteq> []
          then (if tc_data_cb c then [DataCb (ma_ip peer) (ma_port peer) (sm_data msg)] else [BadFunctionCall])
          else []
      | None \<Rightarrow> [])"

definition open_data_connection :: "turn_env \<Rightarrow> u32 \<Rightarrow> string \<Rightarrow> u16 \<Rightarrow> TurnClient \<Rightarrow> turn_result" where
  "open_data_connection E connection_id peer_ip peer_port c =
     (if \<not> tc_data_carrier_factory c then (c, [])
      else
        let cid = te_data_cid E (tc_data_cid_count c);
            c = c\<lparr>tc_data_cid_count := tc_data_cid_count c + 1\<rparr>
        in if cid = 0 then (c, [])
           else
             let c = c\<lparr>tc_pending_binds := (tc_pending_binds c)(cid \<mapsto>
                         \<lparr>pb_connection_id = connection_id, pb_peer_ip = peer_ip, pb_peer_port = peer_port\<rparr>)\<rparr>;
                 (b, c) = fresh_builder E TURN_CONNECTION_BIND_REQUEST c;
                 b = add_connection_id connection_id b;
                 b = (if tc_realm c \<noteq> [] then add_credentials E c b else b)
             in (c, send_framed_on_data_cid cid (build b) c))"

definition handle_connect_response :: "turn_env \<Rightarrow> StunMessage \<Rightarrow> TurnClient \<Rightarrow> turn_result" where
  "handle_connect_response E msg c =
     (case sm_connection_id msg of
        None \<Rightarrow> (c, [])
      | Some connection_id \<Rightarrow>
          let key = string_of_bytes (sm_txn_id msg)
          in case tc_pending_connects c key of
               None \<Rightarrow> (c, [])
             | Some (peer_ip, peer_port) \<Rightarrow>
                 open_data_connection E connection_id peer_ip peer_port
                   (c\<lparr>tc_pending_connects := (tc_pending_connects c)(key := None)\<rparr>))"

definition handle_connection_attempt :: "turn_env \<Rightarrow> StunMessage \<Rightarrow> TurnClient \<Rightarrow> turn_result" where
  "handle_connection_attempt E msg c =
     (case (sm_connection_id msg, sm_xor_peer msg) of
        (Some cid, Some peer) \<Rightarrow>
          let (c, acts) = open_data_connection E cid (ma_ip peer) (ma_port peer) c
          in (c, (if tc_conn_attempt_cb c then [ConnAttemptCb (ma_ip peer) (ma_port peer) cid] else []) @ acts)
      | _ \<Rightarrow> (c, []))"

definition connect_to_peer :: "turn_env \<Rightarrow> string \<Rightarrow> u16 \<Rightarrow> TurnClient \<Rightarrow> turn_result" where
  "connect_to_peer E peer_ip peer_port c =
     (if tcf_requested_transport (tc_cfg c) \<noteq> REQUESTED_TRANSPORT_TCP then (c, [])
      else
        let (b, c) = fresh_builder E TURN_CONNECT_REQUEST c;
            b = add_xor_peer_address (te_inet E) peer_ip peer_port b;
            b = (if tc_realm c \<noteq> [] then add_credentials E c b else b);
            msg = build b;
            txn_key = (if length msg \<ge> 20 then string_of_bytes (take 12 (drop 8 msg)) else []);
            c = c\<lparr>tc_pending_connects := (tc_pending_connects c)(txn_key \<mapsto> (peer_ip, peer_port))\<rparr>
        in (c, send_to_server msg c))"

definition handle_allocate_error :: "turn_env \<Rightarrow> StunMessage \<Rightarrow> TurnClient \<Rightarrow> turn_result" where
  "handle_allocate_error E msg c =
     (if sm_error_code msg = Some 401 \<or> sm_error_code msg = Some 438
      then
        let c = (case sm_realm msg of Some r \<Rightarrow> c\<lparr>tc_realm := r\<rparr> | None \<Rightarrow> c);
            c = (case sm_nonce msg of Some n \<Rightarrow> c\<lparr>tc_nonce := n\<rparr> | None \<Rightarrow> c);
            c = compute_auth_key E c;
            (b, c) = fresh_builder E TURN_ALLOCATE_REQUEST c;
            req = build (add_credentials E c (add_requested_transport (tcf_requested_transport (tc_cfg c)) b))
        in (c, send_to_server req c)
      else (c, []))"

definition dispatch_inbound_message :: "turn_env \<Rightarrow> bytes \<Rightarrow> TurnClient \<Rightarrow> turn_result" where
  "dispatch_inbound_message E bs c =
     (if is_channel_data bs then (c, handle_channel_data bs c)
      else case parsed_value (parse_stun (te_inet E) bs) of
        None \<Rightarrow> (c, [])
      | Some msg \<Rightarrow>
          if sm_msg_type msg = TURN_ALLOCATE_ERROR then handle_allocate_error E msg c
          else if sm_msg_type msg = TURN_ALLOCATE_RESPONSE then handle_allocate_response msg c
          else if sm_msg_type msg = TURN_DATA_INDICATION then (c, handle_data_indication msg c)
          else if sm_msg_type msg = TURN_CHANNEL_BIND_RESPONSE then (c, [])
          else if sm_msg_type msg = TURN_CHANNEL_BIND_ERROR then (c, [])
          else if sm_msg_type msg = TURN_CONNECTION_ATTEMPT_INDICATION then handle_connection_attempt E msg c
          else if sm_msg_type msg = TURN_CONNECT_RESPONSE then handle_connect_response E msg c
          else (c, []))"

text \<open>No handler of an inbound message touches the reassembly buffer.\<close>

lemma fresh_builder_simps [simp]:
  "fst (fresh_builder E ty c) = new_builder ty (te_txn E (tc_txn_count c))"
  "snd (fresh_builder E ty c) = c\<lparr>tc_txn_count := tc_txn_count c + 1\<rparr>"
  by (simp_all add: fresh_builder_def)

lemma open_data_connection_rx [simp]:
  "tc_rx_buffer (fst (open_data_connection E i ip port c)) = tc_rx_buffer c"
  by (simp add: open_data_connection_def Let_def split_beta)

lemma handle_allocate_error_rx [simp]:
  "tc_rx_buffer (fst (handle_allocate_error E m c)) = tc_rx_buffer c"
  by (simp add: handle_allocate_error_def compute_auth_key_def Let_def split_beta split: option.split)

lemma handle_allocate_response_rx [simp]:
  "tc_rx_buffer (fst (handle_allocate_response m c)) = tc_rx_buffer c"
  by (simp add: handle_allocate_response_def Let_def split: option.split)

lemma handle_connect_response_rx [simp]:
  "tc_rx_buffer (fst (handle_connect_response E m c)) = tc_rx_buffer c"
  by (simp add: handle_connect_response_def Let_def split: option.split)

lemma handle_connection_attempt_rx [simp]:
  "tc_rx_buffer (fst (handle_connection_attempt E m c)) = tc_rx_buffer c"
  by (simp add: handle_connection_attempt_def Let_def split_beta split: option.split)

lemma dispatch_inbound_rx [simp]:
  "tc_rx_buffer (fst (dispatch_inbound_message E bs c)) = tc_rx_buffer c"
  by (simp add: dispatch_inbound_message_def split: option.split)

text \<open>\<open>while (try_take_stream_frame(rx_buffer_, frame)) dispatch_inbound_message(frame)\<close>\<close>

function on_inbound_loop :: "turn_env \<Rightarrow> TurnClient \<Rightarrow> turn_result" where
  "on_inbound_loop E c =
     (case try_take_stream_frame (tc_rx_buffer c) of
        None \<Rightarrow> (c, [])
      | Some (frame, rest) \<Rightarrow>
          let (c1, acts1) = dispatch_inbound_message E frame (c\<lparr>tc_rx_buffer := rest\<rparr>);
              (c2, acts2) = on_inbound_loop E c1
          in (c2, acts1 @ acts2))"
  by pat_completeness auto

lemma dispatch_inbound_rx_eq:
  "dispatch_inbound_message E bs c = (c', acts) \<Longrightarrow> tc_rx_buffer c' = tc_rx_buffer c"
  using dispatch_inbound_rx [of E bs c] by simp

termination on_inbound_loop
  by (relation "measure (\<lambda>(E, c). length (tc_rx_buffer c))")
     (auto dest!: try_take_shorter dispatch_inbound_rx_eq [OF sym])

declare on_inbound_loop.simps [simp del]

definition on_inbound :: "turn_env \<Rightarrow> bytes \<Rightarrow> TurnClient \<Rightarrow> turn_result" where
  "on_inbound E bs c =
     (if tcf_tcp_transport (tc_cfg c) \<or> tcf_tls_transport (tc_cfg c)
      then on_inbound_loop E (c\<lparr>tc_rx_buffer := tc_rx_buffer c @ bs\<rparr>)
      else dispatch_inbound_message E bs c)"

section \<open>Data connections of TCP allocations\<close>

definition dispatch_data_conn_message :: "turn_env \<Rightarrow> conn_id \<Rightarrow> bytes \<Rightarrow> TurnClient \<Rightarrow> turn_result" where
  "dispatch_data_conn_message E cid bs c =
     (case parsed_value (parse_stun (te_inet E) bs) of
        None \<Rightarrow> (c, [])
      | Some msg \<Rightarrow>
          if sm_msg_type msg = TURN_CONNECTION_BIND_RESPONSE
          then (case tc_pending_binds c cid of
                  None \<Rightarrow> (c, [])
                | Some pb \<Rightarrow>
                    (c\<lparr>tc_pending_binds := (tc_pending_binds c)(cid := None),
                       tc_data_connections := (tc_data_connections c)(pb_connection_id pb \<mapsto> cid),
                       tc_bound_peers := (tc_bound_peers c)(cid \<mapsto> (pb_peer_ip pb, pb_peer_port pb)),
                       tc_data_conn_rx_buffers := (tc_data_conn_rx_buffers c)(cid := None)\<rparr>,
                     if tc_data_conn_cb c
                     then [DataConnCb (pb_connection_id pb) cid (pb_peer_ip pb) (pb_peer_port pb)] else []))
          else if sm_msg_type msg = TURN_CONNECTION_BIND_ERROR
          then (c\<lparr>tc_pending_binds := (tc_pending_binds c)(cid := None),
                  tc_data_conn_rx_buffers := (tc_data_conn_rx_buffers c)(cid := None)\<rparr>, [])
          else (c, []))"

fun dispatch_data_conn_frames ::
  "turn_env \<Rightarrow> conn_id \<Rightarrow> bytes list \<Rightarrow> TurnClient \<Rightarrow> turn_result" where
  "dispatch_data_conn_frames E cid [] c = (c, [])"
| "dispatch_data_conn_frames E cid (f # fs) c =
     (let (c1, a1) = dispatch_data_conn_message E cid f c;
          (c2, a2) = dispatch_data_conn_frames E cid fs c1
      in (c2, a1 @ a2))"

text \<open>The buffer is moved to a local, so draining it first and dispatching the frames is the loop.\<close>

definition on_data_connection_inbound :: "turn_env \<Rightarrow> conn_id \<Rightarrow> bytes \<Rightarrow> TurnClient \<Rightarrow> turn_result" where
  "on_data_connection_inbound E cid bs c =
     (case tc_bound_peers c cid of
        Some (peer_ip, peer_port) \<Rightarrow>
          (c, if tc_data_cb c then [DataCb peer_ip peer_port bs] else [])
      | None \<Rightarrow>
          let buf = (case tc_data_conn_rx_buffers c cid of Some b \<Rightarrow> b | None \<Rightarrow> []);
              c = c\<lparr>tc_data_conn_rx_buffers := (tc_data_conn_rx_buffers c)(cid := None)\<rparr>;
              (frames, rest) = drain_stream (buf @ bs);
              (c, acts) = dispatch_data_conn_frames E cid frames c
          in (if rest \<noteq> [] \<and> tc_bound_peers c cid = None
              then c\<lparr>tc_data_conn_rx_buffers := (tc_data_conn_rx_buffers c)(cid \<mapsto> rest)\<rparr> else c,
              acts))"

section \<open>The client as a state machine\<close>

datatype TurnEvent =
    EvAllocate
  | EvInbound bytes
  | EvDataInbound conn_id bytes
  | EvSend string u16 bytes
  | EvBind string u16
  | EvPermission string
  | EvConnect string u16
  | EvRefreshTimer
  | EvClose

fun turn_step :: "turn_env \<Rightarrow> TurnEvent \<Rightarrow> TurnClient \<Rightarrow> turn_result" where
  "turn_step E EvAllocate c = snd (allocate E c)"
| "turn_step E (EvInbound bs) c = on_inbound E bs c"
| "turn_step E (EvDataInbound cid bs) c = on_data_connection_inbound E cid bs c"
| "turn_step E (EvSend ip port data) c = send_indication E ip port data c"
| "turn_step E (EvBind ip port) c = bind_channel E ip port c"
| "turn_step E (EvPermission ip) c = create_permission E ip c"
| "turn_step E (EvConnect ip port) c = connect_to_peer E ip port c"
| "turn_step E EvRefreshTimer c = on_refresh_timer E c"
| "turn_step E EvClose c = turn_close E c"

section \<open>What the operations leave alone\<close>

text \<open>The configuration of a client, its channel table and its data-connection tables.\<close>

definition fixed_part :: "TurnClient \<Rightarrow> bool \<times> conn_id \<times> TurnConfig \<times> bool \<times> bool" where
  "fixed_part c = (tc_carrier c, tc_server_cid c, tc_cfg c, tc_data_cb c, tc_refresh_healthy c)"

definition channel_part ::
  "TurnClient \<Rightarrow> (string \<rightharpoonup> u16) \<times> (u16 \<rightharpoonup> string \<times> u16) \<times> u16" where
  "channel_part c = (tc_peer_to_channel c, tc_channel_to_peer c, tc_next_channel c)"

definition conn_part :: "TurnClient \<Rightarrow> (conn_id \<rightharpoonup> string \<times> u16) \<times> (conn_id \<rightharpoonup> bytes)" where
  "conn_part c = (tc_bound_peers c, tc_data_conn_rx_buffers c)"

lemmas parts = fixed_part_def channel_part_def conn_part_def

lemma open_data_connection_parts [simp]:
  "fixed_part (fst (open_data_connection E i ip port c)) = fixed_part c"
  "channel_part (fst (open_data_connection E i ip port c)) = channel_part c"
  "conn_part (fst (open_data_connection E i ip port c)) = conn_part c"
  by (simp_all add: open_data_connection_def Let_def split_beta parts)

lemma handle_allocate_error_parts [simp]:
  "fixed_part (fst (handle_allocate_error E m c)) = fixed_part c"
  "channel_part (fst (handle_allocate_error E m c)) = channel_part c"
  "conn_part (fst (handle_allocate_error E m c)) = conn_part c"
  by (simp_all add: handle_allocate_error_def compute_auth_key_def Let_def split_beta parts
      split: option.split)

lemma handle_allocate_response_parts [simp]:
  "fixed_part (fst (handle_allocate_response m c)) = fixed_part c"
  "channel_part (fst (handle_allocate_response m c)) = channel_part c"
  "conn_part (fst (handle_allocate_response m c)) = conn_part c"
  by (simp_all add: handle_allocate_response_def Let_def parts split: option.split)

lemma handle_connect_response_parts [simp]:
  "fixed_part (fst (handle_connect_response E m c)) = fixed_part c"
  "channel_part (fst (handle_connect_response E m c)) = channel_part c"
  "conn_part (fst (handle_connect_response E m c)) = conn_part c"
  by (simp_all add: handle_connect_response_def Let_def split: option.split)
     (simp_all add: parts)

lemma handle_connection_attempt_parts [simp]:
  "fixed_part (fst (handle_connection_attempt E m c)) = fixed_part c"
  "channel_part (fst (handle_connection_attempt E m c)) = channel_part c"
  "conn_part (fst (handle_connection_attempt E m c)) = conn_part c"
  by (simp_all add: handle_connection_attempt_def Let_def split_beta split: option.split)

lemma dispatch_inbound_parts [simp]:
  "fixed_part (fst (dispatch_inbound_message E bs c)) = fixed_part c"
  "channel_part (fst (dispatch_inbound_message E bs c)) = channel_part c"
  "conn_part (fst (dispatch_inbound_message E bs c)) = conn_part c"
  by (simp_all add: dispatch_inbound_message_def split: option.split)

lemma rx_buffer_parts [simp]:
  "fixed_part (c\<lparr>tc_rx_buffer := b\<rparr>) = fixed_part c"
  "channel_part (c\<lparr>tc_rx_buffer := b\<rparr>) = channel_part c"
  "conn_part (c\<lparr>tc_rx_buffer := b\<rparr>) = conn_part c"
  by (simp_all add: parts)

lemma on_inbound_loop_parts [simp]:
  "fixed_part (fst (on_inbound_loop E c)) = fixed_part c \<and>
   channel_part (fst (on_inbound_loop E c)) = channel_part c \<and>
   conn_part (fst (on_inbound_loop E c)) = conn_part c"
proof (induction E c rule: on_inbound_loop.induct)
  case (1 E c)
  show ?case
  proof (cases "try_take_stream_frame (tc_rx_buffer c)")
    case None
    then show ?thesis by (simp add: on_inbound_loop.simps [of E c])
  next
    case (Some fr)
    then obtain f r where fr: "try_take_stream_frame (tc_rx_buffer c) = Some (f, r)" by (cases fr) auto
    let ?d = "dispatch_inbound_message E f (c\<lparr>tc_rx_buffer := r\<rparr>)"
    have "fixed_part (fst (on_inbound_loop E (fst ?d))) = fixed_part (fst ?d) \<and>
        channel_part (fst (on_inbound_loop E (fst ?d))) = channel_part (fst ?d) \<and>
        conn_part (fst (on_inbound_loop E (fst ?d))) = conn_part (fst ?d)"
      by (rule "1.IH" [OF fr refl refl prod.collapse])
    then show ?thesis by (simp add: on_inbound_loop.simps [of E c] fr split_beta Let_def)
  qed
qed

lemma on_inbound_parts [simp]:
  "fixed_part (fst (on_inbound E bs c)) = fixed_part c"
  "channel_part (fst (on_inbound E bs c)) = channel_part c"
  "conn_part (fst (on_inbound E bs c)) = conn_part c"
  by (simp_all add: on_inbound_def)

lemma dispatch_data_conn_parts [simp]:
  "fixed_part (fst (dispatch_data_conn_message E cid bs c)) = fixed_part c"
  "channel_part (fst (dispatch_data_conn_message E cid bs c)) = channel_part c"
  by (simp_all add: dispatch_data_conn_message_def parts split: option.split)

lemma dispatch_data_conn_frames_parts [simp]:
  "fixed_part (fst (dispatch_data_conn_frames E cid fs c)) = fixed_part c \<and>
   channel_part (fst (dispatch_data_conn_frames E cid fs c)) = channel_part c"
  by (induction fs arbitrary: c) (auto simp: split_beta Let_def)

lemma on_data_connection_parts [simp]:
  "fixed_part (fst (on_data_connection_inbound E cid bs c)) = fixed_part c"
  "channel_part (fst (on_data_connection_inbound E cid bs c)) = channel_part c"
proof -
  have upd: "fixed_part (c'\<lparr>tc_data_conn_rx_buffers := f\<rparr>) = fixed_part c'"
    "channel_part (c'\<lparr>tc_data_conn_rx_buffers := f\<rparr>) = channel_part c'" for c' f
    by (simp_all add: parts)
  show "fixed_part (fst (on_data_connection_inbound E cid bs c)) = fixed_part c"
    "channel_part (fst (on_data_connection_inbound E cid bs c)) = channel_part c"
    by (simp_all add: on_data_connection_inbound_def split_beta Let_def upd split: option.split)
qed

lemma send_indication_parts [simp]:
  "fixed_part (fst (send_indication E ip port data c)) = fixed_part c"
  "channel_part (fst (send_indication E ip port data c)) = channel_part c"
  "conn_part (fst (send_indication E ip port data c)) = conn_part c"
  by (simp_all add: send_indication_def Let_def split_beta parts)

lemma create_permission_parts [simp]:
  "fixed_part (fst (create_permission E ip c)) = fixed_part c"
  "channel_part (fst (create_permission E ip c)) = channel_part c"
  "conn_part (fst (create_permission E ip c)) = conn_part c"
  by (simp_all add: create_permission_def Let_def split_beta parts)

lemma connect_to_peer_parts [simp]:
  "fixed_part (fst (connect_to_peer E ip port c)) = fixed_part c"
  "channel_part (fst (connect_to_peer E ip port c)) = channel_part c"
  "conn_part (fst (connect_to_peer E ip port c)) = conn_part c"
  by (simp_all add: connect_to_peer_def Let_def split_beta parts)

lemma lifetime_parts [simp]:
  "fixed_part (fst (on_refresh_timer E c)) = fixed_part c"
  "channel_part (fst (on_refresh_timer E c)) = channel_part c"
  "conn_part (fst (on_refresh_timer E c)) = conn_part c"
  "fixed_part (fst (turn_close E c)) = fixed_part c"
  "channel_part (fst (turn_close E c)) = channel_part c"
  "conn_part (fst (turn_close E c)) = conn_part c"
  "fixed_part (fst (snd (allocate E c))) = fixed_part c"
  "channel_part (fst (snd (allocate E c))) = channel_part c"
  "conn_part (fst (snd (allocate E c))) = conn_part c"
  by (simp_all add: on_refresh_timer_def refresh_def turn_close_def allocate_def Let_def split_beta parts)

lemma bind_channel_parts [simp]:
  "fixed_part (fst (bind_channel E ip port c)) = fixed_part c"
  "conn_part (fst (bind_channel E ip port c)) = conn_part c"
  by (simp_all add: bind_channel_def Let_def split_beta parts)

lemma bind_channel_table:
  "channel_part (fst (bind_channel E ip port c)) =
    (if tcf_requested_transport (tc_cfg c) = REQUESTED_TRANSPORT_TCP \<or>
        tc_peer_to_channel c (endpoint_key ip port) \<noteq> None
     then channel_part c
     else if tc_next_channel c > TURN_CHANNEL_NUMBER_MAX
     then (tc_peer_to_channel c, tc_channel_to_peer c, tc_next_channel c + 1)
     else ((tc_peer_to_channel c)(endpoint_key ip port \<mapsto> tc_next_channel c),
           (tc_channel_to_peer c)(tc_next_channel c \<mapsto> (ip, port)), tc_next_channel c + 1))"
  by (simp add: bind_channel_def Let_def split_beta parts)

section \<open>Invariant of the client\<close>

definition turn_inv :: "TurnClient \<Rightarrow> bool" where
  "turn_inv c \<longleftrightarrow>
     (\<forall>ch ip port. tc_channel_to_peer c ch = Some (ip, port) \<longrightarrow>
        tc_peer_to_channel c (endpoint_key ip port) = Some ch) \<and>
     (tcf_requested_transport (tc_cfg c) = REQUESTED_TRANSPORT_TCP \<longrightarrow>
        tc_peer_to_channel c = Map.empty \<and> tc_channel_to_peer c = Map.empty) \<and>
     (\<forall>ch \<in> dom (tc_channel_to_peer c). ch \<le> TURN_CHANNEL_NUMBER_MAX) \<and>
     (\<forall>cid. tc_bound_peers c cid \<noteq> None \<longrightarrow> tc_data_conn_rx_buffers c cid = None)"

lemma turn_inv_parts:
  assumes "fixed_part c' = fixed_part c" "channel_part c' = channel_part c" "conn_part c' = conn_part c"
  shows "turn_inv c' = turn_inv c"
  using assms by (simp add: turn_inv_def parts)

lemma new_turn_client_inv: "turn_inv (new_turn_client carrier cid cfg d a)"
  by (simp add: turn_inv_def new_turn_client_def)

lemma bind_channel_inv:
  assumes "turn_inv c"
  shows "turn_inv (fst (bind_channel E ip port c))"
proof -
  let ?c = "fst (bind_channel E ip port c)"
  have frame: "tc_cfg ?c = tc_cfg c" "tc_bound_peers ?c = tc_bound_peers c"
    "tc_data_conn_rx_buffers ?c = tc_data_conn_rx_buffers c"
    using bind_channel_parts [of E ip port c] by (simp_all add: parts)
  show ?thesis
  proof (cases "tcf_requested_transport (tc_cfg c) = REQUESTED_TRANSPORT_TCP \<or>
      tc_peer_to_channel c (endpoint_key ip port) \<noteq> None")
    case True
    then have "channel_part ?c = channel_part c" by (simp add: bind_channel_table)
    then show ?thesis using assms turn_inv_parts bind_channel_parts by blast
  next
    case False
    then show ?thesis
      using assms frame bind_channel_table [of E ip port c]
      by (auto simp: turn_inv_def parts endpoint_key_inject split: if_splits)
  qed
qed

lemma dispatch_data_conn_conn:
  "\<forall>cid. tc_bound_peers c cid \<noteq> None \<longrightarrow> tc_data_conn_rx_buffers c cid = None \<Longrightarrow>
   tc_data_conn_rx_buffers c cid = None \<Longrightarrow>
   (\<forall>cid. tc_bound_peers (fst (dispatch_data_conn_frames E cid' fs c)) cid \<noteq> None \<longrightarrow>
      tc_data_conn_rx_buffers (fst (dispatch_data_conn_frames E cid' fs c)) cid = None) \<and>
   tc_data_conn_rx_buffers (fst (dispatch_data_conn_frames E cid' fs c)) cid = None"
proof (induction fs arbitrary: c)
  case (Cons f fs)
  let ?d = "fst (dispatch_data_conn_message E cid' f c)"
  have "\<forall>cid. tc_bound_peers ?d cid \<noteq> None \<longrightarrow> tc_data_conn_rx_buffers ?d cid = None"
    "tc_data_conn_rx_buffers ?d cid = None"
    using Cons.prems by (auto simp: dispatch_data_conn_message_def split: option.splits)
  from Cons.IH [OF this] show ?case by (simp add: split_beta Let_def)
qed simp

lemma on_data_connection_inv:
  assumes "turn_inv c"
  shows "turn_inv (fst (on_data_connection_inbound E cid bs c))"
proof -
  let ?c = "fst (on_data_connection_inbound E cid bs c)"
  let ?start = "c\<lparr>tc_data_conn_rx_buffers := (tc_data_conn_rx_buffers c)(cid := None)\<rparr>"
  have "\<forall>i. tc_bound_peers ?start i \<noteq> None \<longrightarrow> tc_data_conn_rx_buffers ?start i = None"
    "tc_data_conn_rx_buffers ?start cid = None"
    using assms by (auto simp: turn_inv_def)
  note conn = dispatch_data_conn_conn [OF this, of E cid]
  have "\<forall>i. tc_bound_peers ?c i \<noteq> None \<longrightarrow> tc_data_conn_rx_buffers ?c i = None"
    using assms conn
    by (auto simp: on_data_connection_inbound_def split_beta Let_def turn_inv_def split: option.split)
  moreover have "fixed_part ?c = fixed_part c" "channel_part ?c = channel_part c" by simp_all
  ultimately show ?thesis using assms by (simp add: turn_inv_def parts)
qed

lemma turn_step_inv: "turn_inv c \<Longrightarrow> turn_inv (fst (turn_step E e c))"
  by (cases e)
     (simp_all add: bind_channel_inv on_data_connection_inv
       turn_inv_parts [OF on_inbound_parts] turn_inv_parts [OF send_indication_parts]
       turn_inv_parts [OF create_permission_parts] turn_inv_parts [OF connect_to_peer_parts]
       turn_inv_parts [OF lifetime_parts(1-3)] turn_inv_parts [OF lifetime_parts(4-6)]
       turn_inv_parts [OF lifetime_parts(7-9)])

lemma turn_step_fixed: "fixed_part (fst (turn_step E e c)) = fixed_part c"
  by (cases e) simp_all

text \<open>Bytes leave only through a carrier, and never on the invalid conn id.\<close>

definition sends_ok :: "TurnClient \<Rightarrow> TurnAction \<Rightarrow> bool" where
  "sends_ok c a = (case a of CarrierSend cid bs \<Rightarrow> tc_carrier c \<and> cid \<noteq> 0 | _ \<Rightarrow> True)"

lemma sends_ok_fixed: "fixed_part c' = fixed_part c \<Longrightarrow> sends_ok c' a = sends_ok c a"
  by (cases a) (simp_all add: sends_ok_def parts)

lemma send_to_server_ok:
  "fixed_part c' = fixed_part c \<Longrightarrow> list_all (sends_ok c) (send_to_server bs c')"
  by (auto simp: send_to_server_def sends_ok_def parts split_beta Let_def)

lemma send_framed_ok:
  "fixed_part c' = fixed_part c \<Longrightarrow> list_all (sends_ok c) (send_framed_on_data_cid cid bs c')"
  by (auto simp: send_framed_on_data_cid_def sends_ok_def parts split_beta Let_def)

lemma sends_ok_quiet [simp]:
  "sends_ok c (DataCb ip port bs)" "sends_ok c (AllocCb ip port)" "sends_ok c (ConnAttemptCb ip port i)"
  "sends_ok c (DataConnCb i cid ip port)" "sends_ok c (ArmRefreshTimer n)"
  "sends_ok c CancelRefreshTimer" "sends_ok c BadFunctionCall"
  by (simp_all add: sends_ok_def)

lemmas send_oks = send_to_server_ok send_framed_ok

lemma open_data_connection_ok:
  "fixed_part c' = fixed_part c \<Longrightarrow> list_all (sends_ok c) (snd (open_data_connection E i ip port c'))"
  unfolding open_data_connection_def Let_def split_beta
  by (auto simp: fixed_part_def intro!: send_oks)

lemma dispatch_inbound_ok:
  assumes "fixed_part c' = fixed_part c"
  shows "list_all (sends_ok c) (snd (dispatch_inbound_message E bs c'))"
proof -
  have "list_all (sends_ok c) (snd (handle_allocate_error E m c'))" for m
    using assms unfolding handle_allocate_error_def Let_def split_beta
    by (auto simp: fixed_part_def compute_auth_key_def intro!: send_oks split: option.split)
  moreover have "list_all (sends_ok c) (snd (handle_connect_response E m c'))" for m
    using assms unfolding handle_connect_response_def Let_def
    by (auto simp: fixed_part_def intro!: open_data_connection_ok split: option.split)
  moreover have "list_all (sends_ok c) (snd (handle_connection_attempt E m c'))" for m
    using open_data_connection_ok [OF assms]
    by (auto simp: handle_connection_attempt_def split_beta Let_def split: option.split)
  moreover have "list_all (sends_ok c) (snd (handle_allocate_response m c'))" for m
    by (auto simp: handle_allocate_response_def schedule_refresh_def Let_def split: option.split)
  ultimately show ?thesis
    by (auto simp: dispatch_inbound_message_def handle_channel_data_def handle_data_indication_def
        split: option.split)
qed

lemma on_inbound_loop_ok:
  "fixed_part c' = fixed_part c \<Longrightarrow> list_all (sends_ok c) (snd (on_inbound_loop E c'))"
proof (induction E c' rule: on_inbound_loop.induct)
  case (1 E c')
  show ?case
  proof (cases "try_take_stream_frame (tc_rx_buffer c')")
    case None
    then show ?thesis by (simp add: on_inbound_loop.simps [of E c'])
  next
    case (Some fr)
    then obtain f r where fr: "try_take_stream_frame (tc_rx_buffer c') = Some (f, r)" by (cases fr) auto
    have "list_all (sends_ok c)
        (snd (on_inbound_loop E (fst (dispatch_inbound_message E f (c'\<lparr>tc_rx_buffer := r\<rparr>)))))"
      by (rule "1.IH" [OF fr refl refl prod.collapse]) (simp add: "1.prems")
    then show ?thesis
      using dispatch_inbound_ok [of "c'\<lparr>tc_rx_buffer := r\<rparr>" c E f] "1.prems"
      by (simp add: on_inbound_loop.simps [of E c'] fr split_beta Let_def)
  qed
qed

lemma dispatch_data_conn_ok: "list_all (sends_ok c) (snd (dispatch_data_conn_frames E cid fs c'))"
  by (induction fs arbitrary: c')
     (auto simp: dispatch_data_conn_message_def split_beta Let_def split: option.split)

lemma turn_step_ok: "list_all (sends_ok c) (snd (turn_step E e c))"
proof (cases e)
  case (EvInbound bs)
  then show ?thesis
    by (simp add: on_inbound_def on_inbound_loop_ok dispatch_inbound_ok)
next
  case (EvDataInbound cid bs)
  then show ?thesis
    using dispatch_data_conn_ok
    by (auto simp: on_data_connection_inbound_def split_beta Let_def split: option.split)
qed (auto simp: allocate_def send_indication_def bind_channel_def create_permission_def
      connect_to_peer_def on_refresh_timer_def refresh_def schedule_refresh_def turn_close_def
      Let_def split_beta fixed_part_def intro!: send_oks)

interpretation turn: machine "turn_step E" turn_inv sends_ok for E
proof unfold_locales
  fix s out e
  show "turn_inv s \<Longrightarrow> turn_inv (fst (turn_step E e s))" by (rule turn_step_inv)
  show "turn_inv s \<Longrightarrow> out \<in> set (snd (turn_step E e s)) \<Longrightarrow> sends_ok (fst (turn_step E e s)) out"
    using turn_step_ok [of s E e] sends_ok_fixed [OF turn_step_fixed, of E e s out]
    by (auto simp: list_all_iff)
  show "turn_inv s \<Longrightarrow> sends_ok s out \<Longrightarrow> sends_ok (fst (turn_step E e s)) out"
    by (simp add: sends_ok_fixed [OF turn_step_fixed])
qed

section \<open>The channel table before the counter wraps\<close>

definition table_ok :: "(string \<rightharpoonup> u16) \<Rightarrow> (u16 \<rightharpoonup> string \<times> u16) \<Rightarrow> u16 \<Rightarrow> bool" where
  "table_ok p2c c2p next \<longleftrightarrow> TURN_CHANNEL_NUMBER_MIN \<le> next \<and>
     (\<forall>k ch. p2c k = Some ch \<longrightarrow>
        TURN_CHANNEL_NUMBER_MIN \<le> ch \<and> ch \<le> TURN_CHANNEL_NUMBER_MAX \<and> ch < next \<and>
        (\<exists>ip port. k = endpoint_key ip port \<and> c2p ch = Some (ip, port)))"

definition channels_ok :: "TurnClient \<Rightarrow> bool" where
  "channels_ok c = table_ok (tc_peer_to_channel c) (tc_channel_to_peer c) (tc_next_channel c)"

lemma channels_ok_part: "channel_part c' = channel_part c \<Longrightarrow> channels_ok c' = channels_ok c"
  by (simp add: channels_ok_def parts)

lemma word_Suc_less: "w \<noteq> 0xFFFF \<Longrightarrow> unat (w + 1) = unat w + 1" for w :: u16
proof -
  assume w: "w \<noteq> 0xFFFF"
  have "1 + w \<noteq> 0"
  proof
    assume "1 + w = 0"
    then have "w = - 1" by (simp add: add_eq_0_iff)
    with w show False by simp
  qed
  then show ?thesis using unatSuc [of w] by (simp add: add.commute)
qed

lemma word_less_Suc: "n \<noteq> 0xFFFF \<Longrightarrow> n < n + 1" for n :: u16
  using word_Suc_less [of n] by (simp add: word_less_nat_alt)

lemma table_ok_skip: "table_ok p2c c2p n \<Longrightarrow> n \<noteq> 0xFFFF \<Longrightarrow> table_ok p2c c2p (n + 1)"
  using word_less_Suc [of n] unfolding table_ok_def by (meson less_trans order_less_imp_le order_trans)

lemma table_ok_add:
  assumes ok: "table_ok p2c c2p n" and n: "n \<noteq> 0xFFFF" "n \<le> TURN_CHANNEL_NUMBER_MAX"
  shows "table_ok (p2c(endpoint_key ip port \<mapsto> n)) (c2p(n \<mapsto> (ip, port))) (n + 1)"
proof -
  have less: "n < n + 1" by (rule word_less_Suc [OF n(1)])
  have min: "TURN_CHANNEL_NUMBER_MIN \<le> n" using ok by (simp add: table_ok_def)
  have "TURN_CHANNEL_NUMBER_MIN \<le> ch \<and> ch \<le> TURN_CHANNEL_NUMBER_MAX \<and> ch < n + 1 \<and>
      (\<exists>ip' port'. k = endpoint_key ip' port' \<and> (c2p(n \<mapsto> (ip, port))) ch = Some (ip', port'))"
    if k: "(p2c(endpoint_key ip port \<mapsto> n)) k = Some ch" for k ch
  proof (cases "k = endpoint_key ip port")
    case True
    then show ?thesis using k min n less by auto
  next
    case False
    then have "p2c k = Some ch" using k by simp
    then have *: "TURN_CHANNEL_NUMBER_MIN \<le> ch" "ch \<le> TURN_CHANNEL_NUMBER_MAX" "ch < n"
        "\<exists>ip port. k = endpoint_key ip port \<and> c2p ch = Some (ip, port)"
      using ok unfolding table_ok_def by blast+
    then have "ch \<noteq> n" "ch < n + 1" using less by auto
    then show ?thesis using * by simp
  qed
  moreover have "TURN_CHANNEL_NUMBER_MIN \<le> n + 1" using min less by (meson order_less_imp_le order_trans)
  ultimately show ?thesis unfolding table_ok_def by blast
qed

lemma bind_channel_channels:
  assumes "channels_ok c" "tc_next_channel c \<noteq> 0xFFFF"
  shows "channels_ok (fst (bind_channel E ip port c)) \<and>
    unat (tc_next_channel (fst (bind_channel E ip port c))) \<le> unat (tc_next_channel c) + 1"
proof -
  let ?r = "fst (bind_channel E ip port c)" and ?n = "tc_next_channel c"
  note ok = assms(1) [unfolded channels_ok_def]
  consider "channel_part ?r = channel_part c"
    | "channel_part ?r = (tc_peer_to_channel c, tc_channel_to_peer c, ?n + 1)"
    | "?n \<le> TURN_CHANNEL_NUMBER_MAX"
      "channel_part ?r = ((tc_peer_to_channel c)(endpoint_key ip port \<mapsto> ?n),
         (tc_channel_to_peer c)(?n \<mapsto> (ip, port)), ?n + 1)"
    using bind_channel_table [of E ip port c] by (metis (no_types) not_less)
  then show ?thesis
  proof cases
    case 1
    then show ?thesis using assms(1) channels_ok_part [OF 1] by (simp add: channel_part_def)
  next
    case 2
    then show ?thesis
      using table_ok_skip [OF ok assms(2)] word_Suc_less [OF assms(2)]
      by (simp add: channels_ok_def channel_part_def)
  next
    case 3
    then show ?thesis
      using table_ok_add [OF ok assms(2) 3(1)] word_Suc_less [OF assms(2)]
      by (simp add: channels_ok_def channel_part_def)
  qed
qed

lemma turn_step_channel_part:
  "(\<forall>ip port. e \<noteq> EvBind ip port) \<Longrightarrow> channel_part (fst (turn_step E e c)) = channel_part c"
  by (cases e) simp_all

lemma turn_step_channels:
  assumes "channels_ok c" "tc_next_channel c \<noteq> 0xFFFF"
  shows "channels_ok (fst (turn_step E e c)) \<and>
    unat (tc_next_channel (fst (turn_step E e c))) \<le> unat (tc_next_channel c) + 1"
proof (cases "\<exists>ip port. e = EvBind ip port")
  case True
  then show ?thesis using bind_channel_channels [OF assms] by auto
next
  case False
  then have "channel_part (fst (turn_step E e c)) = channel_part c"
    by (intro turn_step_channel_part) auto
  then show ?thesis using assms(1) channels_ok_part [of "fst (turn_step E e c)" c] by (simp add: parts)
qed

text \<open>Only a request to bind a channel moves the counter, by one at most.\<close>

definition is_bind :: "TurnEvent \<Rightarrow> bool" where
  "is_bind e = (case e of EvBind _ _ \<Rightarrow> True | _ \<Rightarrow> False)"

lemma run_channels:
  assumes "channels_ok c" "unat (tc_next_channel c) + length (filter is_bind es) < 0x10000"
  shows "channels_ok (fst (run_machine (turn_step E) es c))"
  using assms
proof (induction es arbitrary: c)
  case (Cons e es)
  let ?c = "fst (turn_step E e c)"
  have "channels_ok ?c \<and> unat (tc_next_channel ?c) + length (filter is_bind es) < 0x10000"
  proof (cases "is_bind e")
    case True
    then have "tc_next_channel c \<noteq> 0xFFFF" using Cons.prems(2) by auto
    from turn_step_channels [OF Cons.prems(1) this, of E e] True Cons.prems(2) show ?thesis by auto
  next
    case False
    then have "channel_part ?c = channel_part c"
      by (intro turn_step_channel_part) (auto simp: is_bind_def)
    then show ?thesis using False Cons.prems channels_ok_part [of ?c c] by (simp add: parts)
  qed
  then have "channels_ok (fst (run_machine (turn_step E) es ?c))" by (intro Cons.IH) auto
  then show ?case by (simp add: split_beta Let_def)
qed simp

section \<open>Stream transports\<close>

text \<open>The handlers neither read nor write the reassembly buffer.\<close>

lemma send_to_server_rx [simp]: "send_to_server bs (c\<lparr>tc_rx_buffer := b\<rparr>) = send_to_server bs c"
  by (simp add: send_to_server_def split_beta Let_def)

lemma send_framed_rx [simp]:
  "send_framed_on_data_cid cid bs (c\<lparr>tc_rx_buffer := b\<rparr>) = send_framed_on_data_cid cid bs c"
  by (simp add: send_framed_on_data_cid_def split_beta Let_def)

lemma add_credentials_rx [simp]:
  "add_credentials E (c\<lparr>tc_rx_buffer := b\<rparr>) = add_credentials E c"
  by (rule ext) (simp add: add_credentials_def)

lemma open_data_connection_set_rx:
  "open_data_connection E i ip port (c\<lparr>tc_rx_buffer := b\<rparr>) =
   apfst (\<lambda>c. c\<lparr>tc_rx_buffer := b\<rparr>) (open_data_connection E i ip port c)"
  by (simp add: open_data_connection_def send_framed_on_data_cid_def add_credentials_def
      fresh_builder_def Let_def split_beta)

lemma handle_allocate_error_set_rx:
  "handle_allocate_error E m (c\<lparr>tc_rx_buffer := b\<rparr>) =
   apfst (\<lambda>c. c\<lparr>tc_rx_buffer := b\<rparr>) (handle_allocate_error E m c)"
  by (cases "sm_realm m"; cases "sm_nonce m")
     (simp_all add: handle_allocate_error_def compute_auth_key_def send_to_server_def add_credentials_def
       fresh_builder_def Let_def split_beta)

lemma dispatch_inbound_set_rx:
  "dispatch_inbound_message E bs (c\<lparr>tc_rx_buffer := b\<rparr>) =
   apfst (\<lambda>c. c\<lparr>tc_rx_buffer := b\<rparr>) (dispatch_inbound_message E bs c)"
proof -
  have "handle_allocate_response m (c\<lparr>tc_rx_buffer := b\<rparr>) =
      apfst (\<lambda>c. c\<lparr>tc_rx_buffer := b\<rparr>) (handle_allocate_response m c)" for m
    by (cases "sm_lifetime m") (simp_all add: handle_allocate_response_def schedule_refresh_def Let_def
        split: option.split)
  moreover have "open_data_connection E i ip port (c\<lparr>tc_rx_buffer := b, tc_pending_connects := f\<rparr>) =
      apfst (\<lambda>c. c\<lparr>tc_rx_buffer := b\<rparr>)
        (open_data_connection E i ip port (c\<lparr>tc_pending_connects := f\<rparr>))" for i ip port f
  proof -
    have "c\<lparr>tc_rx_buffer := b, tc_pending_connects := f\<rparr> = c\<lparr>tc_pending_connects := f, tc_rx_buffer := b\<rparr>"
      by (rule TurnClient.equality) simp_all
    then show ?thesis
      using open_data_connection_set_rx [of E i ip port b "c\<lparr>tc_pending_connects := f\<rparr>"] by metis
  qed
  then have "handle_connect_response E m (c\<lparr>tc_rx_buffer := b\<rparr>) =
      apfst (\<lambda>c. c\<lparr>tc_rx_buffer := b\<rparr>) (handle_connect_response E m c)" for m
    by (simp add: handle_connect_response_def Let_def split: option.split)
  moreover have "handle_connection_attempt E m (c\<lparr>tc_rx_buffer := b\<rparr>) =
      apfst (\<lambda>c. c\<lparr>tc_rx_buffer := b\<rparr>) (handle_connection_attempt E m c)" for m
    by (simp add: handle_connection_attempt_def open_data_connection_set_rx Let_def split_beta
        split: option.split)
  ultimately show ?thesis
    by (simp add: dispatch_inbound_message_def handle_allocate_error_set_rx handle_channel_data_def
        handle_data_indication_def split: option.split)
qed

lemma run_dispatch_set_rx:
  "run_machine (dispatch_inbound_message E) fs (c\<lparr>tc_rx_buffer := b\<rparr>) =
   apfst (\<lambda>c. c\<lparr>tc_rx_buffer := b\<rparr>) (run_machine (dispatch_inbound_message E) fs c)"
  by (induction fs arbitrary: c) (simp_all add: dispatch_inbound_set_rx split_beta Let_def)

lemma on_inbound_loop_drain:
  "on_inbound_loop E c =
    (let (fs, rest) = drain_stream (tc_rx_buffer c);
         (c', acts) = run_machine (dispatch_inbound_message E) fs c
     in (c'\<lparr>tc_rx_buffer := rest\<rparr>, acts))"
proof (induction E c rule: on_inbound_loop.induct)
  case (1 E c)
  show ?case
  proof (cases "try_take_stream_frame (tc_rx_buffer c)")
    case None
    then show ?thesis by (simp add: on_inbound_loop.simps [of E c] drain_stream.simps)
  next
    case (Some fr)
    then obtain f r where fr: "try_take_stream_frame (tc_rx_buffer c) = Some (f, r)" by (cases fr) auto
    let ?d = "dispatch_inbound_message E f (c\<lparr>tc_rx_buffer := r\<rparr>)"
    note IH = "1.IH" [OF fr refl refl prod.collapse, unfolded dispatch_inbound_rx]
    show ?thesis
      unfolding on_inbound_loop.simps [of E c] using IH
      by (simp add: fr drain_stream.simps [of "tc_rx_buffer c"] dispatch_inbound_set_rx
          run_dispatch_set_rx split_beta Let_def)
  qed
qed

definition stream_client :: "TurnClient \<Rightarrow> bool" where
  "stream_client c \<longleftrightarrow> tcf_tcp_transport (tc_cfg c) \<or> tcf_tls_transport (tc_cfg c)"

lemma run_inbound_chunks:
  assumes "stream_client c"
  shows "run_machine (turn_step E) (map EvInbound cs) c =
    (let (fs, rest) = feed_chunks drain_stream (tc_rx_buffer c) cs;
         (c', acts) = run_machine (dispatch_inbound_message E) fs c
     in (c'\<lparr>tc_rx_buffer := rest\<rparr>, acts))"
  using assms
proof (induction cs arbitrary: c)
  case Nil
  then show ?case by simp
next
  case (Cons bs cs)
  obtain fs r where d: "drain_stream (tc_rx_buffer c @ bs) = (fs, r)" by fastforce
  obtain c1 a1 where r1: "run_machine (dispatch_inbound_message E) fs c = (c1, a1)" by fastforce
  have step: "turn_step E (EvInbound bs) c = (c1\<lparr>tc_rx_buffer := r\<rparr>, a1)"
    using Cons.prems d r1
    by (simp add: on_inbound_def stream_client_def on_inbound_loop_drain run_dispatch_set_rx)
  have "fixed_part c1 = fixed_part c"
    using turn_step_fixed [of E "EvInbound bs" c] step by (simp add: fixed_part_def)
  then have "stream_client (c1\<lparr>tc_rx_buffer := r\<rparr>)" using Cons.prems by (simp add: stream_client_def parts)
  from Cons.IH [OF this] show ?case
    using d r1 step by (simp add: run_machine_append run_dispatch_set_rx split_beta Let_def)
qed

section \<open>Authenticated requests\<close>

definition credential_attrs :: "TurnClient \<Rightarrow> (u16 \<times> bytes) list" where
  "credential_attrs c =
     [(STUN_ATTR_USERNAME, bytes_of_string (tcf_username (tc_cfg c))),
      (TURN_ATTR_REALM, bytes_of_string (tc_realm c)), (TURN_ATTR_NONCE, bytes_of_string (tc_nonce c))]"

lemma add_credentials_build:
  assumes "sb_attrs b = tlvs as"
  shows "\<exists>fp. length fp = 4 \<and> build (add_credentials E c b) =
    message (sb_msg_type b) (sb_txn_id b)
      ((as @ credential_attrs c) @
       [(STUN_ATTR_MESSAGE_INTEGRITY, integrity_digest (te_hmac E) (tc_auth_key c) (sb_msg_type b)
           (sb_txn_id b) (as @ credential_attrs c))] @ [(STUN_ATTR_FINGERPRINT, fp)])"
proof -
  let ?n = "add_nonce (tc_nonce c) (add_realm (tc_realm c) (add_username (tcf_username (tc_cfg c)) b))"
  have n: "sb_attrs ?n = tlvs (as @ credential_attrs c)" "sb_msg_type ?n = sb_msg_type b"
    "sb_txn_id ?n = sb_txn_id b"
    using assms add_attr_tlvs [OF add_attr_tlvs [OF add_attr_tlvs [OF assms]]]
    by (simp_all add: add_nonce_def add_realm_def add_username_def credential_attrs_def)
  let ?d = "integrity_digest (te_hmac E) (tc_auth_key c) (sb_msg_type b) (sb_txn_id b) (as @ credential_attrs c)"
  let ?i = "add_integrity (te_hmac E) (tc_auth_key c) ?n"
  have i: "sb_attrs ?i = tlvs ((as @ credential_attrs c) @ [(STUN_ATTR_MESSAGE_INTEGRITY, ?d)])"
    using add_integrity_tlvs [OF n(1), of "te_hmac E" "tc_auth_key c"] n by simp
  define fp where "fp = write32 (stun_crc32 (stun_image ?i (length (sb_attrs ?i) + 8)) XOR 0x5354554E)"
  have "add_credentials E c b = add_attr STUN_ATTR_FINGERPRINT fp ?i"
    by (simp add: add_credentials_def add_fingerprint_def add_attr_u32_def fp_def)
  then have "build (add_credentials E c b) = message (sb_msg_type b) (sb_txn_id b)
      (((as @ credential_attrs c) @ [(STUN_ATTR_MESSAGE_INTEGRITY, ?d)]) @ [(STUN_ATTR_FINGERPRINT, fp)])"
    using build_message [OF add_attr_tlvs [OF i], of STUN_ATTR_FINGERPRINT fp] n by simp
  then show ?thesis by (intro exI [of _ fp]) (simp add: fp_def)
qed

text \<open>Room for the attributes an authenticated request adds.\<close>

definition credentials_fit :: "(u16 \<times> bytes) list \<Rightarrow> TurnClient \<Rightarrow> bool" where
  "credentials_fit as c \<longleftrightarrow> length (tlvs (as @ credential_attrs c)) + 32 \<le> 0xFFFF \<and>
     (\<forall>a \<in> set as. fst a \<noteq> STUN_ATTR_MESSAGE_INTEGRITY)"

lemma add_credentials_verify:
  assumes "hmac_ok (te_hmac E)" "sb_attrs b = tlvs as" "length (sb_txn_id b) = 12"
    and "credentials_fit as c"
  shows "verify_integrity (te_hmac E) (build (add_credentials E c b)) (tc_auth_key c) = Some True"
    and "\<exists>m0 m. apply_tlvs I as (empty_message (sb_msg_type b) (sb_txn_id b)) = Some m0 \<and>
      parse_stun I (build (add_credentials E c b)) = accept m \<and>
      m = m0\<lparr>sm_username := Some (tcf_username (tc_cfg c)), sm_realm := Some (tc_realm c),
             sm_nonce := Some (tc_nonce c), sm_has_integrity := True, sm_has_fingerprint := True\<rparr>"
proof -
  obtain fp where fp: "length fp = 4" and b: "build (add_credentials E c b) =
      message (sb_msg_type b) (sb_txn_id b)
        ((as @ credential_attrs c) @
         [(STUN_ATTR_MESSAGE_INTEGRITY, integrity_digest (te_hmac E) (tc_auth_key c) (sb_msg_type b)
             (sb_txn_id b) (as @ credential_attrs c))] @ [(STUN_ATTR_FINGERPRINT, fp)])"
    using add_credentials_build [OF assms(2)] by blast
  let ?d = "integrity_digest (te_hmac E) (tc_auth_key c) (sb_msg_type b) (sb_txn_id b) (as @ credential_attrs c)"
  have d: "length ?d = 20" by (rule length_integrity_digest [OF assms(1)])
  have fits: "fits_message (sb_txn_id b) ((as @ credential_attrs c) @
      [(STUN_ATTR_MESSAGE_INTEGRITY, ?d)] @ [(STUN_ATTR_FINGERPRINT, fp)])"
    using assms(3,4) d fp by (simp add: fits_message_def credentials_fit_def length_tlv)
  have "\<forall>a \<in> set (as @ credential_attrs c). fst a \<noteq> STUN_ATTR_MESSAGE_INTEGRITY"
    using assms(4) by (auto simp: credentials_fit_def credential_attrs_def stun_consts)
  from verify_message [OF fits this d, of "te_hmac E" "sb_msg_type b" "tc_auth_key c"]
  show "verify_integrity (te_hmac E) (build (add_credentials E c b)) (tc_auth_key c) = Some True"
    unfolding b by (simp add: integrity_digest_def)
  obtain m0 where m0: "apply_tlvs I as (empty_message (sb_msg_type b) (sb_txn_id b)) = Some m0"
    using apply_tlvs_safe safe_ex by metis
  show "\<exists>m0 m. apply_tlvs I as (empty_message (sb_msg_type b) (sb_txn_id b)) = Some m0 \<and>
      parse_stun I (build (add_credentials E c b)) = accept m \<and>
      m = m0\<lparr>sm_username := Some (tcf_username (tc_cfg c)), sm_realm := Some (tc_realm c),
             sm_nonce := Some (tc_nonce c), sm_has_integrity := True, sm_has_fingerprint := True\<rparr>"
    using parse_message [OF fits, of I "sb_msg_type b" "[]"] m0
    unfolding b by (simp add: apply_tlvs_append apply_attr_def credential_attrs_def stun_consts)
qed

section \<open>Binding many peers\<close>

definition bind_events :: "string \<Rightarrow> nat \<Rightarrow> TurnEvent list" where
  "bind_events ip n = map (\<lambda>i. EvBind ip (word_of_nat i)) [0..<n]"

lemma run_bind_events:
  assumes "tcf_requested_transport cfg \<noteq> REQUESTED_TRANSPORT_TCP" "n \<le> 0xFFFF"
  shows "let c = fst (run_machine (turn_step E) (bind_events ip n) (new_turn_client k s cfg d a))
    in tc_cfg c = cfg \<and> tc_next_channel c = 0x4000 + word_of_nat n \<and>
       (\<forall>key. tc_peer_to_channel c key \<noteq> None \<longrightarrow> (\<exists>i<n. key = endpoint_key ip (word_of_nat i)))"
  using assms(2)
proof (induction n)
  case 0
  then show ?case by (simp add: bind_events_def new_turn_client_def)
next
  case (Suc n)
  let ?c = "fst (run_machine (turn_step E) (bind_events ip n) (new_turn_client k s cfg d a))"
  let ?r = "fst (bind_channel E ip (word_of_nat n) ?c)"
  have run: "fst (run_machine (turn_step E) (bind_events ip (Suc n)) (new_turn_client k s cfg d a)) = ?r"
    by (simp add: bind_events_def run_machine_append split_beta Let_def)
  have c: "tc_cfg ?c = cfg" "tc_next_channel ?c = 0x4000 + word_of_nat n"
    "\<forall>key. tc_peer_to_channel ?c key \<noteq> None \<longrightarrow> (\<exists>i<n. key = endpoint_key ip (word_of_nat i))"
    using Suc by (simp_all add: Let_def)
  have "word_of_nat n \<noteq> (word_of_nat i :: u16)" if "i < n" for i
  proof
    assume "word_of_nat n = (word_of_nat i :: u16)"
    then have "unat (word_of_nat n :: u16) = unat (word_of_nat i :: u16)" by simp
    then show False using that Suc.prems by (simp add: unat_of_nat)
  qed
  then have "tc_peer_to_channel ?c (endpoint_key ip (word_of_nat n)) = None"
    using c(3) by (metis endpoint_key_inject)
  then have "channel_part ?r = (if tc_next_channel ?c > TURN_CHANNEL_NUMBER_MAX
      then (tc_peer_to_channel ?c, tc_channel_to_peer ?c, tc_next_channel ?c + 1)
      else ((tc_peer_to_channel ?c)(endpoint_key ip (word_of_nat n) \<mapsto> tc_next_channel ?c),
        (tc_channel_to_peer ?c)(tc_next_channel ?c \<mapsto> (ip, word_of_nat n)), tc_next_channel ?c + 1))"
    using assms(1) c(1) by (simp add: bind_channel_table)
  moreover have "tc_cfg ?r = cfg" using bind_channel_parts(1) [of E ip "word_of_nat n" ?c] c(1) by (simp add: parts)
  ultimately show ?case
    unfolding run Let_def using c(2,3)
    by (auto simp: channel_part_def less_Suc_eq split: if_splits)
qed

lemma run_fixed: "fixed_part (fst (run_machine (turn_step E) es c)) = fixed_part c"
  by (induction es arbitrary: c) (simp_all add: split_beta Let_def turn_step_fixed)

section \<open>Properties\<close>

text \<open>A concrete environment and a concrete client, for closed examples.\<close>

definition sample_env :: turn_env where
  "sample_env = \<lparr>te_inet = sample_inet, te_hmac = sample_hmac, te_md5 = (\<lambda>m. take 16 (sample_hmac [] m)),
     te_txn = (\<lambda>n. replicate 12 (word_of_nat n)), te_data_cid = (\<lambda>n. word_of_nat (n + 100))\<rparr>"

definition sample_config :: TurnConfig where
  "sample_config = default_turn_config\<lparr>tcf_server := ''turn.example'', tcf_username := ''user'',
     tcf_password := ''pass''\<rparr>"

definition sample_client :: TurnClient where
  "sample_client = new_turn_client True 7 sample_config True True"

lemmas sample_defs = sample_env_def sample_config_def sample_client_def new_turn_client_def
  default_turn_config_def

text \<open>C30: The channel table of the TURN client: in a run of any length with fewer than 49152 requests to bind
  a channel, among operations of any kind, the map from peers to channels and the map from channels to
  peers are inverse to each other, and every channel in use lies in the range 0x4000 to 0x7FFF of the
  protocol. The 49153rd request for a new peer meets a counter that has wrapped.\<close>

theorem turn_channels_bijective:
  assumes "length (filter is_bind es) < 0xC000"
  shows "let c = fst (run_machine (turn_step E) es (new_turn_client k s cfg d a))
    in (\<forall>ip port ch. tc_peer_to_channel c (endpoint_key ip port) = Some ch \<longleftrightarrow>
          tc_channel_to_peer c ch = Some (ip, port)) \<and>
       (\<forall>key ch. tc_peer_to_channel c key = Some ch \<longrightarrow>
          TURN_CHANNEL_NUMBER_MIN \<le> ch \<and> ch \<le> TURN_CHANNEL_NUMBER_MAX)"
proof -
  let ?new = "new_turn_client k s cfg d a"
  let ?c = "fst (run_machine (turn_step E) es ?new)"
  have "channels_ok ?new"
    by (simp add: channels_ok_def table_ok_def new_turn_client_def channel_consts)
  moreover have "unat (tc_next_channel ?new) + length (filter is_bind es) < 0x10000"
    using assms by (simp add: new_turn_client_def)
  ultimately have ok: "channels_ok ?c" by (rule run_channels)
  have inv: "turn_inv ?c" by (rule turn.run_inv [OF new_turn_client_inv])
  have "tc_peer_to_channel ?c (endpoint_key ip port) = Some ch \<longleftrightarrow> tc_channel_to_peer ?c ch = Some (ip, port)"
    for ip port ch
  proof
    assume "tc_peer_to_channel ?c (endpoint_key ip port) = Some ch"
    with ok show "tc_channel_to_peer ?c ch = Some (ip, port)"
      unfolding channels_ok_def table_ok_def by (metis endpoint_key_inject)
  qed (use inv in \<open>simp add: turn_inv_def\<close>)
  then show ?thesis using ok by (simp add: Let_def channels_ok_def table_ok_def)
qed

theorem turn_channels_bijective_witness:
  "tc_peer_to_channel (fst (run_machine (turn_step sample_env) [EvBind ''10.0.0.1'' 9] sample_client))
     (endpoint_key ''10.0.0.1'' 9) = Some 0x4000 \<longleftrightarrow>
   tc_channel_to_peer (fst (run_machine (turn_step sample_env) [EvBind ''10.0.0.1'' 9] sample_client))
     0x4000 = Some (''10.0.0.1'', 9)"
  using turn_channels_bijective [of "[EvBind ''10.0.0.1'' 9]" sample_env True 7 sample_config True True]
  unfolding sample_client_def Let_def by (simp add: is_bind_def)

text \<open>The channel counter wraps: after 49153 bindings to distinct peers the client hands out channel
  number 0 (below the protocol range), which it then treats as "no channel" when it sends.\<close>

theorem turn_channel_counter_wraps:
  assumes "tcf_requested_transport cfg \<noteq> REQUESTED_TRANSPORT_TCP"
  shows "let c = fst (run_machine (turn_step E) (bind_events ip 49153) (new_turn_client k s cfg d a))
    in tc_peer_to_channel c (endpoint_key ip 49152) = Some 0 \<and> tc_channel_to_peer c 0 = Some (ip, 49152)"
proof -
  let ?c = "fst (run_machine (turn_step E) (bind_events ip 49152) (new_turn_client k s cfg d a))"
  have c: "tc_cfg ?c = cfg" "tc_next_channel ?c = 0"
    "\<forall>key. tc_peer_to_channel ?c key \<noteq> None \<longrightarrow> (\<exists>i<49152. key = endpoint_key ip (word_of_nat i))"
    using run_bind_events [OF assms, of 49152 E ip k s d a] by (simp_all add: Let_def)
  have "(49152 :: u16) \<noteq> word_of_nat i" if "i < 49152" for i
  proof
    assume "(49152 :: u16) = word_of_nat i"
    then have "unat (49152 :: u16) = unat (word_of_nat i :: u16)" by simp
    then show False using that by (simp add: unat_of_nat)
  qed
  then have free: "tc_peer_to_channel ?c (endpoint_key ip 49152) = None"
    using c(3) by (metis endpoint_key_inject)
  have "[0..<49153] = [0..<49152] @ [49152 :: nat]"
    using upt_Suc_append [of 0 49152] by (simp only: numeral_eq_Suc pred_numeral_simps)
  then have "bind_events ip 49153 = bind_events ip 49152 @ [EvBind ip 49152]"
    by (simp add: bind_events_def)
  then have run: "fst (run_machine (turn_step E) (bind_events ip 49153) (new_turn_client k s cfg d a)) =
      fst (bind_channel E ip 49152 ?c)"
    by (simp add: run_machine_append split_beta Let_def)
  have "channel_part (fst (bind_channel E ip 49152 ?c)) =
      ((tc_peer_to_channel ?c)(endpoint_key ip 49152 \<mapsto> 0), (tc_channel_to_peer ?c)(0 \<mapsto> (ip, 49152)), 1)"
    using free c assms by (simp add: bind_channel_table channel_consts)
  then show ?thesis unfolding run Let_def by (simp add: channel_part_def)
qed

theorem turn_channel_counter_wraps_witness:
  "tc_peer_to_channel (fst (run_machine (turn_step sample_env) (bind_events ''10.0.0.1'' 49153)
     (new_turn_client True 7 sample_config True True))) (endpoint_key ''10.0.0.1'' 49152) = Some 0"
  using turn_channel_counter_wraps [of sample_config sample_env "''10.0.0.1''" True 7 True True]
  by (simp add: Let_def sample_config_def default_turn_config_def stun_consts)

text \<open>C32: The ChannelData fast path is transparent: once \<open>bind_channel\<close> has bound a new peer, data sent to
  that peer goes out as one ChannelData frame, and that frame, arriving at the client, is
  delivered to the data callback as exactly the same octets from exactly that peer.\<close>

theorem turn_channel_fast_path:
  assumes "tcf_requested_transport (tc_cfg c) \<noteq> REQUESTED_TRANSPORT_TCP"
    and "tc_peer_to_channel c (endpoint_key ip port) = None"
    and "TURN_CHANNEL_NUMBER_MIN \<le> tc_next_channel c" "tc_next_channel c \<le> TURN_CHANNEL_NUMBER_MAX"
    and "length data \<le> 0xFFFF" and "tc_data_cb c"
  shows "let c' = fst (bind_channel E ip port c); frame = encode_channel_data (tc_next_channel c) data
    in send_indication E ip port data c' = (c', send_to_server frame c') \<and>
       dispatch_inbound_message E frame c' = (c', [DataCb ip port data])"
proof -
  let ?n = "tc_next_channel c" and ?c = "fst (bind_channel E ip port c)"
  have part: "channel_part ?c = ((tc_peer_to_channel c)(endpoint_key ip port \<mapsto> ?n),
      (tc_channel_to_peer c)(?n \<mapsto> (ip, port)), ?n + 1)"
    using assms(1,2) leD [OF assms(4)] by (simp add: bind_channel_table)
  have cb: "tc_data_cb ?c" using bind_channel_parts(1) [of E ip port c] assms(6) by (simp add: parts)
  have nz: "?n \<noteq> 0" using assms(3) by (auto simp: channel_consts)
  have "parse_channel_data (encode_channel_data ?n data) =
      Some (Some \<lparr>cd_channel = ?n, cd_payload = data\<rparr>)"
    using parse_encode_channel_data [of ?n data "[]"] assms(3-5) by (simp add: fits16_def)
  moreover have "is_channel_data (encode_channel_data ?n data)"
    using assms(3,4) by (simp add: is_channel_data_iff encode_channel_data_eq)
  ultimately show ?thesis
    using part cb nz
    by (simp add: Let_def send_indication_def dispatch_inbound_message_def handle_channel_data_def
        parsed_value_def channel_part_def)
qed

theorem turn_channel_fast_path_witness:
  "dispatch_inbound_message sample_env (encode_channel_data 0x4000 [1, 2, 3])
     (fst (bind_channel sample_env ''10.0.0.1'' 9 sample_client)) =
   (fst (bind_channel sample_env ''10.0.0.1'' 9 sample_client), [DataCb ''10.0.0.1'' 9 [1, 2, 3]])"
  using turn_channel_fast_path [of sample_client "''10.0.0.1''" 9 "[1, 2, 3]" sample_env]
  by (simp add: Let_def sample_defs stun_consts channel_consts)

text \<open>On a stream transport the client behaves as if the server's messages arrived one by one: for
  every sequence of messages (each at most 65535 octets), however the carrier cuts their frames
  into chunks, feeding the chunks to \<open>on_inbound\<close> has exactly the state changes and effects of
  dispatching the messages in order, and the incomplete tail stays buffered.\<close>

theorem turn_stream_transparent:
  assumes "stream_client c" and "tc_rx_buffer c = []"
    and "\<forall>m \<in> set msgs. length m \<le> 0xFFFF" and "try_take_stream_frame tail = None"
    and "concat chunks = concat (map (\<lambda>m. snd (encode_stream_frame m [])) msgs) @ tail"
  shows "run_machine (turn_step E) (map EvInbound chunks) c =
    (let (c', acts) = run_machine (dispatch_inbound_message E) msgs c in (c'\<lparr>tc_rx_buffer := tail\<rparr>, acts))"
  using run_inbound_chunks [OF assms(1), of E chunks]
    turn_stream.chunking_invariant [of msgs tail chunks] assms(2-5)
  by (simp add: fits16_def)

theorem turn_stream_transparent_witness:
  "run_machine (turn_step sample_env) (map EvInbound [[0, 2, 5], [6, 0]])
     (new_turn_client True 7 (sample_config\<lparr>tcf_tcp_transport := True\<rparr>) True True) =
   (let (c', acts) = run_machine (dispatch_inbound_message sample_env) [[5, 6]]
      (new_turn_client True 7 (sample_config\<lparr>tcf_tcp_transport := True\<rparr>) True True)
    in (c'\<lparr>tc_rx_buffer := [0]\<rparr>, acts))"
  using turn_stream_transparent [of "new_turn_client True 7 (sample_config\<lparr>tcf_tcp_transport := True\<rparr>) True True"
      "[[5, 6]]" "[0]" "[[0, 2, 5], [6, 0]]" sample_env]
  by (simp add: stream_client_def new_turn_client_def try_take_stream_frame_def
      encode_stream_frame_fits fits16_def write16_def)

text \<open>C31: The answer to an authentication challenge: on a 401 or 438 allocate error the client takes over
  realm and nonce, derives the key MD5(user:realm:password), and what it sends is an ALLOCATE
  request that carries user name, realm and nonce and whose MESSAGE-INTEGRITY verifies under
  that key.\<close>

theorem turn_challenge_answered:
  assumes "hmac_ok (te_hmac E)" and "length (te_txn E (tc_txn_count c)) = 12"
    and "sm_error_code m = Some 401 \<or> sm_error_code m = Some 438"
    and "sm_realm m = Some realm" and "sm_nonce m = Some nonce"
    and "length (tcf_username (tc_cfg c)) + length realm + length nonce \<le> 60000"
  shows "\<exists>c' req r. handle_allocate_error E m c = (c', send_to_server req c') \<and>
    tc_auth_key c' = string_of_bytes (take 16 (te_md5 E (bytes_of_string
      (tcf_username (tc_cfg c) @ '':'' @ realm @ '':'' @ tcf_password (tc_cfg c))))) \<and>
    verify_integrity (te_hmac E) req (tc_auth_key c') = Some True \<and>
    parse_stun (te_inet E) req = accept r \<and> sm_msg_type r = TURN_ALLOCATE_REQUEST \<and>
    sm_username r = Some (tcf_username (tc_cfg c)) \<and> sm_realm r = Some realm \<and> sm_nonce r = Some nonce"
proof -
  define c1 where "c1 = compute_auth_key E (c\<lparr>tc_realm := realm, tc_nonce := nonce\<rparr>)"
  define c2 where "c2 = c1\<lparr>tc_txn_count := tc_txn_count c1 + 1\<rparr>"
  define b where "b = add_requested_transport (tcf_requested_transport (tc_cfg c))
    (new_builder TURN_ALLOCATE_REQUEST (te_txn E (tc_txn_count c)))"
  let ?as = "[(TURN_ATTR_REQUESTED_TRANSPORT, [tcf_requested_transport (tc_cfg c), 0, 0, 0])]"
  have c2: "tc_realm c2 = realm" "tc_nonce c2 = nonce" "tc_cfg c2 = tc_cfg c"
    "tc_txn_count c1 = tc_txn_count c" "tc_cfg c1 = tc_cfg c"
    by (simp_all add: c1_def c2_def compute_auth_key_def Let_def)
  have b: "sb_attrs b = tlvs ?as" "sb_msg_type b = TURN_ALLOCATE_REQUEST"
    "sb_txn_id b = te_txn E (tc_txn_count c)"
    using add_attr_tlvs [of "new_builder TURN_ALLOCATE_REQUEST (te_txn E (tc_txn_count c))" "[]"]
    by (simp_all add: b_def add_requested_transport_def)
  have fit: "credentials_fit ?as c2"
    using assms(6) c2 pad4_less [of "length realm"] pad4_less [of "length nonce"]
      pad4_less [of "length (tcf_username (tc_cfg c))"] pad4_less [of "Suc (Suc (Suc (Suc 0)))"]
    by (simp add: credentials_fit_def credential_attrs_def length_tlv stun_consts)
  have run: "handle_allocate_error E m c = (c2, send_to_server (build (add_credentials E c2 b)) c2)"
    using assms(3-5) c2 by (auto simp: handle_allocate_error_def fresh_builder_def Let_def c1_def c2_def b_def)
  have v: "verify_integrity (te_hmac E) (build (add_credentials E c2 b)) (tc_auth_key c2) = Some True"
    using add_credentials_verify(1) [OF assms(1) b(1) _ fit] assms(2) b(3) by simp
  have key: "tc_auth_key c2 = string_of_bytes (take 16 (te_md5 E (bytes_of_string
      (tcf_username (tc_cfg c) @ '':'' @ realm @ '':'' @ tcf_password (tc_cfg c)))))"
    by (simp add: c1_def c2_def compute_auth_key_def Let_def)
  obtain r where "parse_stun (te_inet E) (build (add_credentials E c2 b)) = accept r"
    "sm_msg_type r = TURN_ALLOCATE_REQUEST" "sm_username r = Some (tcf_username (tc_cfg c))"
    "sm_realm r = Some realm" "sm_nonce r = Some nonce"
    using add_credentials_verify(2) [OF assms(1) b(1) _ fit, of "te_inet E"] assms(2) b c2
    by (auto simp: apply_attr_def stun_consts empty_message_def)
  with run key v show ?thesis by blast
qed

theorem turn_challenge_answered_witness:
  "\<exists>c' req r. handle_allocate_error sample_env
      ((empty_message TURN_ALLOCATE_ERROR (replicate 12 0))
        \<lparr>sm_error_code := Some 401, sm_realm := Some ''r'', sm_nonce := Some ''n''\<rparr>) sample_client =
      (c', send_to_server req c') \<and>
    verify_integrity sample_hmac req (tc_auth_key c') = Some True \<and>
    parse_stun sample_inet req = accept r \<and> sm_nonce r = Some ''n''"
  using turn_challenge_answered [of sample_env sample_client "(empty_message TURN_ALLOCATE_ERROR (replicate 12 0))
      \<lparr>sm_error_code := Some 401, sm_realm := Some ''r'', sm_nonce := Some ''n''\<rparr>" "''r''" "''n''"]
    sample_hmac_ok
  by (force simp: sample_defs)

text \<open>The health gate of the relay never closes: in every run of the client, whatever the server answers
  or leaves unanswered, \<open>is_healthy\<close> equals "allocated"; no operation ever records a failed
  refresh.\<close>

theorem turn_health_is_allocation:
  "is_healthy (fst (run_machine (turn_step E) es (new_turn_client k s cfg d a))) \<longleftrightarrow>
   tc_allocated (fst (run_machine (turn_step E) es (new_turn_client k s cfg d a)))"
proof -
  have "tc_refresh_healthy (fst (run_machine (turn_step E) es (new_turn_client k s cfg d a)))"
    using run_fixed [of E es "new_turn_client k s cfg d a"] by (simp add: fixed_part_def new_turn_client_def)
  then show ?thesis by (simp add: is_healthy_def)
qed

text \<open>Data that follows the ConnectionBind response in the same chunk is lost: if the chunk that carries
  the response to a pending bind also carries the first octets of the peer's stream, and these
  are not a complete frame, the connection becomes bound, nothing is handed to the data callback
  and nothing stays buffered.\<close>

theorem turn_bind_tail_lost:
  assumes "tc_bound_peers c cid = None" and "tc_data_conn_rx_buffers c cid = None"
    and "tc_pending_binds c cid = Some pb"
    and "parse_stun (te_inet E) resp = accept m" and "sm_msg_type m = TURN_CONNECTION_BIND_RESPONSE"
    and "length resp \<le> 0xFFFF" and "try_take_stream_frame tail = None"
  shows "let (c', acts) = on_data_connection_inbound E cid (snd (encode_stream_frame resp []) @ tail) c
    in tc_bound_peers c' cid = Some (pb_peer_ip pb, pb_peer_port pb) \<and>
       tc_data_conn_rx_buffers c' cid = None \<and> (\<forall>ip port bs. DataCb ip port bs \<notin> set acts)"
proof -
  have "drain_stream (concat (map (\<lambda>p. snd (encode_stream_frame p [])) [resp]) @ tail) = ([resp], tail)"
    using turn_stream.drain_frames [of "[resp]"] assms(6,7)
      turn_stream.drain_append [of "concat (map (\<lambda>p. snd (encode_stream_frame p [])) [resp])" tail]
    by (simp add: fits16_def drain_stream.simps [of tail])
  then show ?thesis
    using assms(1-5)
    by (simp add: on_data_connection_inbound_def dispatch_data_conn_message_def parsed_value_def Let_def)
qed

theorem turn_bind_tail_lost_witness:
  "tc_data_conn_rx_buffers (fst (on_data_connection_inbound sample_env 100
     (snd (encode_stream_frame (message TURN_CONNECTION_BIND_RESPONSE (replicate 12 0) []) []) @ [9, 9, 9])
     (sample_client\<lparr>tc_pending_binds := [100 \<mapsto> \<lparr>pb_connection_id = 1, pb_peer_ip = ''p'', pb_peer_port = 2\<rparr>]\<rparr>)))
   100 = None"
proof -
  have "parse_stun (te_inet sample_env) (message TURN_CONNECTION_BIND_RESPONSE (replicate 12 0) []) =
      accept (empty_message TURN_CONNECTION_BIND_RESPONSE (replicate 12 0))"
    using parse_message [of "replicate 12 0" "[]" "te_inet sample_env" TURN_CONNECTION_BIND_RESPONSE "[]"]
    by (simp add: fits_message_def)
  then show ?thesis
    using turn_bind_tail_lost [of "sample_client\<lparr>tc_pending_binds :=
        [100 \<mapsto> \<lparr>pb_connection_id = 1, pb_peer_ip = ''p'', pb_peer_port = 2\<rparr>]\<rparr>" 100
        "\<lparr>pb_connection_id = 1, pb_peer_ip = ''p'', pb_peer_port = 2\<rparr>" sample_env
        "message TURN_CONNECTION_BIND_RESPONSE (replicate 12 0) []"
        "empty_message TURN_CONNECTION_BIND_RESPONSE (replicate 12 0)" "[9, 9, 9]"]
    by (simp add: sample_client_def new_turn_client_def empty_message_def message_def length_stun_header
        try_take_stream_frame_def split_beta Let_def)
qed

end
