(* ===== verification/Reorder.thy ===== *)
theory Reorder
  imports Endian
begin

text \<open>
  Ordered delivery of application data: the sequence number that \<open>IceSession::send_on_strand\<close>
  prepends and the reorder buffer of \<open>IceSession::deliver_in_order\<close> (\<open>src/session.cpp\<close>). The
  buffer is a \<open>std::map\<close> from sequence numbers to frames: here the list of its entries in key
  order. The frames handed to the \<open>on_data\<close> callback are the output.
\<close>

section \<open>State and operations\<close>

record Reorder =
  recv_data_seq :: u32
  recv_reorder_buf :: "(u32 \<times> bytes) list"

definition new_reorder :: Reorder where
  "new_reorder = \<lparr>recv_data_seq = 0, recv_reorder_buf = []\<rparr>"

definition kReorderWindow :: nat where "kReorderWindow = 64"

fun omap_insert :: "u32 \<Rightarrow> bytes \<Rightarrow> (u32 \<times> bytes) list \<Rightarrow> (u32 \<times> bytes) list" where
  "omap_insert k v [] = [(k, v)]"
| "omap_insert k v ((k', v') # m) =
     (if k < k' then (k, v) # (k', v') # m
      else if k = k' then (k, v) # m
      else (k', v') # omap_insert k v m)"

definition omap_erase :: "u32 \<Rightarrow> (u32 \<times> bytes) list \<Rightarrow> (u32 \<times> bytes) list" where
  "omap_erase k m = filter (\<lambda>e. fst e \<noteq> k) m"

lemma omap_erase_length: "map_of m k = Some v \<Longrightarrow> length (omap_erase k m) < length m"
  unfolding omap_erase_def by (rule length_filter_less [of "(k, v)"]) (auto dest: map_of_SomeD)

text \<open>The \<open>while (true)\<close> loop that hands out the consecutive frames already buffered.\<close>

function flush_reorder :: "Reorder \<Rightarrow> Reorder \<times> bytes list" where
  "flush_reorder r =
     (case map_of (recv_reorder_buf r) (recv_data_seq r) of
        None \<Rightarrow> (r, [])
      | Some data \<Rightarrow>
          let (r', out) = flush_reorder
                \<lparr>recv_data_seq = recv_data_seq r + 1,
                 recv_reorder_buf = omap_erase (recv_data_seq r) (recv_reorder_buf r)\<rparr>
          in (r', data # out))"
  by pat_completeness auto
termination
  by (relation "measure (\<lambda>r. length (recv_reorder_buf r))") (auto dest: omap_erase_length)

declare flush_reorder.simps [simp del]

definition deliver_in_order :: "bytes \<Rightarrow> Reorder \<Rightarrow> Reorder \<times> bytes list" where
  "deliver_in_order raw r =
     (if length raw < 4 then (r, [])
      else
        let seq = push_bit 24 (ucast (raw ! 0)) OR push_bit 16 (ucast (raw ! 1))
                    OR push_bit 8 (ucast (raw ! 2)) OR ucast (raw ! 3);
            data = drop 4 raw
        in if seq < recv_data_seq r then (r, [])
           else if seq = recv_data_seq r
           then let (r, out) = flush_reorder (r\<lparr>recv_data_seq := recv_data_seq r + 1\<rparr>)
                in (r, data # out)
           else
             let r = (if length (recv_reorder_buf r) \<ge> kReorderWindow
                      then r\<lparr>recv_data_seq := fst (hd (recv_reorder_buf r))\<rparr> else r)
             in (r\<lparr>recv_reorder_buf := omap_insert seq data (recv_reorder_buf r)\<rparr>, []))"

text \<open>\<open>framed_buf\<close> of \<open>send_on_strand\<close>.\<close>

definition seqno_frame :: "u32 \<Rightarrow> bytes \<Rightarrow> bytes" where
  "seqno_frame seq buf =
     [ucast (drop_bit 24 seq AND 0xFF), ucast (drop_bit 16 seq AND 0xFF),
      ucast (drop_bit 8 seq AND 0xFF), ucast (seq AND 0xFF)] @ buf"

section \<open>Lemmas\<close>

lemma seqno_frame_write32: "seqno_frame seq buf = write32 seq @ buf"
proof -
  have [simp]: "(ucast (w AND 0xFF :: u32) :: byte) = ucast w" for w
  proof (rule bit_word_eqI)
    fix n assume "n < LENGTH(8)"
    moreover have "bit (0xFF :: u32) n \<longleftrightarrow> n < 8"
      using bit_mask_iff [of 8 n, where ?'a = u32] \<open>n < LENGTH(8)\<close> by (simp add: mask_eq_exp_minus_1)
    ultimately show "bit (ucast (w AND 0xFF :: u32) :: byte) n = bit (ucast w :: byte) n"
      by (simp add: bit_simps)
  qed
  show ?thesis by (simp add: seqno_frame_def write32_def)
qed

lemma deliver_seqno_frame:
  "deliver_in_order (seqno_frame seq data) r =
     (if seq < recv_data_seq r then (r, [])
      else if seq = recv_data_seq r
      then let (r, out) = flush_reorder (r\<lparr>recv_data_seq := recv_data_seq r + 1\<rparr>)
           in (r, data # out)
      else
        let r = (if length (recv_reorder_buf r) \<ge> kReorderWindow
                 then r\<lparr>recv_data_seq := fst (hd (recv_reorder_buf r))\<rparr> else r)
        in (r\<lparr>recv_reorder_buf := omap_insert seq data (recv_reorder_buf r)\<rparr>, []))"
proof -
  let ?raw = "write32 seq @ data"
  have "read32 ?raw 0 = Some seq" by (rule c32.dec_front)
  then have "push_bit 24 (ucast (?raw ! 0)) OR push_bit 16 (ucast (?raw ! 1))
               OR push_bit 8 (ucast (?raw ! 2)) OR ucast (?raw ! 3) = seq"
    by (simp add: read32_def eval_nat_numeral)
  moreover have "drop 4 ?raw = data" and "\<not> length ?raw < 4"
    by simp_all
  ultimately show ?thesis
    unfolding deliver_in_order_def seqno_frame_write32 Let_def by simp
qed

lemma omap_insert_keys: "fst ` set (omap_insert k v m) = insert k (fst ` set m)"
  by (induction k v m rule: omap_insert.induct) auto

lemma omap_insert_lookup:
  "sorted_wrt (<) (map fst m) \<Longrightarrow> map_of (omap_insert k v m) = (map_of m)(k \<mapsto> v)"
proof (induction k v m rule: omap_insert.induct)
  case (2 k v k' v' m)
  have "map_of m k = None" if "k < k'"
    using 2(2) that by (force simp: map_of_eq_None_iff)
  with 2 show ?case by (auto simp: fun_eq_iff)
qed auto

lemma omap_insert_sorted:
  "sorted_wrt (<) (map fst m) \<Longrightarrow> sorted_wrt (<) (map fst (omap_insert k v m))"
proof (induction k v m rule: omap_insert.induct)
  case (2 k v k' v' m)
  have keys: "set (map fst (omap_insert k v m)) = insert k (set (map fst m))"
    using omap_insert_keys [of k v m] by simp
  have "k' < k" if "\<not> k < k'" "k \<noteq> k'" using that by simp
  with 2 keys show ?case by (auto simp del: set_map intro: less_trans)
qed simp

lemma omap_insert_end:
  "(\<And>e. e \<in> set m \<Longrightarrow> fst e < k) \<Longrightarrow> omap_insert k v m = m @ [(k, v)]"
proof (induction k v m rule: omap_insert.induct)
  case (2 k v k' v' m)
  have "k' < k" using 2(2) [of "(k', v')"] by simp
  with 2 show ?case by auto
qed simp

lemma omap_erase_lookup: "map_of (omap_erase k m) = (map_of m)(k := None)"
  unfolding omap_erase_def by (induction m) (auto simp: fun_eq_iff)

lemma omap_erase_sorted: "sorted_wrt (<) (map fst m) \<Longrightarrow> sorted_wrt (<) (map fst (omap_erase k m))"
  unfolding omap_erase_def by (induction m) auto

section \<open>Delivery over a network that reorders and duplicates\<close>

text \<open>
  The sender numbers its frames from 0; the frame with number \<open>i\<close> carries \<open>f i\<close>. The network
  delivers the frames \<open>arr\<close>, in this order.
\<close>

definition receive :: "(nat \<Rightarrow> bytes) \<Rightarrow> nat list \<Rightarrow> Reorder \<Rightarrow> Reorder \<times> bytes list" where
  "receive f arr = run_machine deliver_in_order (map (\<lambda>i. seqno_frame (word_of_nat i) (f i)) arr)"

text \<open>No frame overtakes a missing frame by more than 63 positions.\<close>

fun windowed :: "nat list \<Rightarrow> nat list \<Rightarrow> bool" where
  "windowed seen [] \<longleftrightarrow> True"
| "windowed seen (i # arr) \<longleftrightarrow>
     list_all (\<lambda>k. k \<in> set seen) [0..<i - 63] \<and> windowed (i # seen) arr"

text \<open>Sequence numbers below \<open>seq_limit\<close> leave the 32-bit counter room for one more increment.\<close>

definition seq_limit :: nat where "seq_limit = 2 ^ 32 - 1"

lemma seq_limitD: "i < seq_limit \<Longrightarrow> Suc i < 2 ^ 32 \<and> i < 2 ^ 32"
  by (simp add: seq_limit_def)

text \<open>The buffer holds exactly the frames of \<open>S\<close> from \<open>k\<close> on.\<close>

definition holds :: "(nat \<Rightarrow> bytes) \<Rightarrow> nat set \<Rightarrow> nat \<Rightarrow> Reorder \<Rightarrow> bool" where
  "holds f S k r \<longleftrightarrow>
     k < 2 ^ 32 \<and> recv_data_seq r = word_of_nat k \<and>
     sorted_wrt (<) (map fst (recv_reorder_buf r)) \<and>
     (\<forall>w. map_of (recv_reorder_buf r) w = (if k \<le> unat w \<and> unat w \<in> S then Some (f (unat w)) else None))"

lemma unat_seq: "k < 2 ^ 32 \<Longrightarrow> unat (word_of_nat k :: u32) = k"
  by (simp add: unat_of_nat)

lemma unat_seq_inverse: "word_of_nat (unat w) = (w :: u32)"
  by simp

lemma seq_less: "i < 2 ^ 32 \<Longrightarrow> k < 2 ^ 32 \<Longrightarrow> (word_of_nat i :: u32) < word_of_nat k \<longleftrightarrow> i < k"
  by (simp add: word_less_nat_alt unat_seq)

lemma seq_eq: "i < 2 ^ 32 \<Longrightarrow> k < 2 ^ 32 \<Longrightarrow> (word_of_nat i :: u32) = word_of_nat k \<longleftrightarrow> i = k"
  by (metis unat_seq)

lemma holds_erase:
  assumes h: "holds f S k r" and k: "Suc k < 2 ^ 32"
  shows "holds f S (Suc k) \<lparr>recv_data_seq = recv_data_seq r + 1,
           recv_reorder_buf = omap_erase (recv_data_seq r) (recv_reorder_buf r)\<rparr>"
proof -
  let ?s = "recv_data_seq r"
  have s: "?s = word_of_nat k" "unat ?s = k" using h by (simp_all add: holds_def unat_seq)
  have look: "map_of (omap_erase ?s (recv_reorder_buf r)) w =
      (if Suc k \<le> unat w \<and> unat w \<in> S then Some (f (unat w)) else None)" for w
  proof (cases "w = ?s")
    case False
    then have "unat w \<noteq> k" using s(2) by (metis unsigned_word_eqI)
    then have "k \<le> unat w \<longleftrightarrow> Suc k \<le> unat w" by linarith
    with False h show ?thesis by (simp add: holds_def omap_erase_lookup)
  qed (simp add: s(2) omap_erase_lookup)
  moreover have "?s + 1 = word_of_nat (Suc k)" using s(1) by simp
  moreover have "sorted_wrt (<) (map fst (omap_erase ?s (recv_reorder_buf r)))"
    using h by (simp add: holds_def omap_erase_sorted)
  ultimately show ?thesis
    unfolding holds_def using k by (simp del: of_nat_Suc)
qed

lemma flush_holds:
  assumes "holds f S k r" "S \<subseteq> {..<seq_limit}"
  shows "\<exists>n. holds f S n (fst (flush_reorder r)) \<and> k \<le> n \<and> n \<notin> S \<and> {k..<n} \<subseteq> S \<and>
             snd (flush_reorder r) = map f [k..<n]"
  using assms
proof (induction r arbitrary: k rule: flush_reorder.induct)
  case (1 r)
  let ?s = "recv_data_seq r"
  have s: "?s = word_of_nat k" "k < 2 ^ 32" "unat ?s = k"
    using 1(2) by (simp_all add: holds_def unat_seq)
  show ?case
  proof (cases "k \<in> S")
    case False
    then have "map_of (recv_reorder_buf r) ?s = None" using 1(2) s by (simp add: holds_def)
    then have "flush_reorder r = (r, [])" by (subst flush_reorder.simps) simp
    with False 1(2) show ?thesis by (intro exI [of _ k]) simp
  next
    case True
    let ?r = "\<lparr>recv_data_seq = ?s + 1, recv_reorder_buf = omap_erase ?s (recv_reorder_buf r)\<rparr>"
    have look: "map_of (recv_reorder_buf r) ?s = Some (f k)" using 1(2) s True by (simp add: holds_def)
    have "k \<in> {..<seq_limit}" using True 1(3) by (rule subsetD [rotated])
    then have "Suc k < 2 ^ 32" using seq_limitD by (simp only: lessThan_iff)
    with 1(2) have "holds f S (Suc k) ?r" by (rule holds_erase)
    from "1.IH" [OF look this 1(3)] obtain n where n:
      "holds f S n (fst (flush_reorder ?r))" "Suc k \<le> n" "n \<notin> S" "{Suc k..<n} \<subseteq> S"
      "snd (flush_reorder ?r) = map f [Suc k..<n]" by auto
    have "flush_reorder r = (fst (flush_reorder ?r), f k # snd (flush_reorder ?r))"
      by (subst flush_reorder.simps) (simp add: look split_beta Let_def)
    moreover have "[k..<n] = k # [Suc k..<n]" using n(2) by (simp add: upt_conv_Cons)
    moreover have "{k..<n} \<subseteq> S" using n(4) True by (auto simp: subset_eq Suc_le_eq le_less)
    ultimately show ?thesis using n by (intro exI [of _ n]) simp
  qed
qed

lemma holds_insert:
  assumes "holds f S k r" and "k \<le> i" and "i < 2 ^ 32"
  shows "holds f (insert i S) k (r\<lparr>recv_reorder_buf := omap_insert (word_of_nat i) (f i) (recv_reorder_buf r)\<rparr>)"
proof -
  have "map_of (omap_insert (word_of_nat i) (f i) (recv_reorder_buf r)) w =
      (if k \<le> unat w \<and> unat w \<in> insert i S then Some (f (unat w)) else None)" for w
  proof (cases "w = word_of_nat i")
    case True
    then show ?thesis using assms by (simp add: holds_def omap_insert_lookup unat_seq)
  next
    case False
    then have "unat w \<noteq> i" by (metis unat_seq_inverse)
    with False assms(1) show ?thesis by (simp add: holds_def omap_insert_lookup)
  qed
  then show ?thesis using assms(1) by (simp add: holds_def omap_insert_sorted)
qed

lemma holds_keys:
  assumes "holds f S k r" and "S \<subseteq> {..<seq_limit}"
  shows "unat ` fst ` set (recv_reorder_buf r) = {i \<in> S. k \<le> i}"
proof -
  have "w \<in> fst ` set (recv_reorder_buf r) \<longleftrightarrow> k \<le> unat w \<and> unat w \<in> S" for w
    using assms(1) map_of_eq_None_iff [of "recv_reorder_buf r" w] by (auto simp: holds_def split: if_splits)
  moreover have "\<exists>w :: u32. i = unat w" if "i \<in> S" for i
    using assms(2) that unat_seq [of i] seq_limitD [of i] by (metis lessThan_iff subsetD)
  ultimately show ?thesis by (force simp del: image_iff)
qed

lemma holds_length:
  assumes "holds f S k r" and "S \<subseteq> {..<seq_limit}"
  shows "length (recv_reorder_buf r) = card {i \<in> S. k \<le> i}"
proof -
  let ?keys = "map fst (recv_reorder_buf r)"
  have "distinct ?keys"
    using assms(1) strict_sorted_iff [of ?keys] by (simp add: holds_def)
  moreover have "card (unat ` set ?keys) = card (set ?keys)"
    by (rule card_image) (auto intro: inj_onI unsigned_word_eqI)
  ultimately show ?thesis using holds_keys [OF assms] distinct_card [of ?keys] by simp
qed

definition delivered :: "(nat \<Rightarrow> bytes) \<Rightarrow> nat set \<Rightarrow> nat \<Rightarrow> Reorder \<Rightarrow> bool" where
  "delivered f S k r \<longleftrightarrow>
     holds f S k r \<and> k \<notin> S \<and> {..<k} \<subseteq> S \<and> S \<subseteq> {..<seq_limit} \<and> S \<subseteq> {..<k + 64}"

lemma delivered_buffer_size:
  assumes "delivered f S k r"
  shows "length (recv_reorder_buf r) < kReorderWindow"
proof -
  have "{i \<in> S. k \<le> i} \<subseteq> {Suc k..<k + 64}"
    using assms by (auto simp: delivered_def Suc_le_eq order.strict_iff_order)
  then have "card {i \<in> S. k \<le> i} \<le> card {Suc k..<k + 64}" by (rule card_mono [rotated]) simp
  then show ?thesis
    using assms holds_length [of f S k r] by (simp add: delivered_def kReorderWindow_def)
qed

lemma deliver_next:
  assumes d: "delivered f S k r" and k: "k < seq_limit"
  shows "\<exists>n r'. deliver_in_order (seqno_frame (word_of_nat k) (f k)) r = (r', map f [k..<n]) \<and>
           k \<le> n \<and> delivered f (insert k S) n r'"
proof -
  let ?r = "r\<lparr>recv_data_seq := recv_data_seq r + 1\<rparr>" and ?S = "insert k S"
  have h: "holds f S k r" and nk: "k \<notin> S" "{..<k} \<subseteq> S" "S \<subseteq> {..<k + 64}" "S \<subseteq> {..<seq_limit}"
    using d by (simp_all add: delivered_def)
  have "k \<le> unat w \<and> unat w \<in> S \<longleftrightarrow> Suc k \<le> unat w \<and> unat w \<in> ?S" for w :: u32
    using nk(1) by (auto simp: Suc_le_eq order.strict_iff_order)
  then have "holds f ?S (Suc k) ?r"
    using h seq_limitD [OF k] by (simp add: holds_def)
  moreover have "?S \<subseteq> {..<seq_limit}" using nk(4) k by simp
  ultimately have "\<exists>n. holds f ?S n (fst (flush_reorder ?r)) \<and> Suc k \<le> n \<and> n \<notin> ?S \<and>
      {Suc k..<n} \<subseteq> ?S \<and> snd (flush_reorder ?r) = map f [Suc k..<n]"
    by (rule flush_holds)
  then obtain n where n: "holds f ?S n (fst (flush_reorder ?r))" "Suc k \<le> n" "n \<notin> ?S"
    "{Suc k..<n} \<subseteq> ?S" "snd (flush_reorder ?r) = map f [Suc k..<n]"
    by (elim exE conjE)
  have "{..<n} \<subseteq> ?S"
  proof
    fix j assume "j \<in> {..<n}"
    then have "j \<in> {..<k} \<or> j = k \<or> j \<in> {Suc k..<n}" by auto
    then show "j \<in> ?S" using n(4) nk(2) by blast
  qed
  moreover have "?S \<subseteq> {..<n + 64}" using nk(3) n(2) by (auto simp: subset_eq)
  ultimately have "delivered f ?S n (fst (flush_reorder ?r))"
    using n \<open>?S \<subseteq> {..<seq_limit}\<close> by (simp add: delivered_def)
  moreover have "recv_data_seq r = word_of_nat k" using h by (simp add: holds_def)
  moreover have "[k..<n] = k # [Suc k..<n]" using n(2) by (simp add: upt_conv_Cons)
  ultimately have "deliver_in_order (seqno_frame (word_of_nat k) (f k)) r =
      (fst (flush_reorder ?r), map f [k..<n])"
    using n(5) by (simp add: deliver_seqno_frame split_beta Let_def)
  with \<open>delivered f ?S n (fst (flush_reorder ?r))\<close> n(2) show ?thesis
    by (metis Suc_leD)
qed

lemma deliver_later:
  assumes d: "delivered f S k r" and i: "k < i" "i < seq_limit" "i < k + 64"
  shows "\<exists>r'. deliver_in_order (seqno_frame (word_of_nat i) (f i)) r = (r', []) \<and>
           delivered f (insert i S) k r'"
proof -
  let ?r = "r\<lparr>recv_reorder_buf := omap_insert (word_of_nat i) (f i) (recv_reorder_buf r)\<rparr>"
  have h: "holds f S k r" and k: "k < 2 ^ 32" and rs: "recv_data_seq r = word_of_nat k"
    using d by (simp_all add: delivered_def holds_def)
  have i32: "i < 2 ^ 32" using seq_limitD [OF i(2)] by simp
  have "holds f (insert i S) k ?r" using h i(1) i32 by (intro holds_insert) simp_all
  then have "delivered f (insert i S) k ?r"
    using d i by (auto simp: delivered_def)
  moreover have "deliver_in_order (seqno_frame (word_of_nat i) (f i)) r = (?r, [])"
    using delivered_buffer_size [OF d] i(1) k i32 rs
    by (simp add: deliver_seqno_frame seq_less seq_eq Let_def not_le)
  ultimately show ?thesis by blast
qed

lemma deliver_old:
  assumes d: "delivered f S k r" and i: "i < k"
  shows "deliver_in_order (seqno_frame (word_of_nat i) (f i)) r = (r, []) \<and> insert i S = S"
proof -
  have "recv_data_seq r = word_of_nat k" "k < 2 ^ 32" "i \<in> S"
    using d i by (auto simp: delivered_def holds_def)
  then show ?thesis using i by (auto simp: deliver_seqno_frame seq_less)
qed

lemma receive_Cons:
  "receive f (i # arr) r =
     (let (r1, o1) = deliver_in_order (seqno_frame (word_of_nat i) (f i)) r; (r2, o2) = receive f arr r1
      in (r2, o1 @ o2))"
  by (simp add: receive_def)

lemma receive_append:
  "receive f (xs @ ys) r =
     (let (r1, o1) = receive f xs r; (r2, o2) = receive f ys r1 in (r2, o1 @ o2))"
  by (simp add: receive_def run_machine_append)

lemma deliver_step:
  assumes d: "delivered f S k r" and i: "i < seq_limit" and w: "{..<i - 63} \<subseteq> S"
  shows "\<exists>n r'. deliver_in_order (seqno_frame (word_of_nat i) (f i)) r = (r', map f [k..<n]) \<and>
           k \<le> n \<and> delivered f (insert i S) n r'"
proof (cases i k rule: linorder_cases)
  case less
  from deliver_old [OF d less] d show ?thesis by (intro exI [of _ k] exI [of _ r]) simp
next
  case equal
  with deliver_next [OF d] i show ?thesis by simp
next
  case greater
  have "k \<notin> S" using d by (simp add: delivered_def)
  then have "\<not> k < i - 63" using w by auto
  then have "i < k + 64" by simp
  from deliver_later [OF d greater i this] obtain r' where
    "deliver_in_order (seqno_frame (word_of_nat i) (f i)) r = (r', [])" "delivered f (insert i S) k r'"
    by blast
  then show ?thesis by (intro exI [of _ k] exI [of _ r']) simp
qed

lemma receive_delivered:
  assumes "delivered f (set seen) k r" "windowed seen arr" "list_all (\<lambda>i. i < seq_limit) arr"
  shows "\<exists>n r'. receive f arr r = (r', map f [k..<n]) \<and> k \<le> n \<and>
           delivered f (set seen \<union> set arr) n r'"
  using assms
proof (induction arr arbitrary: seen k r)
  case Nil
  then show ?case by (intro exI [of _ k] exI [of _ r]) (simp add: receive_def)
next
  case (Cons i arr)
  have i: "i < seq_limit" "{..<i - 63} \<subseteq> set seen"
    using Cons.prems(2,3) by (auto simp: list_all_iff)
  from deliver_step [OF Cons.prems(1) this] obtain m r1 where m:
    "deliver_in_order (seqno_frame (word_of_nat i) (f i)) r = (r1, map f [k..<m])" "k \<le> m"
    "delivered f (set (i # seen)) m r1" by auto
  moreover have "windowed (i # seen) arr" "list_all (\<lambda>i. i < seq_limit) arr"
    using Cons.prems(2,3) by simp_all
  ultimately obtain n r2 where n: "receive f arr r1 = (r2, map f [m..<n])" "m \<le> n"
    "delivered f (set (i # seen) \<union> set arr) n r2" using Cons.IH by blast
  have "[k..<n] = [k..<m] @ [m..<n]" using m(2) n(2) by (metis le_Suc_ex upt_add_eq_append)
  with m n show ?case
    by (intro exI [of _ n] exI [of _ r2]) (simp add: receive_Cons)
qed

lemma delivered_new: "delivered f {} 0 new_reorder"
  by (simp add: delivered_def holds_def new_reorder_def)

section \<open>Properties\<close>

text \<open>C9: Ordered delivery. If no frame overtakes a missing frame by more than 63 positions, then
  whatever the order in which the frames arrive and however often each one is duplicated, the
  application receives exactly the frames \<open>0, 1, ..., k - 1\<close>, once each and in this order,
  where \<open>k\<close> is the first frame that has not arrived: nothing is lost, repeated, reordered or
  held back.\<close>

theorem ordered_delivery:
  assumes "windowed [] arr" and "list_all (\<lambda>i. i < seq_limit) arr"
  shows "\<exists>k. snd (receive f arr new_reorder) = map f [0..<k] \<and> {..<k} \<subseteq> set arr \<and> k \<notin> set arr \<and>
             recv_data_seq (fst (receive f arr new_reorder)) = word_of_nat k"
proof -
  obtain n r where "receive f arr new_reorder = (r, map f [0..<n])"
    "delivered f (set arr) n r"
    using receive_delivered [of f "[]" 0 new_reorder arr] delivered_new assms by auto
  then show ?thesis by (intro exI [of _ n]) (simp add: delivered_def holds_def)
qed

theorem ordered_delivery_witness:
  "snd (receive (\<lambda>i. [word_of_nat i]) [1, 0, 0, 3, 2, 5] new_reorder) = [[0], [1], [2], [3]]"
proof -
  have "windowed [] [1, 0, 0, 3, 2, 5]" by simp
  moreover have "list_all (\<lambda>i. i < seq_limit) [1, 0, 0, 3, 2, 5]" by (simp add: seq_limit_def)
  ultimately obtain k where k:
    "snd (receive (\<lambda>i. [word_of_nat i]) [1, 0, 0, 3, 2, 5] new_reorder) = map (\<lambda>i. [word_of_nat i]) [0..<k]"
    "{..<k} \<subseteq> {1, 0, 3, 2, 5}" "k \<notin> {1, 0, 3, 2, 5}"
    using ordered_delivery [of "[1, 0, 0, 3, 2, 5]" "\<lambda>i. [word_of_nat i]"] by auto
  have "(4 :: nat) \<notin> {1, 0, 3, 2, 5}" by simp
  then have "\<not> 4 < k" using k(2) by blast
  then have "k < 5" by simp
  then have "k = 4" using k(3) by auto
  with k(1) show ?thesis by (simp add: upt_rec)
qed

lemma stalled_prefix:
  assumes "n < seq_limit"
  shows "receive f [1..<Suc n] new_reorder =
     (\<lparr>recv_data_seq = (if n \<le> 64 then 0 else 1),
       recv_reorder_buf = map (\<lambda>i. (word_of_nat i, f i)) [1..<Suc n]\<rparr>, [])"
  using assms
proof (induction n)
  case 0
  then show ?case by (simp add: receive_def new_reorder_def)
next
  case (Suc n)
  let ?b = "map (\<lambda>i. (word_of_nat i :: u32, f i)) [Suc 0..<Suc n]" and ?w = "word_of_nat (Suc n) :: u32"
  let ?q = "if n \<le> 64 then 0 else 1 :: u32"
  have lim: "Suc n < 2 ^ 32" using seq_limitD [OF Suc.prems] by simp
  have ins: "omap_insert ?w (f (Suc n)) ?b = ?b @ [(?w, f (Suc n))]"
    using lim by (intro omap_insert_end) (auto simp: seq_less simp del: of_nat_Suc)
  have q: "\<not> ?w < ?q" "?w \<noteq> ?q"
    using lim seq_less [of "Suc n" 1] seq_less [of "Suc n" 0] seq_eq [of "Suc n" 0] seq_eq [of "Suc n" 1]
    by (auto simp del: of_nat_Suc One_nat_def)
  have hd: "fst (hd ?b) = 1" if "64 \<le> n" using that by (simp add: upt_conv_Cons [of "Suc 0" "Suc n"] del: upt_Suc)
  have len: "length ?b = n" by (simp del: upt_Suc)
  have "receive f [Suc n] \<lparr>recv_data_seq = ?q, recv_reorder_buf = ?b\<rparr> =
      (\<lparr>recv_data_seq = (if Suc n \<le> 64 then 0 else 1), recv_reorder_buf = ?b @ [(?w, f (Suc n))]\<rparr>, [])"
    using q hd unfolding ins [symmetric]
    by (simp add: receive_def deliver_seqno_frame Let_def kReorderWindow_def len
      del: of_nat_Suc upt_Suc length_map length_upt One_nat_def)
  moreover have "[1..<Suc (Suc n)] = [1..<Suc n] @ [Suc n]" by simp
  moreover have "n < seq_limit" using Suc.prems by simp
  ultimately show ?case
    using Suc.IH by (simp only: receive_append) (simp del: of_nat_Suc upt_Suc)
qed

text \<open>The state after an overflow: the expected frame 1 is itself in a buffer that fills the window.\<close>

definition stalled :: "(nat \<Rightarrow> bytes) \<Rightarrow> nat set \<Rightarrow> Reorder \<Rightarrow> bool" where
  "stalled f S r \<longleftrightarrow> holds f S 1 r \<and> 1 \<in> S \<and> S \<subseteq> {..<seq_limit} \<and> kReorderWindow \<le> card {i \<in> S. 1 \<le> i}"

lemma holds_first:
  assumes "holds f S k r" and "k \<in> S"
  shows "fst (hd (recv_reorder_buf r)) = word_of_nat k"
proof -
  let ?b = "recv_reorder_buf r" and ?w = "word_of_nat k :: u32"
  have w: "unat ?w = k" using assms(1) by (simp add: holds_def unat_seq)
  then have "map_of ?b ?w \<noteq> None" using assms by (simp add: holds_def)
  then have "?w \<in> fst ` set ?b" by (simp add: map_of_eq_None_iff)
  then obtain e m where b: "?b = e # m" by (cases ?b) auto
  have "map_of ?b (fst e) \<noteq> None" by (simp add: b)
  then have "?w \<le> fst e" using assms(1) w by (auto simp: holds_def word_le_nat_alt split: if_splits)
  moreover have "fst e \<le> ?w"
    using assms(1) \<open>?w \<in> fst ` set ?b\<close> by (auto simp: holds_def b less_imp_le)
  ultimately show ?thesis by (simp add: b)
qed

lemma deliver_stalled:
  assumes s: "stalled f S r" and j: "j \<noteq> 1" "j < seq_limit"
  shows "\<exists>r'. deliver_in_order (seqno_frame (word_of_nat j) (f j)) r = (r', []) \<and> stalled f (insert j S) r'"
proof -
  have h: "holds f S 1 r" "1 \<in> S" "S \<subseteq> {..<seq_limit}" and win: "kReorderWindow \<le> card {i \<in> S. 1 \<le> i}"
    using s by (simp_all add: stalled_def)
  have seq: "recv_data_seq r = word_of_nat 1" using h(1) by (simp add: holds_def)
  have j32: "j < 2 ^ 32" using seq_limitD [OF j(2)] by simp
  have "finite {i \<in> insert j S. 1 \<le> i}" using h(3) by (auto intro: finite_subset [of _ "insert j {..<seq_limit}"])
  then have "card {i \<in> S. 1 \<le> i} \<le> card {i \<in> insert j S. 1 \<le> i}" by (rule card_mono) auto
  with win have grown: "kReorderWindow \<le> card {i \<in> insert j S. 1 \<le> i}" by simp
  show ?thesis
  proof (cases "j = 0")
    case True
    have "holds f (insert j S) 1 r" using h(1) by (auto simp: holds_def True)
    moreover have "deliver_in_order (seqno_frame (word_of_nat j) (f j)) r = (r, [])"
      using seq by (simp add: True deliver_seqno_frame)
    ultimately show ?thesis using h j grown by (auto simp: stalled_def)
  next
    case False
    let ?r = "r\<lparr>recv_reorder_buf := omap_insert (word_of_nat j) (f j) (recv_reorder_buf r)\<rparr>"
    have "holds f (insert j S) 1 ?r" using h(1) False j32 by (intro holds_insert) simp_all
    moreover have "fst (hd (recv_reorder_buf r)) = recv_data_seq r" using holds_first [OF h(1,2)] seq by simp
    then have "r\<lparr>recv_data_seq := fst (hd (recv_reorder_buf r))\<rparr> = r" by simp
    then have "deliver_in_order (seqno_frame (word_of_nat j) (f j)) r = (?r, [])"
      using seq False j(1) j32 seq_less [of j 1] seq_eq [of j 1]
      by (simp add: deliver_seqno_frame Let_def)
    ultimately show ?thesis using h j grown by (auto simp: stalled_def)
  qed
qed

lemma receive_stalled:
  assumes "stalled f S r" and "list_all (\<lambda>j. j \<noteq> 1 \<and> j < seq_limit) js"
  shows "\<exists>r'. receive f js r = (r', []) \<and> stalled f (S \<union> set js) r'"
  using assms
proof (induction js arbitrary: S r)
  case Nil
  then show ?case by (simp add: receive_def)
next
  case (Cons j js)
  then obtain r1 where "deliver_in_order (seqno_frame (word_of_nat j) (f j)) r = (r1, [])" "stalled f (insert j S) r1"
    using deliver_stalled [of f S r j] by auto
  moreover from this obtain r2 where "receive f js r1 = (r2, [])" "stalled f (insert j S \<union> set js) r2"
    using Cons.IH [of "insert j S" r1] Cons.prems(2) by auto
  ultimately show ?case by (simp add: receive_Cons)
qed

lemma stalled_overflow:
  assumes "64 < n" and "n < seq_limit"
  shows "\<exists>r. receive f [1..<Suc n] new_reorder = (r, []) \<and> stalled f {1..n} r"
proof -
  let ?b = "map (\<lambda>i. (word_of_nat i :: u32, f i)) [1..<Suc n]"
  have lim: "i < 2 ^ 32" if "i \<le> n" for i using that seq_limitD [OF assms(2)] by simp
  have keys: "sorted_wrt (<) (map fst ?b)"
    unfolding map_map sorted_wrt_map
    by (rule sorted_wrt_mono_rel [OF _ sorted_wrt_upt]) (use lim in \<open>simp add: seq_less del: upt_Suc\<close>)
  have look: "map_of ?b w = (if 1 \<le> unat w \<and> unat w \<in> {1..n} then Some (f (unat w)) else None)" for w :: u32
  proof (cases "unat w \<in> {1..n}")
    case True
    then have "(w, f (unat w)) \<in> set ?b" by (auto simp del: upt_Suc intro!: image_eqI [of _ _ "unat w"])
    moreover have "distinct (map fst ?b)" using keys strict_sorted_iff by blast
    ultimately have "map_of ?b w = Some (f (unat w))" by (rule map_of_is_SomeI [rotated])
    with True show ?thesis by (simp del: upt_Suc)
  next
    case False
    have "w \<notin> fst ` set ?b" using False lim by (auto simp: unat_seq simp del: upt_Suc)
    then show ?thesis using False by (auto simp: map_of_eq_None_iff simp del: upt_Suc)
  qed
  have "{i \<in> {1..n}. 1 \<le> i} = {1..n}" by auto
  then have "stalled f {1..n} \<lparr>recv_data_seq = 1, recv_reorder_buf = ?b\<rparr>"
    using keys look assms by (auto simp: stalled_def holds_def kReorderWindow_def simp del: upt_Suc)
  then show ?thesis using stalled_prefix [OF assms(2), of f] assms(1) by (simp del: upt_Suc)
qed

text \<open>The loop that hands out frames looks only at keys from the expected number on.\<close>

lemma flush_from:
  assumes "\<And>w. k \<le> unat w \<Longrightarrow> map_of (recv_reorder_buf r) w = (if unat w \<in> S then Some (f (unat w)) else None)"
    and "recv_data_seq r = word_of_nat k" and "k < 2 ^ 32" and "S \<subseteq> {..<seq_limit}"
  shows "\<exists>n\<ge>k. n \<notin> S \<and> snd (flush_reorder r) = map f [k..<n]"
  using assms(1-3)
proof (induction r arbitrary: k rule: flush_reorder.induct)
  case (1 r)
  let ?s = "recv_data_seq r"
  let ?r = "\<lparr>recv_data_seq = ?s + 1, recv_reorder_buf = omap_erase ?s (recv_reorder_buf r)\<rparr>"
  have s: "unat ?s = k" using 1(3,4) by (simp add: unat_seq)
  show ?case
  proof (cases "k \<in> S")
    case False
    then have "map_of (recv_reorder_buf r) ?s = None" using 1(2) [of ?s] s by simp
    then have "flush_reorder r = (r, [])" by (subst flush_reorder.simps) simp
    with False show ?thesis by (intro exI [of _ k]) simp
  next
    case True
    have look: "map_of (recv_reorder_buf r) ?s = Some (f k)" using 1(2) [of ?s] s True by simp
    have "k < seq_limit" using True assms(4) by auto
    then have "Suc k < 2 ^ 32" using seq_limitD by blast
    moreover have "map_of (recv_reorder_buf ?r) w = (if unat w \<in> S then Some (f (unat w)) else None)" if "Suc k \<le> unat w" for w
      using that 1(2) [of w] s by (auto simp: omap_erase_lookup)
    ultimately obtain n where n: "Suc k \<le> n" "n \<notin> S" "snd (flush_reorder ?r) = map f [Suc k..<n]"
      using "1.IH" [OF look, of "Suc k"] 1(3) by auto
    have "snd (flush_reorder r) = f k # snd (flush_reorder ?r)"
      by (subst flush_reorder.simps) (simp add: look split_beta Let_def)
    moreover have "[k..<n] = k # [Suc k..<n]" using n(1) by (simp add: upt_conv_Cons)
    ultimately show ?thesis using n by (intro exI [of _ n]) simp
  qed
qed

text \<open>C27: Overflow of the reorder window stalls delivery. When frame 0 is lost and the frames 1 to n follow,
  n > 64, the overflow branch makes frame 1 the expected one although it is already in the buffer. From then on no
  arrival but a second copy of frame 1 delivers anything: for any further arrivals \<open>js\<close> without frame 1, a late
  frame 0 and all later frames included, nothing reaches the application and the buffer holds every frame from 1 on
  that has arrived, far beyond the window. A second copy of frame 1, should the network make one, releases the
  frames 1 to n and those that follow without a gap.\<close>

theorem reorder_overflow_stalls:
  assumes "64 < n" and "n < seq_limit" and "list_all (\<lambda>j. j \<noteq> 1 \<and> j < seq_limit) js"
  shows "snd (receive f ([1..<Suc n] @ js) new_reorder) = [] \<and>
    recv_data_seq (fst (receive f ([1..<Suc n] @ js) new_reorder)) = 1 \<and>
    length (recv_reorder_buf (fst (receive f ([1..<Suc n] @ js) new_reorder))) = card ({1..n} \<union> (set js - {0})) \<and>
    (\<exists>m>n. snd (receive f ([1..<Suc n] @ js @ [1]) new_reorder) = map f [1..<m] \<and> m \<notin> set js)"
proof -
  let ?S = "{1..n} \<union> set js"
  obtain r0 where r0: "receive f [1..<Suc n] new_reorder = (r0, [])" "stalled f {1..n} r0"
    using stalled_overflow [OF assms(1,2)] by blast
  obtain r where r: "receive f js r0 = (r, [])" "stalled f ?S r"
    using receive_stalled [OF r0(2) assms(3)] by blast
  have run: "receive f ([1..<Suc n] @ js) new_reorder = (r, [])"
    using r0(1) r(1) by (simp add: receive_append del: upt_Suc)
  have h: "holds f ?S 1 r" "?S \<subseteq> {..<seq_limit}" using r(2) by (simp_all add: stalled_def)
  have set: "{i \<in> ?S. 1 \<le> i} = {1..n} \<union> (set js - {0})" by auto
  let ?r = "r\<lparr>recv_data_seq := recv_data_seq r + 1\<rparr>"
  have del: "deliver_in_order (seqno_frame (word_of_nat 1) (f 1)) r = (fst (flush_reorder ?r), f 1 # snd (flush_reorder ?r))"
    using h(1) by (simp add: holds_def deliver_seqno_frame split_beta)
  have "\<exists>m\<ge>2. m \<notin> ?S \<and> snd (flush_reorder ?r) = map f [2..<m]"
    by (rule flush_from [OF _ _ _ h(2)]) (use h(1) in \<open>simp_all add: holds_def\<close>)
  then obtain m where m: "2 \<le> m" "m \<notin> ?S" "snd (flush_reorder ?r) = map f [2..<m]" by blast
  have "n < m" using m(1,2) by auto
  moreover have "f 1 # snd (flush_reorder ?r) = map f [1..<m]"
    using m upt_conv_Cons [of 1 m] by (simp add: numeral_2_eq_2)
  ultimately have m: "n < m" "m \<notin> set js" "f 1 # snd (flush_reorder ?r) = map f [1..<m]" using m(2) by auto
  then have "snd (receive f ([1..<Suc n] @ js @ [1]) new_reorder) = map f [1..<m]"
    using receive_append [of f "[1..<Suc n] @ js" "[1]" new_reorder] run del
    by (simp add: receive_Cons receive_def [of f "[]"] del: upt_Suc)
  moreover have "length (recv_reorder_buf r) = card ({1..n} \<union> (set js - {0}))"
    using holds_length [OF h] unfolding set .
  moreover have "recv_data_seq r = 1" using h(1) by (simp add: holds_def)
  ultimately show ?thesis using m(1,2) unfolding run fst_conv snd_conv by blast
qed

theorem reorder_overflow_stalls_witness:
  "snd (receive (\<lambda>i. []) ([1..<Suc 100] @ [0, 200]) new_reorder) = [] \<and>
   length (recv_reorder_buf (fst (receive (\<lambda>i. []) ([1..<Suc 100] @ [0, 200]) new_reorder))) = 101"
proof -
  have "(100 :: nat) < seq_limit" "list_all (\<lambda>j. j \<noteq> 1 \<and> j < seq_limit) [0, 200]" by (simp_all add: seq_limit_def)
  note r = reorder_overflow_stalls [OF _ this, of "\<lambda>i. []"]
  have "card ({1..100} \<union> (set [0, 200] - {0 :: nat})) = 101" by simp
  with r show ?thesis by (simp del: upt_Suc)
qed

end
