(* ===== verification/Check_List.thy ===== *)
theory Check_List
  imports Candidate Stun_Builder "HOL-Library.Multiset"
begin

text \<open>
  The connectivity check list of \<open>src/session.hpp\<close> and \<open>src/session.cpp\<close>: candidate filters,
  check pairs and their states, the construction of the list (\<open>build_check_list\<close>,
  \<open>assign_local_foundations\<close>, \<open>assign_initial_pair_states\<close>), and the operations that walk it
  (\<open>in_progress_count\<close>, \<open>unfreeze_siblings\<close>, \<open>unfreeze_stuck_pairs\<close>, the scan for the
  nominee). The list is a pure value here; the session threads it through its state.
  \<open>std::ranges::sort\<close> is not stable, so the sorting routine is a parameter of which only the
  documented behaviour is used (\<open>sort_ok\<close>).
\<close>

section \<open>Candidate filters\<close>

definition kCandidateFilterExcludeIpv4 :: u32 where "kCandidateFilterExcludeIpv4 = push_bit 0 1"
definition kCandidateFilterExcludeIpv6 :: u32 where "kCandidateFilterExcludeIpv6 = push_bit 1 1"
definition kCandidateFilterRelayOnly :: u32 where "kCandidateFilterRelayOnly = push_bit 2 1"
definition kCandidateFilterHostOnly :: u32 where "kCandidateFilterHostOnly = push_bit 3 1"

lemmas filter_consts = kCandidateFilterExcludeIpv4_def kCandidateFilterExcludeIpv6_def
  kCandidateFilterRelayOnly_def kCandidateFilterHostOnly_def

definition candidate_allowed :: "CandidateType \<Rightarrow> AddressFamily \<Rightarrow> u32 \<Rightarrow> bool" where
  "candidate_allowed type family filter_flags =
     (if filter_flags AND kCandidateFilterExcludeIpv4 \<noteq> 0 \<and> family = IPv4 then False
      else if filter_flags AND kCandidateFilterExcludeIpv6 \<noteq> 0 \<and> family = IPv6 then False
      else if filter_flags AND kCandidateFilterRelayOnly \<noteq> 0 \<and> type \<noteq> Relay then False
      else if filter_flags AND kCandidateFilterHostOnly \<noteq> 0 \<and> type \<noteq> Host then False
      else True)"

section \<open>Check pairs\<close>

datatype PairState = Frozen | Waiting | InProgress | Succeeded | PairFailed

definition kCheckConcurrencyCap :: nat where "kCheckConcurrencyCap = 10"

record CheckPair =
  cp_local :: Candidate
  cp_remote :: Candidate
  cp_priority :: u64
  cp_retries :: byte
  cp_nominated :: bool
  cp_state :: PairState
  cp_valid :: bool
  cp_nominee_check_sent :: bool
  cp_triggered :: bool
  cp_pending_nomination :: bool
  cp_txn_id :: TransactionId
  cp_txn_send_us :: u64
  cp_transport_type :: TransportType

definition empty_pair :: CheckPair where
  "empty_pair = \<lparr>cp_local = empty_candidate, cp_remote = empty_candidate, cp_priority = 0,
     cp_retries = 0, cp_nominated = False, cp_state = Frozen, cp_valid = False,
     cp_nominee_check_sent = False, cp_triggered = False, cp_pending_nomination = False,
     cp_txn_id = replicate 12 0, cp_txn_send_us = 0, cp_transport_type = Udp\<rparr>"

definition tcp_transport_pairs :: "TransportType \<Rightarrow> TransportType \<Rightarrow> bool" where
  "tcp_transport_pairs l r =
     (if l = TcpActive then r = TcpPassive
      else if l = TcpPassive then r = TcpActive
      else if l = TcpSimultaneousOpen then r = TcpSimultaneousOpen
      else False)"

section \<open>Construction of the list\<close>

text \<open>The foundation a candidate gets when it has none.\<close>

definition fill_foundation :: "inet \<Rightarrow> Candidate \<Rightarrow> Candidate" where
  "fill_foundation I c =
     (if cand_foundation c \<noteq> [] then c
      else c\<lparr>cand_foundation := compute_foundation (cand_type c) (address_str I c) [] (cand_transport c)\<rparr>)"

definition assign_local_foundations :: "inet \<Rightarrow> Candidate list \<Rightarrow> Candidate list" where
  "assign_local_foundations I = map (fill_foundation I)"

text \<open>The three \<open>continue\<close> guards of the inner loop, and the one of the outer loop.\<close>

definition pairable :: "Candidate \<Rightarrow> Candidate \<Rightarrow> bool" where
  "pairable local remote \<longleftrightarrow>
     cand_type local \<noteq> HostMdns \<and>
     \<not> (cand_type remote = HostMdns \<and> cand_hostname remote \<noteq> []) \<and>
     cand_family local = cand_family remote \<and>
     (cand_transport local = Udp \<and> cand_transport remote = Udp \<or>
      tcp_transport_pairs (cand_transport local) (cand_transport remote))"

definition canonical_pair :: "bool \<Rightarrow> TransactionId \<Rightarrow> Candidate \<Rightarrow> Candidate \<Rightarrow> CheckPair" where
  "canonical_pair controlling txn local remote =
     empty_pair\<lparr>cp_local := local, cp_remote := remote, cp_transport_type := cand_transport local,
       cp_priority := pair_priority (cand_priority local) (cand_priority remote) controlling,
       cp_txn_id := txn\<rparr>"

definition predicted_port :: "u16 \<Rightarrow> u16 \<Rightarrow> nat \<Rightarrow> u32" where
  "predicted_port port stride k = ucast port + ucast stride * word_of_nat k"

definition predicted_pair :: "TransactionId \<Rightarrow> u32 \<Rightarrow> CheckPair \<Rightarrow> CheckPair" where
  "predicted_pair txn predicted pair =
     pair\<lparr>cp_remote := (cp_remote pair)\<lparr>cand_port := ucast predicted,
            cand_foundation := cand_foundation (cp_remote pair) @ '':p'' @ to_string (unat predicted)\<rparr>,
          cp_txn_id := txn,
          cp_priority := (if cp_priority pair > 0 then cp_priority pair - 1 else 0)\<rparr>"

text \<open>
  Transaction ids come from a counter: \<open>txn n\<close> is the n-th id the generator returns. The loops
  return the pairs they push and the counter.
\<close>

fun predicted_pairs ::
  "(nat \<Rightarrow> TransactionId) \<Rightarrow> u16 \<Rightarrow> CheckPair \<Rightarrow> nat list \<Rightarrow> nat \<Rightarrow> CheckPair list \<times> nat" where
  "predicted_pairs txn stride pair [] n = ([], n)"
| "predicted_pairs txn stride pair (k # ks) n =
     (let predicted = predicted_port (cand_port (cp_remote pair)) stride k
      in if predicted > 65535 then ([], n)
         else let (pps, m) = predicted_pairs txn stride pair ks (n + 1)
              in (predicted_pair (txn n) predicted pair # pps, m))"

definition pairs_of_candidates ::
  "(nat \<Rightarrow> TransactionId) \<Rightarrow> bool \<Rightarrow> u16 \<Rightarrow> nat \<Rightarrow> Candidate \<Rightarrow> Candidate \<Rightarrow> nat \<Rightarrow> CheckPair list \<times> nat" where
  "pairs_of_candidates txn controlling stride attempts local remote n =
     (if \<not> pairable local remote then ([], n)
      else
        let pair = canonical_pair controlling (txn n) local remote
        in if attempts > 0 \<and> cand_type remote = Srflx
           then let (pps, m) = predicted_pairs txn stride pair [1..<Suc attempts] (n + 1) in (pair # pps, m)
           else ([pair], n + 1))"

fun collect_pairs :: "('a \<Rightarrow> nat \<Rightarrow> CheckPair list \<times> nat) \<Rightarrow> 'a list \<Rightarrow> nat \<Rightarrow> CheckPair list \<times> nat" where
  "collect_pairs f [] n = ([], n)"
| "collect_pairs f (x # xs) n =
     (let (ps, m) = f x n; (qs, k) = collect_pairs f xs m in (ps @ qs, k))"

definition form_pairs ::
  "(nat \<Rightarrow> TransactionId) \<Rightarrow> bool \<Rightarrow> u16 \<Rightarrow> nat \<Rightarrow> Candidate list \<Rightarrow> Candidate list \<Rightarrow> nat \<Rightarrow> CheckPair list \<times> nat" where
  "form_pairs txn controlling stride attempts locals remotes n =
     collect_pairs (\<lambda>local. collect_pairs (\<lambda>remote.
       pairs_of_candidates txn controlling stride attempts local remote) remotes) locals n"

definition tuple_key :: "CheckPair \<Rightarrow> string" where
  "tuple_key p = cand_foundation (cp_local p) @ ''|'' @ cand_foundation (cp_remote p)"

fun initial_states :: "string set \<Rightarrow> CheckPair list \<Rightarrow> CheckPair list" where
  "initial_states seen [] = []"
| "initial_states seen (p # ps) =
     (if tuple_key p \<in> seen
      then p\<lparr>cp_state := Frozen\<rparr> # initial_states seen ps
      else p\<lparr>cp_state := Waiting\<rparr> # initial_states (insert (tuple_key p) seen) ps)"

definition assign_initial_pair_states :: "CheckPair list \<Rightarrow> CheckPair list" where
  "assign_initial_pair_states = initial_states {}"

definition prediction_stride :: "u32 \<Rightarrow> bool \<Rightarrow> u16 \<Rightarrow> u16" where
  "prediction_stride peer_flags enabled own =
     (let peer_symmetric = peer_flags AND ICE_SIGNAL_FLAG_SYMMETRIC \<noteq> 0
      in if \<not> peer_symmetric \<or> \<not> enabled then 0 else if own \<noteq> 0 then own else 1)"

definition prediction_attempts :: "u16 \<Rightarrow> int \<Rightarrow> nat" where
  "prediction_attempts stride configured = (if stride \<noteq> 0 \<and> configured > 0 then nat configured else 0)"

text \<open>The whole construction: foundations, pairs, sort, initial states.\<close>

definition make_check_list ::
  "inet \<Rightarrow> (CheckPair list \<Rightarrow> CheckPair list) \<Rightarrow> (nat \<Rightarrow> TransactionId) \<Rightarrow> bool \<Rightarrow> u16 \<Rightarrow> nat \<Rightarrow>
   Candidate list \<Rightarrow> Candidate list \<Rightarrow> nat \<Rightarrow> CheckPair list \<times> nat" where
  "make_check_list I sort_pairs txn controlling stride attempts locals remotes n =
     (let (ps, m) = form_pairs txn controlling stride attempts
            (assign_local_foundations I locals) (map (fill_foundation I) remotes) n
      in (assign_initial_pair_states (sort_pairs ps), m))"

section \<open>Walking the list\<close>

definition in_progress_count :: "CheckPair list \<Rightarrow> nat" where
  "in_progress_count ps = length (filter (\<lambda>p. cp_state p = InProgress) ps)"

definition unfreeze_siblings :: "string \<Rightarrow> string \<Rightarrow> CheckPair list \<Rightarrow> CheckPair list" where
  "unfreeze_siblings local_fnd remote_fnd ps =
     (if local_fnd = [] \<or> remote_fnd = [] then ps
      else map (\<lambda>p. if cp_state p = Frozen \<and> cand_foundation (cp_local p) = local_fnd
                       \<and> cand_foundation (cp_remote p) = remote_fnd
                    then p\<lparr>cp_state := Waiting\<rparr> else p) ps)"

fun promote_frozen :: "string set \<Rightarrow> CheckPair list \<Rightarrow> CheckPair list" where
  "promote_frozen promoted [] = []"
| "promote_frozen promoted (p # ps) =
     (if cp_state p = Frozen \<and> tuple_key p \<notin> promoted
      then p\<lparr>cp_state := Waiting\<rparr> # promote_frozen (insert (tuple_key p) promoted) ps
      else p # promote_frozen promoted ps)"

definition unfreeze_stuck_pairs :: "CheckPair list \<Rightarrow> CheckPair list" where
  "unfreeze_stuck_pairs ps =
     (if list_ex (\<lambda>p. cp_state p = Waiting \<or> cp_state p = InProgress) ps then ps
      else promote_frozen {} ps)"

definition any_pending :: "CheckPair list \<Rightarrow> bool" where
  "any_pending ps =
     list_ex (\<lambda>p. cp_state p = Frozen \<or> cp_state p = Waiting \<or> cp_state p = InProgress) ps"

text \<open>The scan for the valid pair of highest priority: the index of the first one.\<close>

fun best_valid_from :: "nat \<Rightarrow> (nat \<times> CheckPair) option \<Rightarrow> CheckPair list \<Rightarrow> nat option" where
  "best_valid_from i best [] = map_option fst best"
| "best_valid_from i best (p # ps) =
     best_valid_from (Suc i)
       (if cp_valid p \<and> (case best of None \<Rightarrow> True | Some (_, b) \<Rightarrow> cp_priority p > cp_priority b)
        then Some (i, p) else best) ps"

definition best_valid :: "CheckPair list \<Rightarrow> nat option" where
  "best_valid = best_valid_from 0 None"

section \<open>Sorting\<close>

definition by_priority :: "CheckPair list \<Rightarrow> bool" where
  "by_priority = sorted_wrt (\<lambda>a b. cp_priority b \<le> cp_priority a)"

definition sort_ok :: "(CheckPair list \<Rightarrow> CheckPair list) \<Rightarrow> bool" where
  "sort_ok sort_pairs \<longleftrightarrow> (\<forall>ps. mset (sort_pairs ps) = mset ps \<and> by_priority (sort_pairs ps))"

definition sample_sort :: "CheckPair list \<Rightarrow> CheckPair list" where
  "sample_sort ps = rev (sort_key cp_priority ps)"

lemma sample_sort_ok: "sort_ok sample_sort"
proof -
  have "sorted_wrt (\<lambda>a b. cp_priority a \<le> cp_priority b) (sort_key cp_priority ps)"
    for ps :: "CheckPair list"
    using sorted_sort_key [of cp_priority ps] by (simp add: sorted_map)
  then show ?thesis
    by (simp add: sort_ok_def sample_sort_def by_priority_def sorted_wrt_rev)
qed

section \<open>Initial states\<close>

lemma length_initial_states [simp]: "length (initial_states seen ps) = length ps"
  by (induction seen ps rule: initial_states.induct) simp_all

lemma initial_states_nth:
  assumes "i < length ps"
  shows "initial_states seen ps ! i =
    (ps ! i)\<lparr>cp_state := (if tuple_key (ps ! i) \<in> seen \<union> tuple_key ` set (take i ps) then Frozen else Waiting)\<rparr>"
  using assms
proof (induction seen ps arbitrary: i rule: initial_states.induct)
  case (2 seen p ps)
  show ?case
  proof (cases i)
    case (Suc j)
    with 2(3) have "j < length ps" by simp
    with 2 Suc show ?thesis by auto
  qed simp
qed simp

lemma tuple_key_state [simp]: "tuple_key (p\<lparr>cp_state := x\<rparr>) = tuple_key p"
  by (simp add: tuple_key_def)

lemma by_priority_initial [simp]: "by_priority (initial_states seen ps) = by_priority ps"
proof -
  have "map cp_priority (initial_states seen ps) = map cp_priority ps"
    by (induction seen ps rule: initial_states.induct) simp_all
  moreover have "by_priority qs \<longleftrightarrow> sorted_wrt (\<lambda>a b. b \<le> a) (map cp_priority qs)" for qs
    by (simp add: by_priority_def sorted_wrt_map)
  ultimately show ?thesis by simp
qed

lemma set_initial_states:
  "p \<in> set (initial_states seen ps) \<Longrightarrow> \<exists>q\<in>set ps. p = q\<lparr>cp_state := cp_state p\<rparr>"
  "q \<in> set ps \<Longrightarrow> \<exists>st. q\<lparr>cp_state := st\<rparr> \<in> set (initial_states seen ps)"
  by (induction seen ps rule: initial_states.induct) (auto split: if_splits)

section \<open>Pairs formed\<close>

text \<open>A predecessor-free account of what the loops push.\<close>

definition formed :: "bool \<Rightarrow> u16 \<Rightarrow> nat \<Rightarrow> Candidate \<Rightarrow> Candidate \<Rightarrow> CheckPair \<Rightarrow> bool" where
  "formed controlling stride attempts l r p \<longleftrightarrow>
     pairable l r \<and>
     (\<exists>t. p = canonical_pair controlling t l r \<or>
          (cand_type r = Srflx \<and>
           (\<exists>t' k. 1 \<le> k \<and> k \<le> attempts \<and> predicted_port (cand_port r) stride k \<le> 65535 \<and>
              p = predicted_pair t' (predicted_port (cand_port r) stride k) (canonical_pair controlling t l r))))"

lemma predicted_pairs_set:
  "p \<in> set (fst (predicted_pairs txn stride pair ks n)) \<Longrightarrow>
   \<exists>t. \<exists>k\<in>set ks. predicted_port (cand_port (cp_remote pair)) stride k \<le> 65535 \<and>
     p = predicted_pair t (predicted_port (cand_port (cp_remote pair)) stride k) pair"
  by (induction txn stride pair ks n rule: predicted_pairs.induct)
     (auto simp: Let_def split_beta not_less split: if_splits)

lemma pairs_of_candidates_sound:
  assumes "p \<in> set (fst (pairs_of_candidates txn controlling stride attempts l r n))"
  shows "formed controlling stride attempts l r p"
proof -
  let ?c = "canonical_pair controlling (txn n) l r"
  have pr: "pairable l r" using assms by (auto simp: pairs_of_candidates_def split: if_splits)
  have r: "cp_remote ?c = r" by (simp add: canonical_pair_def)
  from assms pr consider "p = ?c"
    | "cand_type r = Srflx" "p \<in> set (fst (predicted_pairs txn stride ?c [1..<Suc attempts] (n + 1)))"
    by (auto simp: pairs_of_candidates_def Let_def split_beta simp del: upt_Suc split: if_splits)
  then show ?thesis
  proof cases
    case 1
    with pr show ?thesis by (auto simp: formed_def)
  next
    case 2
    from predicted_pairs_set [OF 2(2)] obtain t k where
      "k \<in> set [1..<Suc attempts]" "predicted_port (cand_port r) stride k \<le> 65535"
      "p = predicted_pair t (predicted_port (cand_port r) stride k) ?c" unfolding r by blast
    moreover from this(1) have "1 \<le> k" "k \<le> attempts" by auto
    ultimately show ?thesis unfolding formed_def using pr 2(1) by blast
  qed
qed

lemma pairs_of_candidates_complete:
  "pairable l r \<Longrightarrow>
   canonical_pair controlling (txn n) l r \<in> set (fst (pairs_of_candidates txn controlling stride attempts l r n))"
  by (simp add: pairs_of_candidates_def Let_def split_beta)

lemma collect_pairs_set:
  "p \<in> set (fst (collect_pairs f xs n)) \<Longrightarrow> \<exists>x\<in>set xs. \<exists>m. p \<in> set (fst (f x m))"
proof (induction xs arbitrary: n)
  case (Cons x xs)
  then have "p \<in> set (fst (f x n)) \<or> p \<in> set (fst (collect_pairs f xs (snd (f x n))))"
    by (auto simp: split_beta Let_def)
  with Cons.IH show ?case by auto
qed simp

lemma collect_pairs_has:
  "x \<in> set xs \<Longrightarrow> \<exists>m. set (fst (f x m)) \<subseteq> set (fst (collect_pairs f xs n))"
proof (induction f xs n rule: collect_pairs.induct)
  case (2 f y ys n)
  show ?case
  proof (cases "x = y")
    case True
    then show ?thesis by (intro exI [of _ n]) (auto simp: split_beta Let_def)
  next
    case False
    with 2 have "\<exists>m. set (fst (f x m)) \<subseteq> set (fst (collect_pairs f ys (snd (f y n))))"
      by (metis prod.collapse set_ConsD)
    then show ?thesis by (auto simp: split_beta Let_def)
  qed
qed simp

lemma form_pairs_sound:
  "p \<in> set (fst (form_pairs txn controlling stride attempts ls rs n)) \<Longrightarrow>
   \<exists>l\<in>set ls. \<exists>r\<in>set rs. formed controlling stride attempts l r p"
  unfolding form_pairs_def by (meson collect_pairs_set pairs_of_candidates_sound)

lemma form_pairs_complete:
  assumes "l \<in> set ls" "r \<in> set rs" "pairable l r"
  shows "\<exists>t. canonical_pair controlling t l r \<in> set (fst (form_pairs txn controlling stride attempts ls rs n))"
proof -
  obtain m where m: "set (fst (collect_pairs (pairs_of_candidates txn controlling stride attempts l) rs m))
      \<subseteq> set (fst (form_pairs txn controlling stride attempts ls rs n))"
    using collect_pairs_has [OF assms(1), of "\<lambda>l. collect_pairs (pairs_of_candidates txn controlling stride attempts l) rs" n]
    unfolding form_pairs_def by blast
  obtain k where "set (fst (pairs_of_candidates txn controlling stride attempts l r k))
      \<subseteq> set (fst (collect_pairs (pairs_of_candidates txn controlling stride attempts l) rs m))"
    using collect_pairs_has [OF assms(2)] by blast
  with m pairs_of_candidates_complete [OF assms(3)] show ?thesis by blast
qed

lemma pairable_fill [simp]: "pairable (fill_foundation I l) (fill_foundation I r) = pairable l r"
  by (simp add: pairable_def fill_foundation_def)

section \<open>Walks\<close>

lemma length_unfreeze_siblings [simp]: "length (unfreeze_siblings lf rf ps) = length ps"
  by (simp add: unfreeze_siblings_def)

lemma length_promote_frozen [simp]: "length (promote_frozen pr ps) = length ps"
  by (induction pr ps rule: promote_frozen.induct) simp_all

lemma length_unfreeze_stuck_pairs [simp]: "length (unfreeze_stuck_pairs ps) = length ps"
  by (simp add: unfreeze_stuck_pairs_def)

text \<open>A walk that moves pairs from Frozen to Waiting only.\<close>

definition thaws :: "CheckPair \<Rightarrow> CheckPair \<Rightarrow> bool" where
  "thaws p q \<longleftrightarrow> q = p \<or> (cp_state p = Frozen \<and> q = p\<lparr>cp_state := Waiting\<rparr>)"

lemma thaws_refl [simp]: "thaws p p"
  by (simp add: thaws_def)

lemma unfreeze_siblings_thaws: "list_all2 thaws ps (unfreeze_siblings lf rf ps)"
  by (auto simp: unfreeze_siblings_def list_all2_map2 thaws_def list.rel_refl intro!: list.rel_refl_strong)

lemma promote_frozen_thaws: "list_all2 thaws ps (promote_frozen pr ps)"
  by (induction pr ps rule: promote_frozen.induct) (auto simp: thaws_def)

lemma unfreeze_stuck_thaws: "list_all2 thaws ps (unfreeze_stuck_pairs ps)"
  by (auto simp: unfreeze_stuck_pairs_def promote_frozen_thaws intro: list.rel_refl)

lemma thaws_in_progress: "list_all2 thaws ps qs \<Longrightarrow> in_progress_count qs = in_progress_count ps"
  unfolding in_progress_count_def by (induction rule: list_all2_induct) (auto simp: thaws_def)

lemma thaws_any_pending: "list_all2 thaws ps qs \<Longrightarrow> any_pending qs = any_pending ps"
  unfolding any_pending_def by (induction rule: list_all2_induct) (auto simp: thaws_def)

lemma promote_frozen_waiting:
  "list_ex (\<lambda>p. cp_state p = Frozen) ps \<Longrightarrow> (\<forall>p\<in>set ps. cp_state p = Frozen \<longrightarrow> tuple_key p \<notin> pr) \<Longrightarrow>
   list_ex (\<lambda>p. cp_state p = Waiting) (promote_frozen pr ps)"
  by (induction ps) auto

lemma unfreeze_stuck_active:
  "any_pending ps \<Longrightarrow>
   list_ex (\<lambda>p. cp_state p = Waiting \<or> cp_state p = InProgress) (unfreeze_stuck_pairs ps)"
proof -
  assume pending: "any_pending ps"
  show ?thesis
  proof (cases "list_ex (\<lambda>p. cp_state p = Waiting \<or> cp_state p = InProgress) ps")
    case False
    with pending have "list_ex (\<lambda>p. cp_state p = Frozen) ps"
      by (auto simp: any_pending_def list_ex_iff)
    from promote_frozen_waiting [OF this, of "{}"] False show ?thesis
      by (auto simp: unfreeze_stuck_pairs_def list_ex_iff)
  qed (simp add: unfreeze_stuck_pairs_def)
qed

section \<open>Properties\<close>

text \<open>C7: The check list is complete, sound and ordered. Whatever permutation the sort chooses among
  equal priorities, the list is in order of descending pair priority; every compatible pair of a
  local and a remote candidate (same family, UDP with UDP or complementary TCP roles, no
  unresolved mDNS name) is in it with its RFC 8445 priority; and every pair in it comes from such
  a compatible pair, up to the predicted ports of a symmetric peer.\<close>

theorem check_list_correct:
  assumes "sort_ok sort_pairs"
    and L_def: "L = fst (make_check_list I sort_pairs txn controlling stride attempts locals remotes n)"
  shows "by_priority L \<and>
    (\<forall>l r. l \<in> set locals \<and> r \<in> set remotes \<and> pairable l r \<longrightarrow>
       (\<exists>p. p \<in> set L \<and> cp_local p = fill_foundation I l \<and> cp_remote p = fill_foundation I r \<and>
            cp_transport_type p = cand_transport l \<and>
            cp_priority p = pair_priority (cand_priority l) (cand_priority r) controlling)) \<and>
    (\<forall>p. p \<in> set L \<longrightarrow>
       (\<exists>l r q. l \<in> set locals \<and> r \<in> set remotes \<and> p = q\<lparr>cp_state := cp_state p\<rparr> \<and>
            formed controlling stride attempts (fill_foundation I l) (fill_foundation I r) q))"
proof -
  let ?F = "fst (form_pairs txn controlling stride attempts
              (assign_local_foundations I locals) (map (fill_foundation I) remotes) n)"
  have L: "L = initial_states {} (sort_pairs ?F)"
    by (simp add: L_def make_check_list_def split_beta assign_initial_pair_states_def)
  have m: "mset (sort_pairs ?F) = mset ?F" "by_priority (sort_pairs ?F)"
    using assms(1) by (simp_all add: sort_ok_def)
  then have st: "set (sort_pairs ?F) = set ?F" by (metis set_mset_mset)
  have complete: "\<exists>p. p \<in> set L \<and> cp_local p = fill_foundation I l \<and> cp_remote p = fill_foundation I r \<and>
            cp_transport_type p = cand_transport l \<and>
            cp_priority p = pair_priority (cand_priority l) (cand_priority r) controlling"
    if lr: "l \<in> set locals" "r \<in> set remotes" "pairable l r" for l r
  proof -
    let ?l = "fill_foundation I l" and ?r = "fill_foundation I r"
    have "?l \<in> set (assign_local_foundations I locals)" "?r \<in> set (map (fill_foundation I) remotes)"
      using lr by (simp_all add: assign_local_foundations_def)
    then obtain t where "canonical_pair controlling t ?l ?r \<in> set ?F"
      using form_pairs_complete [of ?l _ ?r] lr(3) by (metis pairable_fill)
    then obtain x where "(canonical_pair controlling t ?l ?r)\<lparr>cp_state := x\<rparr> \<in> set L"
      using set_initial_states(2) [of _ "sort_pairs ?F"] unfolding L st by blast
    then show ?thesis
      by (intro exI conjI, assumption) (simp_all add: canonical_pair_def fill_foundation_def)
  qed
  have sound: "\<exists>l r q. l \<in> set locals \<and> r \<in> set remotes \<and> p = q\<lparr>cp_state := cp_state p\<rparr> \<and>
            formed controlling stride attempts (fill_foundation I l) (fill_foundation I r) q"
    if pL: "p \<in> set L" for p
  proof -
    obtain q where "q \<in> set ?F" "p = q\<lparr>cp_state := cp_state p\<rparr>"
      using set_initial_states(1) [OF pL [unfolded L]] st by blast
    with form_pairs_sound [of q] show ?thesis
      by (fastforce simp: assign_local_foundations_def)
  qed
  show ?thesis using m(2) complete sound by (simp add: L)
qed

text \<open>Initial pair states. In a list ordered by priority, a pair starts Waiting exactly when it is the
  first of its foundation group and Frozen otherwise, and the pair that starts Waiting has the
  highest priority of its group.\<close>

theorem initial_states_correct:
  assumes "by_priority ps" and "i < length ps"
    and L_def: "L = assign_initial_pair_states ps"
  shows "cp_state (L ! i) = (if \<exists>j<i. tuple_key (ps ! j) = tuple_key (ps ! i) then Frozen else Waiting) \<and>
    (cp_state (L ! i) = Waiting \<longrightarrow>
       (\<forall>j<length L. tuple_key (L ! j) = tuple_key (L ! i) \<longrightarrow> cp_priority (L ! j) \<le> cp_priority (L ! i)))"
proof -
  have nth: "L ! k = (ps ! k)\<lparr>cp_state := (if \<exists>j<k. tuple_key (ps ! j) = tuple_key (ps ! k) then Frozen else Waiting)\<rparr>"
    if "k < length ps" for k
  proof -
    have "tuple_key (ps ! k) \<in> tuple_key ` set (take k ps) \<longleftrightarrow> (\<exists>j<k. tuple_key (ps ! j) = tuple_key (ps ! k))"
      using that by (auto simp: image_iff atLeast0LessThan simp flip: nth_image) (metis lessThan_iff)
    then show ?thesis
      using initial_states_nth [OF that, of "{}"] by (simp add: L_def assign_initial_pair_states_def)
  qed
  have "cp_priority (ps ! j) \<le> cp_priority (ps ! i)" if "i \<le> j" "j < length ps" for j
    using assms(1) that sorted_wrt_nth_less [of "\<lambda>a b. cp_priority b \<le> cp_priority a" ps i j]
    by (cases "i = j") (simp_all add: by_priority_def)
  moreover have "i \<le> j" if "cp_state (L ! i) = Waiting" "tuple_key (ps ! j) = tuple_key (ps ! i)" for j
    using nth [OF assms(2)] that by (auto simp: not_less split: if_splits)
  moreover have "length L = length ps" by (simp add: L_def assign_initial_pair_states_def)
  ultimately show ?thesis using nth assms(2) by auto
qed

text \<open>Two agents with one host candidate each.\<close>

definition sample_candidate :: "byte \<Rightarrow> Candidate" where
  "sample_candidate b = empty_candidate\<lparr>cand_family := IPv4, cand_port := 5000, cand_priority := 100,
     cand_addr := [192, 168, 0, b] @ replicate 12 0, cand_foundation := ''f''\<rparr>"

theorem check_list_correct_witness:
  "\<exists>p. p \<in> set (fst (make_check_list sample_inet sample_sort (\<lambda>_. replicate 12 7) True 0 0
           [sample_candidate 1] [sample_candidate 2] 0)) \<and>
       cp_local p = sample_candidate 1 \<and> cp_remote p = sample_candidate 2"
proof -
  have "pairable (sample_candidate 1) (sample_candidate 2)"
    by (simp add: pairable_def sample_candidate_def empty_candidate_def)
  moreover have "fill_foundation I (sample_candidate b) = sample_candidate b" for I b
    by (simp add: fill_foundation_def sample_candidate_def)
  ultimately show ?thesis
    using check_list_correct [OF sample_sort_ok refl, of sample_inet "\<lambda>_. replicate 12 7" True 0 0
      "[sample_candidate 1]" "[sample_candidate 2]" 0]
    by (metis list.set_intros(1))
qed

theorem initial_states_correct_witness:
  "cp_state (assign_initial_pair_states [empty_pair, empty_pair] ! 0) = Waiting \<and>
   cp_state (assign_initial_pair_states [empty_pair, empty_pair] ! 1) = Frozen"
proof -
  have "by_priority [empty_pair, empty_pair]" by (simp add: by_priority_def)
  from initial_states_correct [OF this _ refl, of 0] initial_states_correct [OF this _ refl, of 1]
  show ?thesis by (auto simp: split: if_splits)
qed

end
