(* ===== verification/State_Logic.thy ===== *)
theory State_Logic
  imports Ice_Prelude "HOL-Library.State_Monad"
begin

text \<open>
  The stateful components thread one record through many calls; their methods are computations
  of the state monad of \<open>HOL-Library.State_Monad\<close>. This theory has the few combinators the
  methods use and a calculus for what a computation may do to its state: \<open>effect R m s\<close> says
  that running \<open>m\<close> from \<open>s\<close> ends in a state related to \<open>s\<close> by \<open>R\<close>. The rules for a
  preorder \<open>R\<close> are proved once, in the locale \<open>step_order\<close>; an invariant is such a
  preorder too.
\<close>

section \<open>Combinators\<close>

abbreviation return where "return \<equiv> State_Monad.return"
abbreviation modify where "modify \<equiv> State_Monad.update"

definition gets :: "('s \<Rightarrow> 'a) \<Rightarrow> ('s, 'a) state" where
  "gets f = State (\<lambda>s. (f s, s))"

definition whenM :: "bool \<Rightarrow> ('s, unit) state \<Rightarrow> ('s, unit) state" where
  "whenM b m = (if b then m else return ())"

primrec for_each :: "('a \<Rightarrow> ('s, unit) state) \<Rightarrow> 'a list \<Rightarrow> ('s, unit) state" where
  "for_each f [] = return ()"
| "for_each f (x # xs) = do { f x; for_each f xs }"

abbreviation exec :: "('s, 'a) state \<Rightarrow> 's \<Rightarrow> 's" where "exec m s \<equiv> snd (run_state m s)"
abbreviation eval :: "('s, 'a) state \<Rightarrow> 's \<Rightarrow> 'a" where "eval m s \<equiv> fst (run_state m s)"

named_theorems run_simps \<open>equations that run the computations of a component\<close>

lemma run_modify [simp]: "run_state (modify f) s = ((), f s)"
  by (simp add: State_Monad.update_def)

lemma run_gets [simp]: "run_state (gets f) s = (f s, s)"
  by (simp add: gets_def)

lemma run_when [simp]: "run_state (whenM b m) s = (if b then run_state m s else ((), s))"
  by (simp add: whenM_def)

lemma run_bind: "run_state (m \<bind> f) s = run_state (f (eval m s)) (exec m s)"
  by (simp add: split_beta)

lemma run_for_each_append: "for_each f (xs @ ys) = do { for_each f xs; for_each f ys }"
  by (induction xs) simp_all

lemma run_if: "run_state (if b then m else m') s = (if b then run_state m s else run_state m' s)"
  by simp

section \<open>Effects\<close>

definition effect :: "('s \<Rightarrow> 's \<Rightarrow> bool) \<Rightarrow> ('s, 'a) state \<Rightarrow> 's \<Rightarrow> bool" where
  "effect R m s \<longleftrightarrow> R s (exec m s)"

lemma effectI: "R s (exec m s) \<Longrightarrow> effect R m s"
  by (simp add: effect_def)

lemma effectD: "effect R m s \<Longrightarrow> R s (exec m s)"
  by (simp add: effect_def)

lemma effect_mono: "effect R m s \<Longrightarrow> (\<And>a b. R a b \<Longrightarrow> Q a b) \<Longrightarrow> effect Q m s"
  by (simp add: effect_def)

lemma effect_gets_bind: "effect R (f (g s)) s \<Longrightarrow> effect R (gets g \<bind> f) s"
  by (simp add: effect_def)

lemma effect_if: "(b \<Longrightarrow> effect R m s) \<Longrightarrow> (\<not> b \<Longrightarrow> effect R m' s) \<Longrightarrow> effect R (if b then m else m') s"
  by simp

lemma effect_modify: "R s (f s) \<Longrightarrow> effect R (modify f) s"
  by (simp add: effect_def)

lemma effect_option:
  "(x = None \<Longrightarrow> effect R m s) \<Longrightarrow> (\<And>y. x = Some y \<Longrightarrow> effect R (f y) s) \<Longrightarrow>
   effect R (case x of None \<Rightarrow> m | Some y \<Rightarrow> f y) s"
  by (cases x) simp_all

lemma effect_prod: "(\<And>a b. x = (a, b) \<Longrightarrow> effect R (f a b) s) \<Longrightarrow> effect R (case x of (a, b) \<Rightarrow> f a b) s"
  by (cases x) simp

lemma effect_Let: "effect R (f t) s \<Longrightarrow> effect R (let x = t in f x) s"
  by (simp add: Let_def)

locale step_order =
  fixes R :: "'s \<Rightarrow> 's \<Rightarrow> bool"
  assumes refl: "R s s"
    and trans: "R a b \<Longrightarrow> R b c \<Longrightarrow> R a c"
begin

lemma return: "effect R (return x) s"
  by (simp add: effect_def refl)

lemma gets: "effect R (gets f) s"
  by (simp add: effect_def refl)

lemma bind: "effect R m s \<Longrightarrow> effect R (f (eval m s)) (exec m s) \<Longrightarrow> effect R (m \<bind> f) s"
  by (auto simp: effect_def split_beta intro: trans)

lemma bind_all: "effect R m s \<Longrightarrow> (\<And>x t. effect R (f x) t) \<Longrightarrow> effect R (m \<bind> f) s"
  by (rule bind)

lemma whenM: "(b \<Longrightarrow> effect R m s) \<Longrightarrow> effect R (whenM b m) s"
  by (simp add: effect_def refl)

lemma for_each: "(\<And>x s. x \<in> set xs \<Longrightarrow> effect R (f x) s) \<Longrightarrow> effect R (for_each f xs) s"
proof (induction xs arbitrary: s)
  case Nil
  show ?case by (simp add: return)
next
  case (Cons x xs)
  have "effect R (for_each f xs) t" for t by (rule Cons.IH) (rule Cons.prems, simp)
  then show ?case unfolding for_each.simps by (intro bind_all Cons.prems) simp
qed

lemmas rules = return gets effect_gets_bind bind_all whenM for_each effect_if effect_modify
  effect_option effect_prod effect_Let

end

text \<open>An invariant, a preserved observation and a growing log are preorders.\<close>

definition keeps :: "('s \<Rightarrow> bool) \<Rightarrow> 's \<Rightarrow> 's \<Rightarrow> bool" where
  "keeps P a b \<longleftrightarrow> (P a \<longrightarrow> P b)"

definition same :: "('s \<Rightarrow> 'v) \<Rightarrow> 's \<Rightarrow> 's \<Rightarrow> bool" where
  "same f a b \<longleftrightarrow> f b = f a"

definition grows :: "('s \<Rightarrow> 'e list) \<Rightarrow> 's \<Rightarrow> 's \<Rightarrow> bool" where
  "grows f a b \<longleftrightarrow> (\<exists>es. f b = f a @ es)"

interpretation keeps: step_order "keeps P" for P
  by unfold_locales (auto simp: keeps_def)

interpretation same: step_order "same f" for f
  by unfold_locales (auto simp: same_def)

interpretation grows: step_order "grows f" for f
  by unfold_locales (auto simp: grows_def)

end
