(* ===== verification/Mdns_Codec.thy ===== *)
theory Mdns_Codec
  imports Candidate
begin

text \<open>
  The DNS wire format of \<open>src/mdns.cpp\<close>: names with labels and compression pointers, queries,
  responses and the message parser; the generation of UUID host names and the test for
  \<open>.local\<close> names. \<open>read_be16\<close>, \<open>read_be32\<close>, \<open>append_be16\<close> and \<open>append_be32\<close> are the readers
  and writers of \<open>Endian\<close>. Random octets are an argument.
\<close>

section \<open>Constants and characters\<close>

definition DNS_TYPE_A :: u16 where "DNS_TYPE_A = 1"
definition DNS_TYPE_AAAA :: u16 where "DNS_TYPE_AAAA = 28"
definition DNS_CLASS_IN :: u16 where "DNS_CLASS_IN = 1"
definition DNS_TTL_SECONDS :: u32 where "DNS_TTL_SECONDS = 120"
definition DNS_HEADER_SIZE :: nat where "DNS_HEADER_SIZE = 12"

lemmas dns_consts = DNS_TYPE_A_def DNS_TYPE_AAAA_def DNS_CLASS_IN_def DNS_TTL_SECONDS_def
  DNS_HEADER_SIZE_def

text \<open>\<open>std::tolower\<close> in the C locale.\<close>

definition tolower :: "char \<Rightarrow> char" where
  "tolower c = (if 65 \<le> (of_char c :: nat) \<and> (of_char c :: nat) \<le> 90 then char_of (of_char c + 32 :: nat) else c)"

definition to_lower :: "string \<Rightarrow> string" where
  "to_lower s = map tolower s"

section \<open>Names\<close>

text \<open>
  \<open>encode_name\<close> appends to \<open>out\<close> and returns whether it succeeded; after a failure the labels
  written so far stay in \<open>out\<close>. The argument \<open>name\<close> is what the index \<open>i\<close> has not passed yet.
\<close>

function encode_name_loop :: "nat \<Rightarrow> string \<Rightarrow> bytes \<Rightarrow> bool \<times> bytes" where
  "encode_name_loop encoded_size name out =
     (if name = [] then (True, out @ [0])
      else
        let label = takeWhile (\<lambda>c. c \<noteq> CHR ''.'') name;
            rest = dropWhile (\<lambda>c. c \<noteq> CHR ''.'') name
        in if label = [] then (if rest = [] then (True, out @ [0]) else (False, out))
           else if length label > 63 then (False, out)
           else
             let out = out @ [word_of_nat (length label)] @ bytes_of_string label
             in if encoded_size + 1 + length label > 255 then (False, out)
                else encode_name_loop (encoded_size + 1 + length label) (drop 1 rest) out)"
  by pat_completeness auto
termination
proof (relation "measure (\<lambda>(_, name, _). length name)", goal_cases)
  case (2 encoded_size name out label rest out')
  have "0 < length name" using 2(1) by simp
  moreover have "length rest \<le> length name" unfolding 2(3) by (rule length_dropWhile_le)
  moreover have "length label + length rest = length name"
    unfolding 2(2,3) by (metis length_append takeWhile_dropWhile_id)
  moreover have "0 < length label" using 2(4) by simp
  ultimately have "length rest - 1 < length name" by linarith
  then show ?case by simp
qed simp

declare encode_name_loop.simps [simp del]

definition encode_name :: "string \<Rightarrow> bytes \<Rightarrow> bool \<times> bytes" where
  "encode_name name out = encode_name_loop 0 name out"

definition rd8 :: "bytes \<Rightarrow> nat \<Rightarrow> byte checked" where
  "rd8 bs i = (if i < length bs then Some (bs ! i) else None)"

text \<open>The result is the name and \<open>out_next\<close>; \<open>reject\<close> is the return value \<open>false\<close>.\<close>

function decode_name_loop ::
  "bytes \<Rightarrow> nat \<Rightarrow> nat \<Rightarrow> nat \<Rightarrow> bool \<Rightarrow> nat \<Rightarrow> string \<Rightarrow> (string \<times> nat) parsed" where
  "decode_name_loop bytes cur jumps total_len jumped out_next out_name =
     (if cur \<ge> length bytes then reject
      else case rd8 bytes cur of None \<Rightarrow> None | Some len \<Rightarrow>
        if len = 0 then accept (out_name, if jumped then out_next else cur + 1)
        else if len AND 0xC0 = 0xC0 then
          (if cur + 1 \<ge> length bytes then reject
           else case rd8 bytes (cur + 1) of None \<Rightarrow> None | Some low \<Rightarrow>
             let target = push_bit 8 (unat (len AND 0x3F)) OR unat low
             in if target \<ge> length bytes then reject
                else if jumps + 1 > 16 then reject
                else decode_name_loop bytes target (jumps + 1) total_len True
                       (if jumped then out_next else cur + 2) out_name)
        else if len AND 0xC0 \<noteq> 0 then reject
        else if cur + 1 + unat len > length bytes then reject
        else if total_len + 1 + unat len > 255 then reject
        else case rd bytes (cur + 1) (unat len) of None \<Rightarrow> None | Some label \<Rightarrow>
          decode_name_loop bytes (cur + 1 + unat len) jumps (total_len + 1 + unat len) jumped out_next
            (out_name @ (if out_name = [] then [] else ''.'') @ to_lower (string_of_bytes label)))"
  by pat_completeness auto
termination
  by (relation "measure (\<lambda>(_, _, jumps, total_len, _). (16 - jumps) + (255 - total_len))") auto

declare decode_name_loop.simps [simp del]

definition decode_name :: "bytes \<Rightarrow> nat \<Rightarrow> (string \<times> nat) parsed" where
  "decode_name bytes off = decode_name_loop bytes off 0 0 False 0 []"

section \<open>Host names\<close>

definition hex_char :: "nat \<Rightarrow> char" where
  "hex_char d = ''0123456789abcdef'' ! d"

definition generate_uuid_v4 :: "bytes \<Rightarrow> string" where
  "generate_uuid_v4 random =
     (let raw = random[6 := (random ! 6 AND 0x0F) OR 0x40];
          raw = raw[8 := (raw ! 8 AND 0x3F) OR 0x80]
      in concat (map (\<lambda>i. (if i = 4 \<or> i = 6 \<or> i = 8 \<or> i = 10 then ''-'' else [])
            @ [hex_char (unat (drop_bit 4 (raw ! i))), hex_char (unat (raw ! i AND 0x0F))]) [0..<16]))"

definition is_mdns_local_name :: "string \<Rightarrow> bool" where
  "is_mdns_local_name name =
     (if length name \<le> length ''.local'' then False
      else if length name > kMaxMdnsHostnameLen then False
      else if to_lower (drop (length name - length ''.local'') name) \<noteq> ''.local'' then False
      else list_all (\<lambda>c. c \<noteq> CHR 0x00) name)"

section \<open>Messages\<close>

definition dns_header :: "u16 \<Rightarrow> u16 \<Rightarrow> u16 \<Rightarrow> u16 \<Rightarrow> bytes" where
  "dns_header txn_id flags qdcount ancount =
     write16 txn_id @ write16 flags @ write16 qdcount @ write16 ancount @ write16 0 @ write16 0"

definition encode_dns_query :: "string \<Rightarrow> u16 \<Rightarrow> bool \<Rightarrow> bytes" where
  "encode_dns_query hostname txn_id want_aaaa =
     (let (ok, out) = encode_name hostname (dns_header txn_id 0x0000 0x0001 0x0000)
      in if \<not> ok then []
         else out @ write16 (if want_aaaa then DNS_TYPE_AAAA else DNS_TYPE_A) @ write16 DNS_CLASS_IN)"

definition emit_answer :: "string \<Rightarrow> u16 \<Rightarrow> bytes \<Rightarrow> bytes \<Rightarrow> bytes" where
  "emit_answer hostname qtype rdata out =
     (let (ok, out) = encode_name hostname out
      in if \<not> ok then out
         else out @ write16 qtype @ write16 0x8001 @ write32 DNS_TTL_SECONDS
                @ write16 (word_of_nat (length rdata)) @ rdata)"

text \<open>
  One \<open>%hhu\<close> of \<open>sscanf\<close>: white space, an optional sign, at least one digit; the value is
  converted like \<open>strtoul\<close> (saturating at \<open>2^64 - 1\<close>) and stored modulo 256.
\<close>

definition is_space :: "char \<Rightarrow> bool" where
  "is_space c \<longleftrightarrow> c \<in> set [CHR '' '', CHR 0x09, CHR 0x0A, CHR 0x0B, CHR 0x0C, CHR 0x0D]"

definition is_digit :: "char \<Rightarrow> bool" where
  "is_digit c \<longleftrightarrow> 48 \<le> (of_char c :: nat) \<and> (of_char c :: nat) \<le> 57"

definition decimal_value :: "string \<Rightarrow> nat" where
  "decimal_value s = foldl (\<lambda>n c. 10 * n + (of_char c - 48)) 0 s"

definition scan_hhu :: "string \<Rightarrow> (byte \<times> string) option" where
  "scan_hhu s =
     (let s = dropWhile is_space s;
          negative = (s \<noteq> [] \<and> hd s = CHR ''-'');
          s = (if s \<noteq> [] \<and> (hd s = CHR ''-'' \<or> hd s = CHR ''+'') then tl s else s);
          digits = takeWhile is_digit s;
          n = min (decimal_value digits) (2 ^ 64 - 1)
      in if digits = [] then None
         else Some (if negative then - word_of_nat n else word_of_nat n, dropWhile is_digit s))"

definition scan_dot :: "string \<Rightarrow> string option" where
  "scan_dot s = (if s \<noteq> [] \<and> hd s = CHR ''.'' then Some (tl s) else None)"

definition scan_dotted_quad :: "string \<Rightarrow> bytes option" where
  "scan_dotted_quad s = do {
     (a, s) \<leftarrow> scan_hhu s; s \<leftarrow> scan_dot s;
     (b, s) \<leftarrow> scan_hhu s; s \<leftarrow> scan_dot s;
     (c, s) \<leftarrow> scan_hhu s; s \<leftarrow> scan_dot s;
     (d, s) \<leftarrow> scan_hhu s;
     Some [a, b, c, d]
   }"

definition emit_ipv4 :: "string \<Rightarrow> string \<Rightarrow> bytes \<Rightarrow> bytes" where
  "emit_ipv4 hostname ip out =
     (case scan_dotted_quad (c_str ip) of
        None \<Rightarrow> out
      | Some octets \<Rightarrow> emit_answer hostname DNS_TYPE_A octets out)"

definition emit_ipv6 :: "inet \<Rightarrow> string \<Rightarrow> string \<Rightarrow> bytes \<Rightarrow> bytes" where
  "emit_ipv6 I hostname ip out =
     (case inet_pton6 I (c_str ip) of
        None \<Rightarrow> out
      | Some bytes \<Rightarrow> emit_answer hostname DNS_TYPE_AAAA bytes out)"

definition encode_dns_response :: "inet \<Rightarrow> string \<Rightarrow> u16 \<Rightarrow> string list \<Rightarrow> string list \<Rightarrow> bytes" where
  "encode_dns_response I hostname txn_id ipv4 ipv6 =
     fold (emit_ipv6 I hostname) ipv6
       (fold (emit_ipv4 hostname) ipv4
         (dns_header txn_id 0x8400 0x0000 (word_of_nat (length ipv4 + length ipv6))))"

record DnsAnswer =
  ans_name :: string
  ans_ipv4 :: string
  ans_ipv6 :: string

record DnsParsedMessage =
  dns_is_response :: bool
  dns_txn_id :: u16
  dns_question :: string
  dns_qtype :: u16
  dns_answers :: "DnsAnswer list"

text \<open>The two loops of \<open>parse_dns_message\<close>; the first argument is the number of records left.\<close>

fun parse_questions :: "nat \<Rightarrow> bool \<Rightarrow> bytes \<Rightarrow> nat \<Rightarrow> DnsParsedMessage \<Rightarrow> (nat \<times> DnsParsedMessage) parsed" where
  "parse_questions 0 first bytes off out = accept (off, out)"
| "parse_questions (Suc n) first bytes off out =
     parse_bind (decode_name bytes off) (\<lambda>(name, off).
       if off + 4 > length bytes then reject
       else do {
         qtype \<leftarrow> read16 bytes off;
         parse_questions n False bytes (off + 4)
           (if first then out\<lparr>dns_question := name, dns_qtype := qtype\<rparr> else out)
       })"

definition dotted_quad :: "bytes \<Rightarrow> string" where
  "dotted_quad o4 = to_string (unat (o4 ! 0)) @ ''.'' @ to_string (unat (o4 ! 1)) @ ''.''
     @ to_string (unat (o4 ! 2)) @ ''.'' @ to_string (unat (o4 ! 3))"

definition answer_of :: "inet \<Rightarrow> string \<Rightarrow> u16 \<Rightarrow> u16 \<Rightarrow> bytes \<Rightarrow> DnsAnswer list" where
  "answer_of I name rclass rtype rdata =
     (if rclass = DNS_CLASS_IN \<and> rtype = DNS_TYPE_A \<and> length rdata = 4
      then [\<lparr>ans_name = name, ans_ipv4 = dotted_quad rdata, ans_ipv6 = []\<rparr>]
      else if rclass = DNS_CLASS_IN \<and> rtype = DNS_TYPE_AAAA \<and> length rdata = 16
      then [\<lparr>ans_name = name, ans_ipv4 = [], ans_ipv6 = inet_ntop6 I rdata\<rparr>]
      else [])"

fun parse_answers :: "inet \<Rightarrow> nat \<Rightarrow> bytes \<Rightarrow> nat \<Rightarrow> DnsParsedMessage \<Rightarrow> DnsParsedMessage parsed" where
  "parse_answers I 0 bytes off out = accept out"
| "parse_answers I (Suc n) bytes off out =
     parse_bind (decode_name bytes off) (\<lambda>(name, off).
       if off + 10 > length bytes then reject
       else do {
         rtype \<leftarrow> read16 bytes off;
         rclass_raw \<leftarrow> read16 bytes (off + 2);
         ttl \<leftarrow> read32 bytes (off + 4);
         rdlen \<leftarrow> read16 bytes (off + 8);
         (if off + 10 + unat rdlen > length bytes then reject
          else do {
            rdata \<leftarrow> rd bytes (off + 10) (unat rdlen);
            parse_answers I n bytes (off + 10 + unat rdlen)
              (out\<lparr>dns_answers := dns_answers out
                 @ answer_of I name (rclass_raw AND 0x7FFF) rtype rdata\<rparr>)
          })
       })"

definition parse_dns_message :: "inet \<Rightarrow> bytes \<Rightarrow> DnsParsedMessage parsed" where
  "parse_dns_message I bytes =
     (if length bytes < DNS_HEADER_SIZE then reject
      else do {
        txn_id \<leftarrow> read16 bytes 0;
        flags \<leftarrow> read16 bytes 2;
        qdcount \<leftarrow> read16 bytes 4;
        ancount \<leftarrow> read16 bytes 6;
        parse_bind (parse_questions (unat qdcount) True bytes DNS_HEADER_SIZE
            \<lparr>dns_is_response = (flags AND 0x8000 \<noteq> 0), dns_txn_id = txn_id, dns_question = [],
             dns_qtype = 0, dns_answers = []\<rparr>)
          (\<lambda>(off, out). parse_answers I (unat ancount) bytes off out)
      })"

section \<open>Reads stay inside the message\<close>

lemma decode_name_loop_safe [simp]: "safe (decode_name_loop bs cur j t jd nx nm)"
  by (induction bs cur j t jd nx nm rule: decode_name_loop.induct)
    (subst decode_name_loop.simps, auto simp: rd8_def rd_def Let_def split: option.splits)

lemma decode_name_safe [simp]: "safe (decode_name bs off)"
  by (simp add: decode_name_def)

lemma parse_questions_safe [simp]: "safe (parse_questions n first bs off out)"
  by (induction n arbitrary: first off out) (auto simp: split_beta)

lemma parse_answers_safe [simp]: "safe (parse_answers I n bs off out)"
  by (induction n arbitrary: off out) (auto simp: split_beta rd_def)

text \<open>C35: The DNS parser is memory safe and total: on every input it ends with a message or a
  rejection, never following compression pointers forever, and reads only inside the input.\<close>

theorem parse_dns_total: "\<exists>r. parse_dns_message I data = Some r"
proof -
  have "safe (parse_dns_message I data)"
    unfolding parse_dns_message_def by (auto simp: dns_consts split_beta)
  then show ?thesis by (simp add: safe_def)
qed

section \<open>Names made of labels\<close>

abbreviation dotted :: "string list \<Rightarrow> string" where
  "dotted \<equiv> join_with (CHR ''.'')"

definition labels_ok :: "string list \<Rightarrow> bool" where
  "labels_ok ls \<longleftrightarrow> list_all (\<lambda>l. l \<noteq> [] \<and> CHR ''.'' \<notin> set l \<and> length l \<le> 63) ls"

definition label_octets :: "string list \<Rightarrow> bytes" where
  "label_octets ls = concat (map (\<lambda>l. word_of_nat (length l) # bytes_of_string l) ls)"

lemma takeWhile_label: "CHR ''.'' \<notin> set l \<Longrightarrow> takeWhile (\<lambda>c. c \<noteq> CHR ''.'') l = l"
  by (auto simp: takeWhile_eq_all_conv)

lemma encode_labels:
  assumes "labels_ok ls" and "sz + length (label_octets ls) \<le> 255"
  shows "encode_name_loop sz (dotted ls) out = (True, out @ label_octets ls @ [0])"
  using assms
proof (induction ls arbitrary: sz out rule: induct_list012)
  case 1
  show ?case by (simp add: encode_name_loop.simps label_octets_def)
next
  case (2 l)
  have w: "takeWhile (\<lambda>c. c \<noteq> CHR ''.'') l = l" "dropWhile (\<lambda>c. c \<noteq> CHR ''.'') l = []"
    using 2 by (auto simp: labels_ok_def takeWhile_label)
  show ?case
    using 2 by (subst encode_name_loop.simps) (simp add: w labels_ok_def label_octets_def Let_def,
      simp add: encode_name_loop.simps)
next
  case (3 l l' ls)
  have w: "takeWhile (\<lambda>c. c \<noteq> CHR ''.'') (l @ CHR ''.'' # x) = l"
    "dropWhile (\<lambda>c. c \<noteq> CHR ''.'') (l @ CHR ''.'' # x) = CHR ''.'' # x" for x
    using 3(3) by (auto simp: labels_ok_def takeWhile_append dropWhile_append)
  have "encode_name_loop (sz + 1 + length l) (dotted (l' # ls)) o' = (True, o' @ label_octets (l' # ls) @ [0])" for o'
    using 3(3,4) by (intro 3(2)) (simp_all add: labels_ok_def label_octets_def)
  then show ?case
    using 3(3,4) by (subst encode_name_loop.simps) (simp add: w labels_ok_def label_octets_def Let_def)
qed

lemma label_len_bits:
  assumes "n \<le> 63"
  shows "(word_of_nat n :: byte) AND 0xC0 = 0" and "unat (word_of_nat n :: byte) = n"
proof -
  have "list_all (\<lambda>n. (word_of_nat n :: byte) AND 0xC0 = 0) [0..<64]" by code_simp
  with assms show "(word_of_nat n :: byte) AND 0xC0 = 0" by (simp add: list_all_iff)
  show "unat (word_of_nat n :: byte) = n" using assms by (simp add: unat_of_nat)
qed

lemma to_lower_append: "to_lower (a @ b) = to_lower a @ to_lower b"
  by (simp add: to_lower_def)

lemma to_lower_dot: "to_lower ''.'' = ''.''"
  by (simp add: to_lower_def tolower_def)

lemma to_lower_Nil [simp]: "to_lower s = [] \<longleftrightarrow> s = []" "to_lower [] = []"
  by (simp_all add: to_lower_def)

text \<open>The decoder appends the lower-case labels to what it has, with dots in between.\<close>

lemma decode_labels:
  assumes "labels_ok ls" and "t + length (label_octets ls) \<le> 255"
  shows "decode_name_loop (pre @ label_octets ls @ 0 # post) (length pre) j t False nx nm =
    accept (foldl (\<lambda>n l. n @ (if n = [] then [] else ''.'') @ to_lower l) nm ls,
      length pre + length (label_octets ls) + 1)"
  using assms
proof (induction ls arbitrary: pre t nm)
  case Nil
  show ?case by (subst decode_name_loop.simps) (simp add: rd8_def label_octets_def)
next
  case (Cons l ls)
  let ?n = "word_of_nat (length l) :: byte"
  let ?o = "word_of_nat (length l) # bytes_of_string l"
  let ?data = "pre @ label_octets (l # ls) @ 0 # post"
  have l: "l \<noteq> []" "length l \<le> 63" "labels_ok ls" using Cons.prems by (simp_all add: labels_ok_def)
  have n: "?n AND 0xC0 = 0" "unat ?n = length l" using l(2) by (simp_all only: label_len_bits)
  have nz: "?n \<noteq> 0" using n(2) l(1) by (metis length_0_conv unat_0)
  have split: "?data = (pre @ ?o) @ label_octets ls @ 0 # post" by (simp add: label_octets_def)
  have data: "?data = (pre @ [?n]) @ bytes_of_string l @ (label_octets ls @ 0 # post)"
    by (simp add: label_octets_def)
  have rd: "rd ?data (Suc (length pre)) (length l) = Some (bytes_of_string l)"
    unfolding data by (rule rd_append_mid) simp_all
  have hd: "rd8 ?data (length pre) = Some ?n" by (simp add: rd8_def label_octets_def nth_append)
  have len: "length (label_octets (l # ls)) = Suc (length l) + length (label_octets ls)"
    by (simp add: label_octets_def)
  have "decode_name_loop ?data (length pre) j t False nx nm =
      decode_name_loop ?data (length pre + 1 + length l) j (t + 1 + length l) False nx
        (nm @ (if nm = [] then [] else ''.'') @ to_lower l)"
    using Cons.prems(2) by (subst decode_name_loop.simps) (simp add: hd nz n rd len)
  also have "\<dots> = accept (foldl (\<lambda>n l. n @ (if n = [] then [] else ''.'') @ to_lower l)
        (nm @ (if nm = [] then [] else ''.'') @ to_lower l) ls,
      length (pre @ ?o) + length (label_octets ls) + 1)"
    using Cons.IH [of "t + 1 + length l" "pre @ ?o" "nm @ (if nm = [] then [] else ''.'') @ to_lower l"]
      l(3) Cons.prems(2) len by (simp only: split) simp
  finally show ?case by (simp add: len)
qed

lemma foldl_labels:
  assumes "labels_ok ls" and "nm \<noteq> []"
  shows "foldl (\<lambda>n l. n @ (if n = [] then [] else ''.'') @ to_lower l) nm ls =
    nm @ concat (map (\<lambda>l. ''.'' @ to_lower l) ls)"
  using assms by (induction ls arbitrary: nm) (simp_all add: labels_ok_def)

lemma dotted_concat: "dotted (l # ls) = l @ concat (map (\<lambda>l. ''.'' @ l) ls)"
  by (induction ls arbitrary: l) simp_all

lemma lower_dotted:
  assumes "labels_ok ls"
  shows "foldl (\<lambda>n l. n @ (if n = [] then [] else ''.'') @ to_lower l) [] ls = to_lower (dotted ls)"
proof (cases ls)
  case (Cons l ms)
  have "to_lower (concat (map (\<lambda>l. ''.'' @ l) ms)) = concat (map (\<lambda>l. ''.'' @ to_lower l) ms)"
    by (induction ms) (simp_all add: to_lower_append [of "_ # _", simplified] to_lower_def tolower_def)
  moreover have "to_lower l \<noteq> []" "labels_ok ms" using assms Cons by (simp_all add: labels_ok_def)
  ultimately show ?thesis by (simp add: Cons dotted_concat to_lower_append foldl_labels del: join_with.simps)
qed simp

text \<open>
  A query is understood. For a name of non-empty labels of at most 63 characters that fits the
  255 octets of a DNS name, the query parses back to a non-response with the same transaction id,
  the name in lower case, the requested record type and no answers.
\<close>

lemma dns_query_roundtrip:
  assumes "labels_ok ls" and "length (label_octets ls) \<le> 255"
  shows "parse_dns_message I (encode_dns_query (dotted ls) txn aaaa) =
    accept \<lparr>dns_is_response = False, dns_txn_id = txn, dns_question = to_lower (dotted ls),
      dns_qtype = (if aaaa then DNS_TYPE_AAAA else DNS_TYPE_A), dns_answers = []\<rparr>"
proof -
  let ?ty = "if aaaa then DNS_TYPE_AAAA else DNS_TYPE_A"
  let ?hdr = "dns_header txn 0 1 0"
  let ?tail = "write16 ?ty @ write16 DNS_CLASS_IN"
  let ?q = "?hdr @ label_octets ls @ 0 # ?tail"
  let ?off = "12 + length (label_octets ls) + 1"
  have q: "encode_dns_query (dotted ls) txn aaaa = ?q"
    using encode_labels [of ls 0 ?hdr] assms by (simp add: encode_dns_query_def encode_name_def)
  have hdr: "length ?hdr = 12" by (simp add: dns_header_def)
  have fields: "read16 ?q 0 = Some txn" "read16 ?q 2 = Some 0" "read16 ?q 4 = Some 1" "read16 ?q 6 = Some 0"
  proof -
    have "read16 (write16 txn @ x) 0 = Some txn" for x by simp
    then show "read16 ?q 0 = Some txn" by (simp add: dns_header_def)
    have "read16 (write16 txn @ write16 0 @ x) 2 = Some 0" for x by (rule c16.dec_at) simp
    then show "read16 ?q 2 = Some 0" by (simp add: dns_header_def)
    have "read16 ((write16 txn @ write16 0) @ write16 1 @ x) 4 = Some 1" for x by (rule c16.dec_at) simp
    then show "read16 ?q 4 = Some 1" by (simp add: dns_header_def)
    have "read16 ((write16 txn @ write16 0 @ write16 1) @ write16 0 @ x) 6 = Some 0" for x
      by (rule c16.dec_at) simp
    then show "read16 ?q 6 = Some 0" by (simp add: dns_header_def)
  qed
  have name: "decode_name ?q 12 = accept (to_lower (dotted ls), ?off)"
    using decode_labels [of ls 0 ?hdr ?tail 0 0 "[]"] assms
    by (simp add: decode_name_def hdr lower_dotted)
  have "read16 ((?hdr @ label_octets ls @ [0]) @ write16 ?ty @ write16 DNS_CLASS_IN) ?off = Some ?ty"
    by (rule c16.dec_at) (simp add: hdr)
  then have ty: "read16 ?q ?off = Some ?ty" by simp
  have len: "?off + 4 \<le> length ?q" "12 \<le> length ?q" by (simp_all add: hdr)
  show ?thesis
    using len fields name ty unfolding q
    by (simp add: parse_dns_message_def DNS_HEADER_SIZE_def)
qed

end
