(* ===== verification/Session_State.thy ===== *)
theory Session_State
  imports State_Logic Check_List Reorder Path_Mtu Turn_Client Mdns_Codec
begin

text \<open>
  The state of \<open>IceSession\<close> (\<open>src/session.hpp\<close>): the configuration, the fields of the class, the
  code the session calls but does not contain (\<open>session_env\<close>) and its effects. The fields are one
  record, built in layers that follow the groups of the class definition. Every method is a
  computation over this record; an effect (bytes handed to a carrier, a callback, a timer that is
  armed, a task posted to the strand) is appended to the field \<open>ss_log\<close>, in the order the code
  performs them. The strand runs one handler at a time and the mutexes of the class only publish
  values to other threads, so neither has a counterpart; \<open>steady_clock::now()\<close> is the field
  \<open>ss_now\<close>, fixed while a handler runs. \<open>current_check_\<close> is only ever assigned 0 and is
  left out.
\<close>

section \<open>Configuration\<close>

datatype SessionState = New | Gathering | WaitingRemote | Checking | Connected | Failed

definition session_state_name :: "SessionState \<Rightarrow> string" where
  "session_state_name s = (case s of New \<Rightarrow> ''NEW'' | Gathering \<Rightarrow> ''GATHERING''
     | WaitingRemote \<Rightarrow> ''WAITING_REMOTE'' | Checking \<Rightarrow> ''CHECKING'' | Connected \<Rightarrow> ''CONNECTED''
     | Failed \<Rightarrow> ''FAILED'')"

text \<open>\<open>int\<close> fields are unbounded integers; the casts the code applies to them are written out.\<close>

record IceConfigServers =
  cf_stun_servers :: "string list"
  cf_turn :: TurnConfig
  cf_turn_servers :: "TurnConfig list"
  cf_session_timeout_s :: int
  cf_keepalive_interval_s :: int
  cf_consent_max_failures :: int
  cf_turn_allocate_timeout_s :: int
  cf_turn_backup_interval_s :: int
  cf_turn_failover_min_interval_s :: int
  cf_consent_max_recovery :: int
  cf_check_interval_ms :: int
  cf_max_check_retries :: int

record IceConfigChecks = IceConfigServers +
  cf_aggressive_nomination :: bool
  cf_candidate_filter_flags :: u32
  cf_mdns_obfuscate_host_candidates :: bool
  cf_mdns_resolve_timeout_ms :: int
  cf_path_mtu :: int
  cf_pmtu_active_probing :: bool
  cf_pmtu_search_steps :: "int list"
  cf_pmtu_probe_timeout_ms :: int
  cf_pmtu_probe_concurrency :: int
  cf_lite_mode :: bool
  cf_reactive_interface_change :: bool
  cf_symmetric_port_prediction_enabled :: bool
  cf_symmetric_port_prediction_attempts :: int

record IceConfig = IceConfigChecks +
  cf_tcp_candidates_enabled :: bool
  cf_tcp_so_timeout_ms :: int
  cf_tcp_connect_timeout_ms :: int
  cf_auto_restart_on_consent_loss :: bool
  cf_auto_restart_max_attempts :: int
  cf_auto_restart_backoff_ms :: int
  cf_nomination_wait_ms :: int
  cf_prefer_turn_tcp :: bool
  cf_security_overhead :: int
  cf_ordered_delivery :: bool

definition default_ice_config :: IceConfig where
  "default_ice_config = \<lparr>cf_stun_servers = [], cf_turn = default_turn_config, cf_turn_servers = [],
     cf_session_timeout_s = 10, cf_keepalive_interval_s = 20, cf_consent_max_failures = 3,
     cf_turn_allocate_timeout_s = 5, cf_turn_backup_interval_s = 30,
     cf_turn_failover_min_interval_s = 60, cf_consent_max_recovery = 3, cf_check_interval_ms = 50,
     cf_max_check_retries = 4, cf_aggressive_nomination = False, cf_candidate_filter_flags = 0,
     cf_mdns_obfuscate_host_candidates = False, cf_mdns_resolve_timeout_ms = 5000,
     cf_path_mtu = 1200, cf_pmtu_active_probing = True,
     cf_pmtu_search_steps = [1200, 1400, 1500, 4000, 9000], cf_pmtu_probe_timeout_ms = 500,
     cf_pmtu_probe_concurrency = 1, cf_lite_mode = False, cf_reactive_interface_change = True,
     cf_symmetric_port_prediction_enabled = True,
     cf_symmetric_port_prediction_attempts = 8, cf_tcp_candidates_enabled = True,
     cf_tcp_so_timeout_ms = 5000, cf_tcp_connect_timeout_ms = 3000,
     cf_auto_restart_on_consent_loss = True, cf_auto_restart_max_attempts = 3,
     cf_auto_restart_backoff_ms = 500, cf_nomination_wait_ms = 500, cf_prefer_turn_tcp = False,
     cf_security_overhead = 0, cf_ordered_delivery = False\<rparr>"

section \<open>Surroundings\<close>

datatype CarrierKind = CarrierUdp | CarrierTcp | CarrierTls

record PortmapMapping =
  pmm_protocol :: u32
  pmm_int_port :: u16
  pmm_ext_ip :: string
  pmm_ext_port :: u16

text \<open>What \<open>getifaddrs\<close> lists.\<close>

datatype SockAddr = SaInet bytes | SaInet6 bytes | SaOther

record IfAddr =
  ifa_addr :: "SockAddr option"
  ifa_loopback :: bool
  ifa_up :: bool

text \<open>
  The n-th transaction id, the conn id of the n-th \<open>connect\<close> (0 when it fails), the n-th draw of
  \<open>randombytes_uniform\<close>, the random octets of the n-th UUID and the surroundings of the n-th TURN
  client are functions of n, counted in the session.
\<close>

record session_env =
  se_inet :: inet
  se_hmac :: hmac
  se_turn :: "nat \<Rightarrow> turn_env"
  se_txn :: "nat \<Rightarrow> TransactionId"
  se_connect :: "nat \<Rightarrow> CarrierKind \<Rightarrow> string \<Rightarrow> conn_id"
  se_uniform :: "nat \<Rightarrow> nat"
  se_uuid :: "nat \<Rightarrow> bytes"
  se_sort :: "CheckPair list \<Rightarrow> CheckPair list"
  se_parse_uri :: "string \<Rightarrow> (string \<times> u16) option"
  se_listen_port :: u16
  se_ifaddrs :: "IfAddr list option"
  se_portmap_supported :: bool
  se_portmap_request :: "u16 \<Rightarrow> PortmapMapping option"

section \<open>State\<close>

record EndpointInfo =
  ep_ip :: string
  ep_port :: u16
  ep_transport :: TransportType

text \<open>A TURN client with the carrier it was built on and the callbacks it was given.\<close>

datatype TurnCallbacks = PrimaryCallbacks | BackupCallbacks TurnConfig

record SessionTurn =
  st_kind :: CarrierKind
  st_callbacks :: TurnCallbacks
  st_no :: nat
  st_client :: TurnClient

datatype TimerKind = CheckTimer | KeepaliveTimer | GatherTimer | GatherFallbackTimer
  | NominationWaitTimer | TurnAllocateTimer | TurnBackupTimer | PmtuTimer

record MdnsResolveResult =
  mr_ipv4 :: "string list"
  mr_ipv6 :: "string list"
  mr_resolved :: bool

text \<open>Tasks posted to the strand.\<close>

datatype Task =
    TaskStartProbes
  | TaskTurnAttempt
  | TaskOnAlloc Candidate
  | TaskBackupAlloc TurnConfig
  | TaskRelayStun string u16 bytes
  | TaskAppData bytes

text \<open>
  What the owner of the session reads through its accessors (\<open>local_candidates()\<close>, \<open>local_ufrag()\<close>,
  \<open>local_pwd()\<close>, \<open>local_signal_flags()\<close>, \<open>is_controlling()\<close>) while \<open>on_gathered\<close> runs.
\<close>

record LocalView =
  lv_candidates :: "Candidate list"
  lv_ufrag :: string
  lv_pwd :: string
  lv_flags :: u32
  lv_controlling :: bool

datatype Effect =
    Send CarrierKind conn_id bytes
  | Connect CarrierKind string conn_id
  | Listen string
  | DropCids CarrierKind "conn_id \<rightharpoonup> EndpointInfo"
  | Disconnect CarrierKind conn_id
  | OnGathered LocalView
  | OnConnected string u16
  | OnFailed
  | OnData bytes
  | OnAutoRestart u32 u32
  | ArmTimer TimerKind int u32
  | ArmTcpTimer conn_id int
  | TurnRefreshTimer nat "nat option"
  | Post Task
  | MdnsRegister string
  | MdnsUnregister string
  | MdnsResolve nat string int
  | PortmapRelease u32 u16
  | BadCall

text \<open>Fields set by the constructor.\<close>

record SessionFixed =
  ss_cfg :: IceConfig
  ss_peer_id :: string
  ss_carrier :: bool
  ss_carrier_tcp :: bool
  ss_carrier_tls :: bool
  ss_portmap_ext :: bool
  ss_mdns :: bool
  ss_timer_ctx :: bool
  ss_cb_gathered :: bool
  ss_cb_connected :: bool
  ss_cb_failed :: bool
  ss_cb_data :: bool
  ss_cb_auto_restart :: bool

record SessionCore = SessionFixed +
  ss_state :: SessionState
  ss_controlling :: bool
  ss_tiebreaker :: u64
  ss_local_ufrag :: string
  ss_local_pwd :: string
  ss_local_candidates :: "Candidate list"
  ss_remote_ufrag :: string
  ss_remote_pwd :: string
  ss_remote_candidates :: "Candidate list"
  ss_check_list :: "CheckPair list"

record SessionNomination = SessionCore +
  ss_nominated_ip :: string
  ss_nominated_port :: u16
  ss_uses_relay :: bool
  ss_rtt_ewma_us :: u64
  ss_nominated_local_type :: CandidateType
  ss_nominated_remote_type :: CandidateType
  ss_nominated_cid :: conn_id
  ss_nominated_transport :: TransportType
  ss_nomination_wait_armed :: bool
  ss_nominee_selected :: bool
  ss_pending_nom_ip :: string
  ss_pending_nom_port :: u16
  ss_pending_nom_relay :: bool
  ss_pending_nom_cid :: conn_id
  ss_pending_nom_tx :: TransportType

record SessionCids = SessionNomination +
  ss_local_port :: u16
  ss_carrier_initialized :: bool
  ss_endpoint_to_cid :: "string \<rightharpoonup> conn_id"
  ss_cid_udp :: "conn_id \<rightharpoonup> EndpointInfo"
  ss_cid_tcp :: "conn_id \<rightharpoonup> EndpointInfo"
  ss_relay_endpoint_to_cid :: "string \<rightharpoonup> conn_id"
  ss_relay_cids :: "conn_id set"
  ss_next_relay_cid :: conn_id
  ss_tcp_rx_buffers :: "conn_id \<rightharpoonup> bytes"
  ss_tcp_connect_timers :: "conn_id set"
  ss_pending_app_data :: "bytes list"
  ss_pending_stun_probes :: "TransactionId list"
  ss_mdns_local_hostname :: string
  ss_portmap_mapping :: "PortmapMapping option"

record SessionRelay = SessionCids +
  ss_turn :: "SessionTurn option"
  ss_turn_attempt_idx :: nat
  ss_turn_backups :: "TurnConfig list"
  ss_turn_backup_probe :: "SessionTurn option"
  ss_turn_backup_probe_idx :: nat
  ss_turn_last_failover :: "u64 option"
  ss_consent_missed :: u32
  ss_consent_recovery_attempts :: u32
  ss_auto_restart_attempts :: u32
  ss_auto_restart_last :: "u64 option"
  ss_remote_end_of_candidates :: bool
  ss_gathered_signal_fired :: bool
  ss_stun_gathered :: bool
  ss_turn_gathering :: bool

record SessionPath = SessionRelay +
  ss_peer_signal_flags :: u32
  ss_symmetric_stride :: u16
  ss_first_observed_srflx_port :: u16
  ss_have_first_srflx_port :: bool
  ss_pmtu_probe :: "PathMtuProbe option"
  ss_pmtu_inflight_txn :: TransactionId
  ss_pmtu_inflight :: bool
  ss_effective_mtu :: u32
  ss_send_data_seq :: u32
  ss_reorder :: Reorder
  ss_last_activity :: u64

text \<open>The generation counters of the timers, the draws made so far, the clock and the effects.\<close>

record Session = SessionPath +
  ss_gen :: "TimerKind \<Rightarrow> u32"
  ss_txn_count :: nat
  ss_connect_count :: nat
  ss_uniform_count :: nat
  ss_uuid_count :: nat
  ss_turn_count :: nat
  ss_now :: u64
  ss_log :: "Effect list"

type_synonym 'a session = "(Session, 'a) state"

section \<open>Elementary steps\<close>

definition emit :: "Effect \<Rightarrow> unit session" where
  "emit e = modify (\<lambda>s. s\<lparr>ss_log := ss_log s @ [e]\<rparr>)"

definition local_signal_flags :: "Session \<Rightarrow> u32" where
  "local_signal_flags s =
     (if cf_lite_mode (ss_cfg s) then ICE_SIGNAL_FLAG_LITE else 0) OR
     (if ss_symmetric_stride s \<noteq> 0 then ICE_SIGNAL_FLAG_SYMMETRIC else 0)"

definition local_view :: "Session \<Rightarrow> LocalView" where
  "local_view s = \<lparr>lv_candidates = ss_local_candidates s, lv_ufrag = ss_local_ufrag s,
     lv_pwd = ss_local_pwd s, lv_flags = local_signal_flags s, lv_controlling = ss_controlling s\<rparr>"

definition emit_gathered :: "unit session" where
  "emit_gathered = do { v \<leftarrow> gets local_view; emit (OnGathered v) }"

text \<open>
  The gather timer and its 500 ms fallback share the generation counter \<open>gather_gen_\<close>.
\<close>

definition gen_of :: "TimerKind \<Rightarrow> TimerKind" where
  "gen_of k = (if k = GatherFallbackTimer then GatherTimer else k)"

definition bump :: "TimerKind \<Rightarrow> unit session" where
  "bump k = modify (\<lambda>s. s\<lparr>ss_gen := (ss_gen s)(gen_of k := ss_gen s (gen_of k) + 1)\<rparr>)"

text \<open>\<open>if (timer_ctx_) { const auto gen = ++gen_; schedule_after(delay) ... }\<close>\<close>

definition arm_timer :: "TimerKind \<Rightarrow> int \<Rightarrow> unit session" where
  "arm_timer k ms = do {
     ctx \<leftarrow> gets ss_timer_ctx;
     whenM ctx (do {
       bump k;
       gen \<leftarrow> gets (\<lambda>s. ss_gen s (gen_of k));
       emit (ArmTimer k ms gen)
     })
   }"

definition generate_txn_id :: "session_env \<Rightarrow> TransactionId session" where
  "generate_txn_id E = do {
     n \<leftarrow> gets ss_txn_count;
     modify (\<lambda>s. s\<lparr>ss_txn_count := n + 1\<rparr>);
     return (se_txn E n)
   }"

definition random_string :: "session_env \<Rightarrow> nat \<Rightarrow> string session" where
  "random_string E len = do {
     n \<leftarrow> gets ss_uniform_count;
     modify (\<lambda>s. s\<lparr>ss_uniform_count := n + len\<rparr>);
     return (map (\<lambda>i. ''abcdefghijklmnopqrstuvwxyz0123456789'' ! se_uniform E (n + i)) [0..<len])
   }"

definition generate_ufrag :: "session_env \<Rightarrow> string session" where
  "generate_ufrag E = random_string E 8"

definition generate_pwd :: "session_env \<Rightarrow> string session" where
  "generate_pwd E = random_string E 24"

definition split_stun_host_port :: "session_env \<Rightarrow> string \<Rightarrow> (string \<times> u16) option" where
  "split_stun_host_port E server =
     (if server = [] then None
      else if CHR '':'' \<notin> set server then Some (server, 3478)
      else case se_parse_uri E (''stun://'' @ server) of
        None \<Rightarrow> None
      | Some (host, port) \<Rightarrow> if host = [] \<or> port = 0 then None else Some (host, port))"

end
