(* ===== verification/Session_Net.thy ===== *)
theory Session_Net
  imports Session_State
begin

text \<open>
  The carrier side of \<open>src/session.cpp\<close>: conn ids of remote endpoints, the TURN client as an
  outbound path, application data, and the sending of one connectivity check.
\<close>

section \<open>Conn ids\<close>

definition carrier_connect :: "session_env \<Rightarrow> CarrierKind \<Rightarrow> string \<Rightarrow> conn_id session" where
  "carrier_connect E kind uri = do {
     n \<leftarrow> gets ss_connect_count;
     modify (\<lambda>s. s\<lparr>ss_connect_count := n + 1\<rparr>);
     let cid = se_connect E n kind uri;
     emit (Connect kind uri cid);
     return cid
   }"

definition ensure_remote_cid :: "session_env \<Rightarrow> string \<Rightarrow> u16 \<Rightarrow> conn_id session" where
  "ensure_remote_cid E ip port = do {
     carrier \<leftarrow> gets ss_carrier;
     known \<leftarrow> gets (\<lambda>s. ss_endpoint_to_cid s (endpoint_key ip port));
     if \<not> carrier then return 0
     else case known of
       Some cid \<Rightarrow> return cid
     | None \<Rightarrow> do {
         cid \<leftarrow> carrier_connect E CarrierUdp (endpoint_uri ip port);
         if cid = 0 then return 0
         else do {
           modify (\<lambda>s. s\<lparr>ss_endpoint_to_cid := (ss_endpoint_to_cid s)(endpoint_key ip port \<mapsto> cid),
             ss_cid_udp := (ss_cid_udp s)(cid \<mapsto> \<lparr>ep_ip = ip, ep_port = port, ep_transport = Udp\<rparr>)\<rparr>);
           return cid
         }
       }
   }"

definition relay_cid_for_endpoint :: "string \<Rightarrow> u16 \<Rightarrow> conn_id session" where
  "relay_cid_for_endpoint ip port = do {
     known \<leftarrow> gets (\<lambda>s. ss_relay_endpoint_to_cid s (endpoint_key ip port));
     case known of
       Some cid \<Rightarrow> return cid
     | None \<Rightarrow> do {
         cid \<leftarrow> gets ss_next_relay_cid;
         modify (\<lambda>s. s\<lparr>ss_next_relay_cid := cid + 1,
           ss_relay_endpoint_to_cid := (ss_relay_endpoint_to_cid s)(endpoint_key ip port \<mapsto> cid),
           ss_relay_cids := insert cid (ss_relay_cids s),
           ss_cid_udp := (ss_cid_udp s)(cid \<mapsto> \<lparr>ep_ip = ip, ep_port = port, ep_transport = Udp\<rparr>)\<rparr>);
         return cid
       }
   }"

definition ensure_remote_tcp_cid :: "session_env \<Rightarrow> string \<Rightarrow> u16 \<Rightarrow> conn_id session" where
  "ensure_remote_tcp_cid E ip port = do {
     carrier \<leftarrow> gets ss_carrier_tcp;
     if \<not> carrier then return 0
     else do {
       cid \<leftarrow> carrier_connect E CarrierTcp (endpoint_uri_tcp ip port);
       if cid = 0 then return 0
       else do {
         modify (\<lambda>s. s\<lparr>ss_cid_tcp := (ss_cid_tcp s)(cid \<mapsto>
             \<lparr>ep_ip = ip, ep_port = port, ep_transport = TcpActive\<rparr>),
           ss_tcp_connect_timers := insert cid (ss_tcp_connect_timers s)\<rparr>);
         ms \<leftarrow> gets (\<lambda>s. cf_tcp_connect_timeout_ms (ss_cfg s));
         emit (ArmTcpTimer cid ms);
         return cid
       }
     }
   }"

definition arm_tcp_so_connect :: "session_env \<Rightarrow> string \<Rightarrow> u16 \<Rightarrow> conn_id session" where
  "arm_tcp_so_connect E ip port = ensure_remote_tcp_cid E ip port"

definition tear_down_cids :: "unit session" where
  "tear_down_cids = do {
     modify (\<lambda>s. s\<lparr>ss_tcp_connect_timers := {}\<rparr>);
     carrier \<leftarrow> gets ss_carrier;
     udp \<leftarrow> gets ss_cid_udp;
     whenM carrier (emit (DropCids CarrierUdp udp));
     carrier_tcp \<leftarrow> gets ss_carrier_tcp;
     tcp \<leftarrow> gets ss_cid_tcp;
     whenM carrier_tcp (emit (DropCids CarrierTcp tcp));
     modify (\<lambda>s. s\<lparr>ss_endpoint_to_cid := Map.empty, ss_cid_udp := Map.empty,
       ss_cid_tcp := Map.empty, ss_tcp_rx_buffers := Map.empty\<rparr>)
   }"

section \<open>Application data, inbound\<close>

definition session_deliver_in_order :: "bytes \<Rightarrow> unit session" where
  "session_deliver_in_order raw = do {
     r \<leftarrow> gets ss_reorder;
     cb \<leftarrow> gets ss_cb_data;
     let (r', out) = deliver_in_order raw r;
     modify (\<lambda>s. s\<lparr>ss_reorder := r'\<rparr>);
     whenM cb (for_each (\<lambda>d. emit (OnData d)) out)
   }"

section \<open>The TURN clients\<close>

definition is_stun :: "bytes \<Rightarrow> bool" where
  "is_stun data \<longleftrightarrow> length data \<ge> 20 \<and> data ! 0 AND 0xC0 = 0 \<and>
     data ! 4 = 0x21 \<and> data ! 5 = 0x12 \<and> data ! 6 = 0xA4 \<and> data ! 7 = 0x42"

text \<open>The data callback of the primary client (in \<open>try_next_turn_attempt\<close>).\<close>

definition on_turn_data :: "string \<Rightarrow> u16 \<Rightarrow> bytes \<Rightarrow> unit session" where
  "on_turn_data ip port data = do {
     modify (\<lambda>s. s\<lparr>ss_last_activity := ss_now s\<rparr>);
     if is_stun data then emit (Post (TaskRelayStun ip port data))
     else do {
       ordered \<leftarrow> gets (\<lambda>s. cf_ordered_delivery (ss_cfg s));
       cb \<leftarrow> gets ss_cb_data;
       if ordered then session_deliver_in_order data
       else whenM cb (emit (OnData data))
     }
   }"

definition relay_candidate :: "session_env \<Rightarrow> string \<Rightarrow> u16 \<Rightarrow> Candidate" where
  "relay_candidate E ip port =
     (let c = empty_candidate\<lparr>cand_type := Relay, cand_port := port\<rparr>;
          c = set_address (se_inet E) ip c
      in c\<lparr>cand_priority := compute_priority Relay 65535 1\<rparr>)"

text \<open>
  What the session makes of an action of a TURN client; the callbacks for RFC 6062 connections
  are never installed.
\<close>

definition turn_action :: "session_env \<Rightarrow> SessionTurn \<Rightarrow> TurnAction \<Rightarrow> unit session" where
  "turn_action E t a =
     (case a of
        CarrierSend cid bs \<Rightarrow> emit (Send (st_kind t) cid bs)
      | DataCb ip port data \<Rightarrow>
          (case st_callbacks t of
             PrimaryCallbacks \<Rightarrow> on_turn_data ip port data
           | BackupCallbacks _ \<Rightarrow> return ())
      | AllocCb ip port \<Rightarrow>
          (case st_callbacks t of
             PrimaryCallbacks \<Rightarrow> emit (Post (TaskOnAlloc (relay_candidate E ip port)))
           | BackupCallbacks cfg \<Rightarrow> emit (Post (TaskBackupAlloc cfg)))
      | ArmRefreshTimer n \<Rightarrow> emit (TurnRefreshTimer (st_no t) (Some n))
      | CancelRefreshTimer \<Rightarrow> emit (TurnRefreshTimer (st_no t) None)
      | ConnAttemptCb _ _ _ \<Rightarrow> return ()
      | DataConnCb _ _ _ _ \<Rightarrow> return ()
      | BadFunctionCall \<Rightarrow> emit BadCall)"

text \<open>\<open>if (turn_) turn_->...\<close> and \<open>if (turn_backup_probe_) turn_backup_probe_->...\<close>\<close>

definition on_turn :: "session_env \<Rightarrow> (turn_env \<Rightarrow> TurnClient \<Rightarrow> turn_result) \<Rightarrow> unit session" where
  "on_turn E f = do {
     turn \<leftarrow> gets ss_turn;
     case turn of
       None \<Rightarrow> return ()
     | Some t \<Rightarrow> do {
         let (c, acts) = f (se_turn E (st_no t)) (st_client t);
         modify (\<lambda>s. s\<lparr>ss_turn := Some (t\<lparr>st_client := c\<rparr>)\<rparr>);
         for_each (turn_action E t) acts
       }
   }"

definition on_backup :: "session_env \<Rightarrow> (turn_env \<Rightarrow> TurnClient \<Rightarrow> turn_result) \<Rightarrow> unit session" where
  "on_backup E f = do {
     probe \<leftarrow> gets ss_turn_backup_probe;
     case probe of
       None \<Rightarrow> return ()
     | Some t \<Rightarrow> do {
         let (c, acts) = f (se_turn E (st_no t)) (st_client t);
         modify (\<lambda>s. s\<lparr>ss_turn_backup_probe := Some (t\<lparr>st_client := c\<rparr>)\<rparr>);
         for_each (turn_action E t) acts
       }
   }"

definition turn_ready :: "Session \<Rightarrow> bool" where
  "turn_ready s \<longleftrightarrow> (case ss_turn s of None \<Rightarrow> False | Some t \<Rightarrow> tc_allocated (st_client t))"

section \<open>Application data, outbound\<close>

definition send_on_strand :: "session_env \<Rightarrow> bytes \<Rightarrow> unit session" where
  "send_on_strand E buf = do {
     ip \<leftarrow> gets ss_nominated_ip;
     port \<leftarrow> gets ss_nominated_port;
     relay \<leftarrow> gets ss_uses_relay;
     use_tcp \<leftarrow> gets (\<lambda>s. transport_is_tcp (ss_nominated_transport s));
     add_seqno \<leftarrow> gets (\<lambda>s. cf_ordered_delivery (ss_cfg s) \<and> \<not> use_tcp);
     seq \<leftarrow> gets ss_send_data_seq;
     whenM add_seqno (modify (\<lambda>s. s\<lparr>ss_send_data_seq := seq + 1\<rparr>));
     let out = (if add_seqno then seqno_frame seq buf else buf);
     turn \<leftarrow> gets ss_turn;
     if relay \<and> turn \<noteq> None then on_turn E (\<lambda>T. send_indication T ip port out)
     else do {
       nominated \<leftarrow> gets ss_nominated_cid;
       cid \<leftarrow> (if nominated = 0 then ensure_remote_cid E ip port else return nominated);
       if cid = 0 then return ()
       else do {
         whenM (nominated = 0) (modify (\<lambda>s. s\<lparr>ss_nominated_cid := cid\<rparr>));
         tcp \<leftarrow> gets ss_carrier_tcp;
         udp \<leftarrow> gets ss_carrier;
         if use_tcp then whenM tcp (emit (Send CarrierTcp cid (frame_tcp_stun out)))
         else whenM udp (emit (Send CarrierUdp cid out))
       }
     }
   }"

definition flush_pending_app_data :: "session_env \<Rightarrow> unit session" where
  "flush_pending_app_data E = do {
     pending \<leftarrow> gets ss_pending_app_data;
     for_each (\<lambda>buf. do {
       modify (\<lambda>s. s\<lparr>ss_pending_app_data := tl (ss_pending_app_data s)\<rparr>);
       send_on_strand E buf
     }) pending
   }"

definition kPendingAppDataMaxFrames :: nat where "kPendingAppDataMaxFrames = 64"

definition session_send :: "bytes \<Rightarrow> unit session" where
  "session_send data = do {
     modify (\<lambda>s. s\<lparr>ss_last_activity := ss_now s\<rparr>);
     emit (Post (TaskAppData data))
   }"

definition run_app_data :: "session_env \<Rightarrow> bytes \<Rightarrow> unit session" where
  "run_app_data E buf = do {
     st \<leftarrow> gets ss_state;
     if st \<noteq> Connected
     then do {
       pending \<leftarrow> gets ss_pending_app_data;
       let pending = (if length pending \<ge> kPendingAppDataMaxFrames then tl pending else pending);
       modify (\<lambda>s. s\<lparr>ss_pending_app_data := pending @ [buf]\<rparr>)
     }
     else send_on_strand E buf
   }"

section \<open>One connectivity check\<close>

definition update_pair :: "nat \<Rightarrow> (CheckPair \<Rightarrow> CheckPair) \<Rightarrow> unit session" where
  "update_pair i f = modify (\<lambda>s. s\<lparr>ss_check_list := (ss_check_list s)[i := f (ss_check_list s ! i)]\<rparr>)"

definition session_unfreeze_siblings :: "string \<Rightarrow> string \<Rightarrow> unit session" where
  "session_unfreeze_siblings lf rf =
     modify (\<lambda>s. s\<lparr>ss_check_list := unfreeze_siblings lf rf (ss_check_list s)\<rparr>)"

definition fail_pair :: "nat \<Rightarrow> unit session" where
  "fail_pair i = do {
     p \<leftarrow> gets (\<lambda>s. ss_check_list s ! i);
     update_pair i (\<lambda>p. p\<lparr>cp_state := PairFailed\<rparr>);
     session_unfreeze_siblings (cand_foundation (cp_local p)) (cand_foundation (cp_remote p))
   }"

text \<open>The retry budget after the cast \<open>static_cast<uint8_t>(cfg_.max_check_retries)\<close>.\<close>

definition retry_budget :: "Session \<Rightarrow> byte" where
  "retry_budget s = word_of_int (cf_max_check_retries (ss_cfg s))"

definition check_request :: "session_env \<Rightarrow> CheckPair \<Rightarrow> Session \<Rightarrow> bytes" where
  "check_request E p s =
     (let username = ss_remote_ufrag s @ '':'' @ ss_local_ufrag s;
          b = add_priority (cand_priority (cp_local p))
                (add_username username (new_builder STUN_BINDING_REQUEST (cp_txn_id p)));
          b = (if ss_controlling s
               then let b = add_ice_controlling (ss_tiebreaker s) b
                    in if cf_aggressive_nomination (ss_cfg s) \<or> cp_nominee_check_sent p
                       then add_use_candidate b else b
               else add_ice_controlled (ss_tiebreaker s) b)
      in build (add_fingerprint (add_integrity (se_hmac E) (ss_remote_pwd s) b)))"

definition send_check :: "session_env \<Rightarrow> nat \<Rightarrow> unit session" where
  "send_check E i = do {
     spent \<leftarrow> gets (\<lambda>s. cp_retries (ss_check_list s ! i) \<ge> retry_budget s);
     if spent then fail_pair i
     else do {
       now \<leftarrow> gets ss_now;
       update_pair i (\<lambda>p. p\<lparr>cp_retries := cp_retries p + 1, cp_txn_send_us := now\<rparr>);
       p \<leftarrow> gets (\<lambda>s. ss_check_list s ! i);
       msg \<leftarrow> gets (check_request E p);
       let ip = address_str (se_inet E) (cp_remote p);
       let port = cand_port (cp_remote p);
       ready \<leftarrow> gets turn_ready;
       tcp \<leftarrow> gets ss_carrier_tcp;
       udp \<leftarrow> gets ss_carrier;
       if transport_is_tcp (cp_transport_type p)
       then
         (if cp_transport_type p = TcpPassive then return ()
          else do {
            cid \<leftarrow> (if cp_transport_type p = TcpSimultaneousOpen then arm_tcp_so_connect E ip port
                   else ensure_remote_tcp_cid E ip port);
            if cid = 0 \<or> \<not> tcp then return ()
            else emit (Send CarrierTcp cid (frame_tcp_stun msg))
          })
       else if cand_type (cp_local p) = Relay \<and> cp_transport_type p = Udp \<and> ready
       then do {
         relay_cid_for_endpoint ip port;
         on_turn E (\<lambda>T. send_indication T ip port msg)
       }
       else do {
         cid \<leftarrow> ensure_remote_cid E ip port;
         if cid = 0 \<or> \<not> udp then return ()
         else emit (Send CarrierUdp cid msg)
       }
     }
   }"

end
