(* ===== verification/Session_Checks.thy ===== *)
theory Session_Checks
  imports Session_Net
begin

text \<open>
  Connectivity checks of \<open>src/session.cpp\<close>: building and pacing the check list, role conflicts,
  the end of gathering and path-MTU probes.
\<close>

section \<open>Building the list\<close>

definition session_stride :: "Session \<Rightarrow> u16" where
  "session_stride s = prediction_stride (ss_peer_signal_flags s)
     (cf_symmetric_port_prediction_enabled (ss_cfg s)) (ss_symmetric_stride s)"

definition build_check_list :: "session_env \<Rightarrow> unit session" where
  "build_check_list E = do {
     stride \<leftarrow> gets session_stride;
     attempts \<leftarrow> gets (\<lambda>s. prediction_attempts stride (cf_symmetric_port_prediction_attempts (ss_cfg s)));
     built \<leftarrow> gets (\<lambda>s. make_check_list (se_inet E) (se_sort E) (se_txn E) (ss_controlling s) stride
                attempts (ss_local_candidates s) (ss_remote_candidates s) (ss_txn_count s));
     modify (\<lambda>s. s\<lparr>ss_local_candidates := assign_local_foundations (se_inet E) (ss_local_candidates s),
       ss_remote_candidates := map (fill_foundation (se_inet E)) (ss_remote_candidates s),
       ss_check_list := fst built, ss_txn_count := snd built\<rparr>)
   }"

section \<open>Pacing\<close>

definition fail_session :: "unit session" where
  "fail_session = do {
     modify (\<lambda>s. s\<lparr>ss_state := Failed\<rparr>);
     cb \<leftarrow> gets ss_cb_failed;
     whenM cb (emit OnFailed)
   }"

definition base_rto_us :: "Session \<Rightarrow> u64" where
  "base_rto_us s = word_of_int (cf_check_interval_ms (ss_cfg s)) * 5 * 1000"

text \<open>
  One iteration of the first pass. The shift by \<open>max_check_retries - 1\<close> is only reached after a
  check was sent, so the budget is then positive.
\<close>

definition retransmit :: "session_env \<Rightarrow> nat \<Rightarrow> unit session" where
  "retransmit E i = do {
     p \<leftarrow> gets (\<lambda>s. ss_check_list s ! i);
     budget \<leftarrow> gets retry_budget;
     rto \<leftarrow> gets base_rto_us;
     retries \<leftarrow> gets (\<lambda>s. cf_max_check_retries (ss_cfg s));
     now \<leftarrow> gets ss_now;
     if cp_state p \<noteq> InProgress then return ()
     else if cp_retries p \<ge> budget
     then
       (if cp_txn_send_us p \<noteq> 0 \<and> now - cp_txn_send_us p < push_bit (nat (retries - 1)) rto
        then return ()
        else fail_pair i)
     else if cp_txn_send_us p \<noteq> 0 \<and> now - cp_txn_send_us p < push_bit (min (unat (cp_retries p)) 5) rto
     then return ()
     else send_check E i
   }"

definition start_pair :: "session_env \<Rightarrow> nat \<Rightarrow> unit session" where
  "start_pair E i = do {
     update_pair i (\<lambda>p. p\<lparr>cp_state := InProgress\<rparr>);
     send_check E i
   }"

text \<open>The promotion loop of the second pass, with its \<open>break\<close> at the concurrency cap.\<close>

fun promote_waiting :: "session_env \<Rightarrow> nat list \<Rightarrow> unit session" where
  "promote_waiting E [] = return ()"
| "promote_waiting E (i # is) = do {
     full \<leftarrow> gets (\<lambda>s. in_progress_count (ss_check_list s) \<ge> kCheckConcurrencyCap);
     if full then return ()
     else do {
       ready \<leftarrow> gets (\<lambda>s. cp_state (ss_check_list s ! i) = Waiting \<and>
                           cp_retries (ss_check_list s ! i) < retry_budget s);
       whenM ready (start_pair E i);
       promote_waiting E is
     }
   }"

text \<open>The list has no pending pair left.\<close>

definition checks_exhausted :: "unit session" where
  "checks_exhausted = do {
     st \<leftarrow> gets ss_state;
     wait \<leftarrow> gets (\<lambda>s. \<not> ss_controlling s \<and> \<not> ss_nomination_wait_armed s \<and>
              cf_nomination_wait_ms (ss_cfg s) > 0 \<and> list_ex cp_valid (ss_check_list s));
     if st = Connected then return ()
     else if wait
     then do {
       modify (\<lambda>s. s\<lparr>ss_nomination_wait_armed := True\<rparr>);
       ms \<leftarrow> gets (\<lambda>s. cf_nomination_wait_ms (ss_cfg s));
       arm_timer NominationWaitTimer ms
     }
     else fail_session
   }"

definition run_next_check :: "session_env \<Rightarrow> unit session" where
  "run_next_check E = do {
     st \<leftarrow> gets ss_state;
     if st \<noteq> Checking then return ()
     else do {
       modify (\<lambda>s. s\<lparr>ss_check_list := unfreeze_stuck_pairs (ss_check_list s)\<rparr>);
       n \<leftarrow> gets (\<lambda>s. length (ss_check_list s));
       for_each (retransmit E) [0..<n];
       pending \<leftarrow> gets (\<lambda>s. any_pending (ss_check_list s));
       promote_waiting E [0..<n];
       if \<not> pending then checks_exhausted
       else do {
         ms \<leftarrow> gets (\<lambda>s. cf_check_interval_ms (ss_cfg s));
         arm_timer CheckTimer ms
       }
     }
   }"

definition on_nomination_wait_timer :: "unit session" where
  "on_nomination_wait_timer = do {
     st \<leftarrow> gets ss_state;
     if st = Connected then return () else fail_session
   }"

text \<open>The pre-fire loop of \<open>begin_checks\<close>: one check per address family.\<close>

fun prefire :: "session_env \<Rightarrow> bool \<Rightarrow> bool \<Rightarrow> nat list \<Rightarrow> unit session" where
  "prefire E fired_v4 fired_v6 [] = return ()"
| "prefire E fired_v4 fired_v6 (i # is) =
     (if fired_v4 \<and> fired_v6 then return ()
      else do {
        p \<leftarrow> gets (\<lambda>s. ss_check_list s ! i);
        if cp_state p \<noteq> Waiting then prefire E fired_v4 fired_v6 is
        else if cand_family (cp_local p) = IPv4 \<and> \<not> fired_v4
        then do { start_pair E i; prefire E True fired_v6 is }
        else if cand_family (cp_local p) = IPv6 \<and> \<not> fired_v6
        then do { start_pair E i; prefire E fired_v4 True is }
        else prefire E fired_v4 fired_v6 is
      })"

definition begin_checks :: "session_env \<Rightarrow> unit session" where
  "begin_checks E = do {
     lite \<leftarrow> gets (\<lambda>s. cf_lite_mode (ss_cfg s));
     if lite then return ()
     else do {
       n \<leftarrow> gets (\<lambda>s. length (ss_check_list s));
       prefire E False False [0..<n];
       run_next_check E
     }
   }"

text \<open>\<open>build_check_list(); current_check_ = 0; run_next_check();\<close> and its variant with
  \<open>begin_checks\<close> on the way into \<open>Checking\<close>.\<close>

definition rebuild_and_run :: "session_env \<Rightarrow> unit session" where
  "rebuild_and_run E = do { build_check_list E; run_next_check E }"

definition enter_checking :: "session_env \<Rightarrow> unit session" where
  "enter_checking E = do {
     modify (\<lambda>s. s\<lparr>ss_state := Checking\<rparr>);
     build_check_list E;
     begin_checks E
   }"

section \<open>Role conflicts\<close>

text \<open>The rebuild shared by \<open>handle_role_conflict\<close> and the 487 branch of \<open>on_carrier_data\<close>.\<close>

definition switch_role :: "session_env \<Rightarrow> unit session" where
  "switch_role E = do {
     modify (\<lambda>s. s\<lparr>ss_controlling := \<not> ss_controlling s\<rparr>);
     active \<leftarrow> gets (\<lambda>s. ss_state s = Checking \<and> ss_local_candidates s \<noteq> [] \<and> ss_remote_candidates s \<noteq> []);
     whenM active (rebuild_and_run E)
   }"

definition handle_role_conflict :: "session_env \<Rightarrow> bool \<Rightarrow> u64 \<Rightarrow> bool session" where
  "handle_role_conflict E sender_controlling sender_tiebreaker = do {
     controlling \<leftarrow> gets ss_controlling;
     tiebreaker \<leftarrow> gets ss_tiebreaker;
     if sender_controlling \<noteq> controlling then return False
     else if tiebreaker \<ge> sender_tiebreaker then return False
     else do { switch_role E; return True }
   }"

section \<open>Gathering done\<close>

definition on_gathering_complete :: "session_env \<Rightarrow> unit session" where
  "on_gathering_complete E = do {
     modify (\<lambda>s. s\<lparr>ss_pending_stun_probes := []\<rparr>);
     bump GatherTimer;
     st \<leftarrow> gets ss_state;
     remote \<leftarrow> gets ss_remote_candidates;
     whenM (st = Gathering)
       (if remote \<noteq> [] then enter_checking E
        else modify (\<lambda>s. s\<lparr>ss_state := WaitingRemote\<rparr>));
     cb \<leftarrow> gets ss_cb_gathered;
     whenM cb emit_gathered
   }"

section \<open>Path-MTU probes\<close>

definition probe_request :: "session_env \<Rightarrow> TransactionId \<Rightarrow> nat \<Rightarrow> Session \<Rightarrow> bytes" where
  "probe_request E txn size_wanted s =
     (let b = add_priority 0 (add_username (ss_remote_ufrag s @ '':'' @ ss_local_ufrag s)
                (new_builder STUN_BINDING_REQUEST txn));
          b = (if ss_controlling s then add_ice_controlling (ss_tiebreaker s) b
               else add_ice_controlled (ss_tiebreaker s) b)
      in build (add_fingerprint (add_integrity (se_hmac E) (ss_remote_pwd s) (add_padding_to size_wanted b))))"

definition start_path_mtu_probe :: "session_env \<Rightarrow> unit session" where
  "start_path_mtu_probe E = do {
     probe \<leftarrow> gets ss_pmtu_probe;
     st \<leftarrow> gets ss_state;
     inflight \<leftarrow> gets ss_pmtu_inflight;
     case probe of
       None \<Rightarrow> return ()
     | Some pm \<Rightarrow>
         if st \<noteq> Connected then return ()
         else if inflight then return ()
         else (case next_probe_size pm of
           None \<Rightarrow> modify (\<lambda>s. s\<lparr>ss_effective_mtu := word_of_nat (effective_mtu pm)\<rparr>)
         | Some sz \<Rightarrow> do {
             cid \<leftarrow> gets ss_nominated_cid;
             carrier \<leftarrow> gets ss_carrier;
             if cid = 0 \<or> \<not> carrier then return ()
             else do {
               txn \<leftarrow> generate_txn_id E;
               modify (\<lambda>s. s\<lparr>ss_pmtu_inflight_txn := txn, ss_pmtu_inflight := True\<rparr>);
               msg \<leftarrow> gets (probe_request E txn sz);
               emit (Send CarrierUdp cid msg);
               ms \<leftarrow> gets (\<lambda>s. cf_pmtu_probe_timeout_ms (ss_cfg s));
               arm_timer PmtuTimer ms
             }
           })
   }"

definition pmtu_advance :: "session_env \<Rightarrow> (PathMtuProbe \<Rightarrow> PathMtuProbe) \<Rightarrow> PathMtuProbe \<Rightarrow> unit session" where
  "pmtu_advance E f pm = do {
     let pm' = f pm;
     modify (\<lambda>s. s\<lparr>ss_pmtu_probe := Some pm', ss_effective_mtu := word_of_nat (effective_mtu pm')\<rparr>);
     whenM (\<not> is_complete pm') (start_path_mtu_probe E)
   }"

definition on_path_mtu_probe_timeout :: "session_env \<Rightarrow> unit session" where
  "on_path_mtu_probe_timeout E = do {
     probe \<leftarrow> gets ss_pmtu_probe;
     inflight \<leftarrow> gets ss_pmtu_inflight;
     case probe of
       None \<Rightarrow> return ()
     | Some pm \<Rightarrow>
         if \<not> inflight then return ()
         else do {
           modify (\<lambda>s. s\<lparr>ss_pmtu_inflight := False\<rparr>);
           pmtu_advance E on_probe_loss pm
         }
   }"

text \<open>The branch of \<open>on_carrier_data\<close> that acknowledges a probe.\<close>

definition on_path_mtu_probe_response :: "session_env \<Rightarrow> unit session" where
  "on_path_mtu_probe_response E = do {
     modify (\<lambda>s. s\<lparr>ss_pmtu_inflight := False\<rparr>);
     bump PmtuTimer;
     probe \<leftarrow> gets ss_pmtu_probe;
     (case probe of None \<Rightarrow> return () | Some pm \<Rightarrow> pmtu_advance E on_probe_ack pm);
     modify (\<lambda>s. s\<lparr>ss_consent_missed := 0\<rparr>)
   }"

end
