(* ===== verification/Session_Gather.thy ===== *)
theory Session_Gather
  imports Session_Checks
begin

text \<open>
  Candidate gathering of \<open>src/session.cpp\<close>: host candidates, port mappings, STUN probes and their
  responses, the walk over the TURN servers, backup allocations and failover, and the resolution
  of remote mDNS candidates.
\<close>

section \<open>Host candidates\<close>

definition push_local :: "Candidate \<Rightarrow> unit session" where
  "push_local c = modify (\<lambda>s. s\<lparr>ss_local_candidates := ss_local_candidates s @ [c]\<rparr>)"

definition allowed_by_config :: "CandidateType \<Rightarrow> AddressFamily \<Rightarrow> Session \<Rightarrow> bool" where
  "allowed_by_config ty fam s = candidate_allowed ty fam (cf_candidate_filter_flags (ss_cfg s))"

text \<open>\<open>IN6_IS_ADDR_LINKLOCAL\<close>\<close>

definition is_linklocal6 :: "bytes \<Rightarrow> bool" where
  "is_linklocal6 a \<longleftrightarrow> a ! 0 = 0xFE \<and> a ! 1 AND 0xC0 = 0x80"

definition host_candidate :: "u16 \<Rightarrow> IfAddr \<Rightarrow> Candidate option" where
  "host_candidate port ifa =
     (let c = empty_candidate\<lparr>cand_type := Host, cand_port := port\<rparr>
      in case ifa_addr ifa of
           None \<Rightarrow> None
         | Some sa \<Rightarrow>
             if ifa_loopback ifa then None
             else if \<not> ifa_up ifa then None
             else case sa of
               SaInet a \<Rightarrow> Some (c\<lparr>cand_family := IPv4, cand_addr := overwrite a (cand_addr c),
                                 cand_priority := compute_priority Host 65535 1\<rparr>)
             | SaInet6 a \<Rightarrow>
                 if is_linklocal6 a then None
                 else Some (c\<lparr>cand_family := IPv6, cand_addr := overwrite a (cand_addr c),
                              cand_priority := compute_priority Host 65534 1\<rparr>)
             | SaOther \<Rightarrow> None)"

definition kTcpVariants :: "TransportType list" where
  "kTcpVariants = [TcpActive, TcpPassive, TcpSimultaneousOpen]"

definition gather_tcp_host_candidates :: "unit session" where
  "gather_tcp_host_candidates = do {
     enabled \<leftarrow> gets (\<lambda>s. cf_tcp_candidates_enabled (ss_cfg s) \<and> ss_carrier_tcp s \<and> ss_local_port s \<noteq> 0);
     whenM enabled (modify (\<lambda>s. s\<lparr>ss_local_candidates := ss_local_candidates s @
       concat (map (\<lambda>c. map (\<lambda>v. c\<lparr>cand_transport := v\<rparr>) kTcpVariants)
         (filter (\<lambda>c. cand_type c = Host \<and> cand_transport c = Udp) (ss_local_candidates s)))\<rparr>))
   }"

definition register_mdns_host :: "session_env \<Rightarrow> unit session" where
  "register_mdns_host E = do {
     n \<leftarrow> gets ss_uuid_count;
     let hostname = generate_uuid_v4 (se_uuid E n) @ ''.local'';
     modify (\<lambda>s. s\<lparr>ss_uuid_count := n + 1, ss_mdns_local_hostname := hostname\<rparr>);
     emit (MdnsRegister hostname);
     port \<leftarrow> gets ss_local_port;
     let c = empty_candidate\<lparr>cand_type := HostMdns, cand_family := IPv4, cand_port := port,
               cand_priority := compute_priority HostMdns 65535 1, cand_hostname := hostname\<rparr>;
     allowed \<leftarrow> gets (allowed_by_config Host IPv4);
     whenM allowed (push_local c)
   }"

definition gather_host_candidates :: "session_env \<Rightarrow> unit session" where
  "gather_host_candidates E = do {
     bind_carrier \<leftarrow> gets (\<lambda>s. ss_carrier s \<and> \<not> ss_carrier_initialized s);
     whenM bind_carrier (do {
       emit (Listen ''udp://0.0.0.0:0'');
       modify (\<lambda>s. s\<lparr>ss_local_port := se_listen_port E, ss_carrier_initialized := True\<rparr>)
     });
     port \<leftarrow> gets ss_local_port;
     obfuscate \<leftarrow> gets (\<lambda>s. cf_mdns_obfuscate_host_candidates (ss_cfg s) \<and> ss_mdns s);
     if port = 0 then return ()
     else if obfuscate then register_mdns_host E
     else case se_ifaddrs E of
       None \<Rightarrow> return ()
     | Some iflist \<Rightarrow> do {
         for_each (\<lambda>ifa.
           case host_candidate port ifa of
             None \<Rightarrow> return ()
           | Some c \<Rightarrow> do {
               allowed \<leftarrow> gets (allowed_by_config (cand_type c) (cand_family c));
               whenM allowed (push_local c)
             }) iflist;
         gather_tcp_host_candidates
       }
   }"

section \<open>Port mappings\<close>

definition gather_portmap :: "session_env \<Rightarrow> unit session" where
  "gather_portmap E = do {
     port \<leftarrow> gets ss_local_port;
     wanted \<leftarrow> gets (\<lambda>s. ss_portmap_ext s \<and> ss_local_port s \<noteq> 0 \<and>
       cf_candidate_filter_flags (ss_cfg s) AND kCandidateFilterHostOnly = 0 \<and>
       cf_candidate_filter_flags (ss_cfg s) AND kCandidateFilterRelayOnly = 0);
     if \<not> wanted \<or> \<not> se_portmap_supported E then return ()
     else case se_portmap_request E port of
       None \<Rightarrow> return ()
     | Some mapping \<Rightarrow>
         if pmm_ext_port mapping = 0 \<or> pmm_ext_ip mapping = [] then return ()
         else do {
           let c = set_address (se_inet E) (pmm_ext_ip mapping)
                     (empty_candidate\<lparr>cand_type := Srflx, cand_port := pmm_ext_port mapping\<rparr>);
           allowed \<leftarrow> gets (allowed_by_config (cand_type c) (cand_family c));
           if cand_family c \<noteq> IPv4 \<and> cand_family c \<noteq> IPv6 then return ()
           else if \<not> allowed then return ()
           else do {
             push_local (c\<lparr>cand_priority := compute_priority Srflx 65534 2,
               cand_foundation := compute_foundation Srflx (pmm_ext_ip mapping) ''portmap'' (cand_transport c)\<rparr>);
             modify (\<lambda>s. s\<lparr>ss_portmap_mapping := Some mapping\<rparr>)
           }
         }
   }"

definition release_portmap_mapping :: "unit session" where
  "release_portmap_mapping = do {
     ext \<leftarrow> gets ss_portmap_ext;
     mapping \<leftarrow> gets ss_portmap_mapping;
     if \<not> ext then return ()
     else case mapping of
       None \<Rightarrow> return ()
     | Some m \<Rightarrow> do {
         modify (\<lambda>s. s\<lparr>ss_portmap_mapping := None\<rparr>);
         emit (PortmapRelease (pmm_protocol m) (pmm_int_port m))
       }
   }"

section \<open>STUN probes\<close>

definition probe_server :: "session_env \<Rightarrow> string \<Rightarrow> unit session" where
  "probe_server E server =
     (case split_stun_host_port E server of
        None \<Rightarrow> return ()
      | Some (host, port) \<Rightarrow> do {
          cid \<leftarrow> ensure_remote_cid E host port;
          if cid = 0 then return ()
          else do {
            txn \<leftarrow> generate_txn_id E;
            modify (\<lambda>s. s\<lparr>ss_pending_stun_probes := ss_pending_stun_probes s @ [txn]\<rparr>);
            carrier \<leftarrow> gets ss_carrier;
            whenM carrier (emit (Send CarrierUdp cid (build (new_builder STUN_BINDING_REQUEST txn))))
          }
        })"

definition start_multi_stun_probes :: "session_env \<Rightarrow> unit session" where
  "start_multi_stun_probes E = do {
     modify (\<lambda>s. s\<lparr>ss_pending_stun_probes := []\<rparr>);
     servers \<leftarrow> gets (\<lambda>s. cf_stun_servers (ss_cfg s));
     for_each (probe_server E) servers;
     probes \<leftarrow> gets ss_pending_stun_probes;
     if probes = [] then on_gathering_complete E
     else do {
       timeout \<leftarrow> gets (\<lambda>s. cf_session_timeout_s (ss_cfg s));
       arm_timer GatherTimer (timeout * 1000)
     }
   }"

definition on_gather_timer :: "session_env \<Rightarrow> unit session" where
  "on_gather_timer E = do {
     modify (\<lambda>s. s\<lparr>ss_pending_stun_probes := []\<rparr>);
     on_gathering_complete E
   }"

definition probe_server_tcp :: "session_env \<Rightarrow> string \<Rightarrow> unit session" where
  "probe_server_tcp E server =
     (case split_stun_host_port E server of
        None \<Rightarrow> return ()
      | Some (host, port) \<Rightarrow> do {
          cid \<leftarrow> ensure_remote_tcp_cid E host port;
          if cid = 0 then return ()
          else do {
            txn \<leftarrow> generate_txn_id E;
            modify (\<lambda>s. s\<lparr>ss_pending_stun_probes := ss_pending_stun_probes s @ [txn]\<rparr>);
            emit (Send CarrierTcp cid (frame_tcp_stun (build (new_builder STUN_BINDING_REQUEST txn))))
          }
        })"

definition gather_tcp_server_reflexive :: "session_env \<Rightarrow> unit session" where
  "gather_tcp_server_reflexive E = do {
     enabled \<leftarrow> gets (\<lambda>s. cf_tcp_candidates_enabled (ss_cfg s) \<and> ss_carrier_tcp s);
     servers \<leftarrow> gets (\<lambda>s. cf_stun_servers (ss_cfg s));
     whenM enabled (for_each (probe_server_tcp E) servers)
   }"

text \<open>The candidate a mapped address stands for; the address comes from \<open>inet_ntop\<close>.\<close>

definition srflx_candidate :: "inet \<Rightarrow> MappedAddress \<Rightarrow> TransportType \<Rightarrow> Candidate" where
  "srflx_candidate I mapped src_transport =
     (let c = empty_candidate\<lparr>cand_type := Srflx, cand_priority := compute_priority Srflx 65535 1,
                cand_transport := (if transport_is_tcp src_transport then TcpActive else Udp),
                cand_port := ma_port mapped\<rparr>
      in case inet_pton4 I (c_str (ma_ip mapped)) of
           Some a \<Rightarrow> c\<lparr>cand_family := IPv4, cand_addr := overwrite a (cand_addr c)\<rparr>
         | None \<Rightarrow> c\<lparr>cand_family := IPv6, cand_addr :=
             (case inet_pton6 I (c_str (ma_ip mapped)) of Some a \<Rightarrow> overwrite a (cand_addr c) | None \<Rightarrow> cand_addr c)\<rparr>)"

definition detect_stride :: "u16 \<Rightarrow> unit session" where
  "detect_stride port = do {
     enabled \<leftarrow> gets (\<lambda>s. cf_symmetric_port_prediction_enabled (ss_cfg s));
     have_first \<leftarrow> gets ss_have_first_srflx_port;
     a \<leftarrow> gets ss_first_observed_srflx_port;
     current \<leftarrow> gets ss_symmetric_stride;
     whenM enabled
       (if \<not> have_first
        then modify (\<lambda>s. s\<lparr>ss_first_observed_srflx_port := port, ss_have_first_srflx_port := True\<rparr>)
        else whenM (port \<noteq> a \<and> current = 0)
          (do {
             let stride = (if a < port then port - a else a - port);
             whenM (stride > 0) (modify (\<lambda>s. s\<lparr>ss_symmetric_stride := stride\<rparr>))
           }))
   }"

definition handle_gather_response :: "session_env \<Rightarrow> StunMessage \<Rightarrow> TransportType \<Rightarrow> unit session" where
  "handle_gather_response E msg src_transport = do {
     probes \<leftarrow> gets ss_pending_stun_probes;
     if sm_txn_id msg \<notin> set probes then return ()
     else case sm_xor_mapped msg of
       None \<Rightarrow> return ()
     | Some mapped \<Rightarrow> do {
         modify (\<lambda>s. s\<lparr>ss_pending_stun_probes := remove1 (sm_txn_id msg) (ss_pending_stun_probes s)\<rparr>);
         let c = srflx_candidate (se_inet E) mapped src_transport;
         detect_stride (cand_port c);
         have_srflx \<leftarrow> gets (\<lambda>s. list_ex (\<lambda>e. cand_type e = Srflx \<and>
           transport_is_tcp (cand_transport e) = transport_is_tcp (cand_transport c)) (ss_local_candidates s));
         allowed \<leftarrow> gets (allowed_by_config (cand_type c) (cand_family c));
         whenM (\<not> have_srflx \<and> allowed) (push_local c);
         gathered \<leftarrow> gets ss_stun_gathered;
         turn_busy \<leftarrow> gets ss_turn_gathering;
         whenM (\<not> gathered) (do {
           bump GatherTimer;
           modify (\<lambda>s. s\<lparr>ss_stun_gathered := True\<rparr>);
           if \<not> turn_busy then on_gathering_complete E
           else arm_timer GatherFallbackTimer 500
         })
       }
   }"

section \<open>TURN allocations\<close>

definition build_turn_client :: "session_env \<Rightarrow> TurnConfig \<Rightarrow> TurnCallbacks \<Rightarrow> SessionTurn option session" where
  "build_turn_client E cfg callbacks = do {
     want_tls \<leftarrow> gets (\<lambda>s. tcf_tls_transport cfg \<and> ss_carrier_tls s);
     want_tcp \<leftarrow> gets (\<lambda>s. \<not> want_tls \<and> tcf_tcp_transport cfg \<and> ss_carrier_tcp s);
     udp \<leftarrow> gets ss_carrier;
     let kind = (if want_tls then CarrierTls else if want_tcp then CarrierTcp else CarrierUdp);
     if kind = CarrierUdp \<and> \<not> udp then return None
     else do {
       cid \<leftarrow> (if kind = CarrierUdp then ensure_remote_cid E (tcf_server cfg) (tcf_port cfg)
              else if want_tls
              then carrier_connect E CarrierTls (''tls://'' @ tcf_server cfg @ '':'' @ to_string (unat (tcf_port cfg)))
              else carrier_connect E CarrierTcp (endpoint_uri_tcp (tcf_server cfg) (tcf_port cfg)));
       if cid = 0 then return None
       else do {
         n \<leftarrow> gets ss_turn_count;
         modify (\<lambda>s. s\<lparr>ss_turn_count := n + 1\<rparr>);
         return (Some \<lparr>st_kind = kind, st_callbacks = callbacks, st_no = n,
                       st_client = new_turn_client True cid cfg True True\<rparr>)
       }
     }
   }"

definition turn_gather_done :: "session_env \<Rightarrow> unit session" where
  "turn_gather_done E = do {
     modify (\<lambda>s. s\<lparr>ss_turn_gathering := False\<rparr>);
     complete \<leftarrow> gets (\<lambda>s. ss_stun_gathered s \<or> cf_stun_servers (ss_cfg s) = []);
     whenM complete (do { bump GatherTimer; on_gathering_complete E })
   }"

definition skip_turn_attempt :: "unit session" where
  "skip_turn_attempt = do {
     modify (\<lambda>s. s\<lparr>ss_turn_attempt_idx := ss_turn_attempt_idx s + 1\<rparr>);
     emit (Post TaskTurnAttempt)
   }"

definition turn_deadline_s :: "Session \<Rightarrow> int" where
  "turn_deadline_s s =
     (if cf_turn_allocate_timeout_s (ss_cfg s) > 0 then cf_turn_allocate_timeout_s (ss_cfg s) else 5)"

definition try_next_turn_attempt :: "session_env \<Rightarrow> unit session" where
  "try_next_turn_attempt E = do {
     bump TurnAllocateTimer;
     on_turn E turn_close;
     modify (\<lambda>s. s\<lparr>ss_turn := None\<rparr>);
     idx \<leftarrow> gets ss_turn_attempt_idx;
     servers \<leftarrow> gets (\<lambda>s. cf_turn_servers (ss_cfg s));
     prefer_tcp \<leftarrow> gets (\<lambda>s. cf_prefer_turn_tcp (ss_cfg s));
     if idx \<ge> length servers then turn_gather_done E
     else do {
       let attempt = (servers ! idx)\<lparr>tcf_tcp_transport := tcf_tcp_transport (servers ! idx) \<or> prefer_tcp\<rparr>;
       if tcf_server attempt = [] then skip_turn_attempt
       else do {
         client \<leftarrow> build_turn_client E attempt PrimaryCallbacks;
         case client of
           None \<Rightarrow> skip_turn_attempt
         | Some t \<Rightarrow> do {
             modify (\<lambda>s. s\<lparr>ss_turn := Some t\<rparr>);
             on_turn E (\<lambda>T c. snd (allocate T c));
             timeout \<leftarrow> gets turn_deadline_s;
             arm_timer TurnAllocateTimer (timeout * 1000)
           }
       }
     }
   }"

definition on_turn_allocate_timer :: "session_env \<Rightarrow> unit session" where
  "on_turn_allocate_timer E = do {
     ready \<leftarrow> gets turn_ready;
     if ready then return ()
     else do {
       modify (\<lambda>s. s\<lparr>ss_turn_attempt_idx := ss_turn_attempt_idx s + 1\<rparr>);
       try_next_turn_attempt E
     }
   }"

text \<open>The task the allocation callback posts.\<close>

definition on_alloc :: "session_env \<Rightarrow> Candidate \<Rightarrow> unit session" where
  "on_alloc E c = do {
     bump TurnAllocateTimer;
     allowed \<leftarrow> gets (allowed_by_config (cand_type c) (cand_family c));
     if \<not> allowed then return ()
     else do {
       push_local c;
       remotes \<leftarrow> gets ss_remote_candidates;
       for_each (\<lambda>rc. on_turn E (\<lambda>T. create_permission T (address_str (se_inet E) rc))) remotes;
       modify (\<lambda>s. s\<lparr>ss_turn_backups := drop (ss_turn_attempt_idx s + 1) (cf_turn_servers (ss_cfg s))\<rparr>);
       probing \<leftarrow> gets (\<lambda>s. ss_turn_backups s \<noteq> [] \<and> cf_turn_backup_interval_s (ss_cfg s) > 0);
       interval \<leftarrow> gets (\<lambda>s. cf_turn_backup_interval_s (ss_cfg s));
       whenM probing (do {
         modify (\<lambda>s. s\<lparr>ss_turn_backup_probe_idx := 0\<rparr>);
         arm_timer TurnBackupTimer (interval * 1000)
       });
       turn_gather_done E;
       checking \<leftarrow> gets (\<lambda>s. ss_remote_candidates s \<noteq> [] \<and> ss_state s = Checking);
       whenM checking (do {
         rebuild_and_run E;
         signal \<leftarrow> gets (\<lambda>s. \<not> ss_controlling s \<and> ss_cb_gathered s);
         whenM signal emit_gathered
       })
     }
   }"

definition gather_relay :: "session_env \<Rightarrow> unit session" where
  "gather_relay E = do {
     host_only \<leftarrow> gets (\<lambda>s. cf_candidate_filter_flags (ss_cfg s) AND kCandidateFilterHostOnly \<noteq> 0);
     if host_only then return ()
     else do {
       fold_single \<leftarrow> gets (\<lambda>s. cf_turn_servers (ss_cfg s) = [] \<and> tcf_server (cf_turn (ss_cfg s)) \<noteq> []);
       whenM fold_single (modify (\<lambda>s. s\<lparr>ss_cfg := (ss_cfg s)\<lparr>cf_turn_servers := [cf_turn (ss_cfg s)]\<rparr>\<rparr>));
       servers \<leftarrow> gets (\<lambda>s. cf_turn_servers (ss_cfg s));
       if servers = [] then return ()
       else do {
         modify (\<lambda>s. s\<lparr>ss_turn_gathering := True, ss_turn_attempt_idx := 0\<rparr>);
         try_next_turn_attempt E
       }
     }
   }"

section \<open>Backup allocations\<close>

definition close_backup_probe :: "session_env \<Rightarrow> unit session" where
  "close_backup_probe E = do {
     on_backup E turn_close;
     modify (\<lambda>s. s\<lparr>ss_turn_backup_probe := None\<rparr>)
   }"

definition on_turn_backup_tick :: "session_env \<Rightarrow> unit session" where
  "on_turn_backup_tick E = do {
     backups \<leftarrow> gets ss_turn_backups;
     interval \<leftarrow> gets (\<lambda>s. cf_turn_backup_interval_s (ss_cfg s));
     st \<leftarrow> gets ss_state;
     if backups = [] \<or> interval \<le> 0 then return ()
     else if st = Failed then return ()
     else do {
       close_backup_probe E;
       modify (\<lambda>s. s\<lparr>ss_turn_backup_probe_idx :=
         (if ss_turn_backup_probe_idx s \<ge> length backups then 0 else ss_turn_backup_probe_idx s)\<rparr>);
       idx \<leftarrow> gets ss_turn_backup_probe_idx;
       modify (\<lambda>s. s\<lparr>ss_turn_backup_probe_idx := idx + 1\<rparr>);
       arm_timer TurnBackupTimer (interval * 1000);
       client \<leftarrow> build_turn_client E (backups ! idx) (BackupCallbacks (backups ! idx));
       modify (\<lambda>s. s\<lparr>ss_turn_backup_probe := client\<rparr>);
       on_backup E (\<lambda>T c. snd (allocate T c))
     }
   }"

definition promote_turn_backup :: "session_env \<Rightarrow> SessionTurn \<Rightarrow> TurnConfig \<Rightarrow> unit session" where
  "promote_turn_backup E client new_cfg = do {
     modify (\<lambda>s. s\<lparr>ss_turn_last_failover := Some (ss_now s)\<rparr>);
     on_turn E turn_close;
     modify (\<lambda>s. s\<lparr>ss_local_candidates := filter (\<lambda>c. cand_type c \<noteq> Relay) (ss_local_candidates s),
       ss_turn := Some client, ss_cfg := (ss_cfg s)\<lparr>cf_turn := new_cfg\<rparr>\<rparr>);
     let relay = tc_relayed (st_client client);
     let c = relay_candidate E (ma_ip relay) (ma_port relay);
     allowed \<leftarrow> gets (allowed_by_config (cand_type c) (cand_family c));
     whenM allowed (push_local c);
     st \<leftarrow> gets ss_state;
     remotes \<leftarrow> gets ss_remote_candidates;
     if remotes \<noteq> [] \<and> st = Checking then rebuild_and_run E
     else whenM (st = Connected) (do {
       modify (\<lambda>s. s\<lparr>ss_state := Checking\<rparr>);
       rebuild_and_run E
     })
   }"

definition failover_allowed :: "Session \<Rightarrow> bool" where
  "failover_allowed s \<longleftrightarrow>
     (case ss_turn_last_failover s of
        None \<Rightarrow> True
      | Some t \<Rightarrow> uint (ss_now s - t) div 1000000 \<ge> cf_turn_failover_min_interval_s (ss_cfg s))"

text \<open>The task the allocation callback of a backup posts.\<close>

definition on_backup_alloc :: "session_env \<Rightarrow> TurnConfig \<Rightarrow> unit session" where
  "on_backup_alloc E probe_cfg = do {
     probe \<leftarrow> gets ss_turn_backup_probe;
     healthy \<leftarrow> gets (\<lambda>s. case ss_turn s of None \<Rightarrow> False | Some t \<Rightarrow> is_healthy (st_client t));
     interval_ok \<leftarrow> gets failover_allowed;
     case probe of
       None \<Rightarrow> return ()
     | Some client \<Rightarrow>
         if healthy \<or> \<not> interval_ok then close_backup_probe E
         else do {
           modify (\<lambda>s. s\<lparr>ss_turn_backup_probe := None\<rparr>);
           promote_turn_backup E client probe_cfg
         }
   }"

section \<open>Remote mDNS candidates\<close>

definition mdns_queue :: "Candidate list \<Rightarrow> (nat \<times> string) list" where
  "mdns_queue cs = map (\<lambda>(i, c). (i, cand_hostname c))
     (filter (\<lambda>(i, c). cand_type c = HostMdns \<and> cand_hostname c \<noteq> [] \<and> is_mdns_local_name (cand_hostname c))
       (enumerate 0 cs))"

definition resolve_remote_mdns_candidates :: "unit session" where
  "resolve_remote_mdns_candidates = do {
     mdns \<leftarrow> gets ss_mdns;
     queue \<leftarrow> gets (\<lambda>s. mdns_queue (ss_remote_candidates s));
     ms \<leftarrow> gets (\<lambda>s. cf_mdns_resolve_timeout_ms (ss_cfg s));
     let timeout = (if ms > 0 then ms else 5000);
     whenM mdns (for_each (\<lambda>(idx, hostname). emit (MdnsResolve idx hostname timeout)) queue)
   }"

definition extra_host :: "inet \<Rightarrow> u16 \<Rightarrow> string \<Rightarrow> Candidate" where
  "extra_host I port ip = set_address I ip (empty_candidate\<lparr>cand_type := Host, cand_port := port,
     cand_priority := compute_priority Host 65535 1\<rparr>)"

text \<open>The slot and the extra candidates after a successful resolution.\<close>

definition resolved_slot :: "inet \<Rightarrow> MdnsResolveResult \<Rightarrow> Candidate \<Rightarrow> Candidate" where
  "resolved_slot I r slot =
     (let slot = slot\<lparr>cand_type := Host, cand_hostname := []\<rparr>;
          ip = (if mr_ipv4 r \<noteq> [] \<and> hd (mr_ipv4 r) \<noteq> [] then hd (mr_ipv4 r)
                else if mr_ipv6 r \<noteq> [] then hd (mr_ipv6 r) else [])
      in (set_address I ip slot)\<lparr>cand_priority := compute_priority Host 65535 1\<rparr>)"

definition resolved_extras :: "inet \<Rightarrow> MdnsResolveResult \<Rightarrow> u16 \<Rightarrow> Candidate list" where
  "resolved_extras I r port =
     map (extra_host I port) (drop 1 (mr_ipv4 r)) @
     map (extra_host I port)
       (if mr_ipv4 r = [] \<or> hd (mr_ipv4 r) = [] then drop 1 (mr_ipv6 r) else mr_ipv6 r)"

definition on_mdns_resolved :: "session_env \<Rightarrow> nat \<Rightarrow> string \<Rightarrow> MdnsResolveResult \<Rightarrow> unit session" where
  "on_mdns_resolved E idx hostname r = do {
     st \<leftarrow> gets ss_state;
     remotes \<leftarrow> gets ss_remote_candidates;
     let slot = remotes ! idx;
     if st = Failed then return ()
     else if idx \<ge> length remotes then return ()
     else if cand_type slot \<noteq> HostMdns then return ()
     else if cand_hostname slot \<noteq> hostname then return ()
     else if \<not> mr_resolved r \<or> (mr_ipv4 r = [] \<and> mr_ipv6 r = [])
     then modify (\<lambda>s. s\<lparr>ss_remote_candidates := remotes[idx := slot\<lparr>cand_hostname := [], cand_type := Host\<rparr>]\<rparr>)
     else do {
       let slot' = resolved_slot (se_inet E) r slot;
       modify (\<lambda>s. s\<lparr>ss_remote_candidates := remotes[idx := slot']
         @ resolved_extras (se_inet E) r (cand_port slot')\<rparr>);
       have_local \<leftarrow> gets (\<lambda>s. ss_local_candidates s \<noteq> []);
       if st = WaitingRemote \<or> st = Gathering then whenM have_local (enter_checking E)
       else whenM (st = Checking) (rebuild_and_run E)
     }
   }"

section \<open>gather\<close>

definition gather :: "session_env \<Rightarrow> unit session" where
  "gather E = do {
     modify (\<lambda>s. s\<lparr>ss_state := Gathering\<rparr>);
     gather_host_candidates E;
     gather_portmap E;
     gather_relay E;
     no_stun \<leftarrow> gets (\<lambda>s. cf_stun_servers (ss_cfg s) = []);
     turn_busy \<leftarrow> gets ss_turn_gathering;
     if no_stun then whenM (\<not> turn_busy) (on_gathering_complete E)
     else emit (Post TaskStartProbes)
   }"

definition run_start_probes :: "session_env \<Rightarrow> unit session" where
  "run_start_probes E = do {
     start_multi_stun_probes E;
     gather_tcp_server_reflexive E
   }"

end
