(* ===== verification/Mdns_Response.thy ===== *)
theory Mdns_Response
  imports Mdns_Codec
begin

text \<open>
  Responses of \<open>src/mdns.cpp\<close> are understood: what \<open>encode_dns_response\<close> writes for a well-formed name
  parses back to one answer per address. The scanner of dotted quads inverts their printing.
\<close>

section \<open>Dotted quads\<close>

lemma digit_is_digit: "d < 10 \<Longrightarrow> is_digit (digit_char d)"
  by (simp add: is_digit_def of_digit_char)

lemma to_string_is_digits: "\<forall>c \<in> set (to_string n). is_digit c"
  using to_string_digits digit_is_digit by blast

lemma decimal_value_snoc: "decimal_value (s @ [c]) = 10 * decimal_value s + (of_char c - 48)"
  by (simp add: decimal_value_def)

lemma decimal_value_to_string: "decimal_value (to_string n) = n"
proof (induction n rule: to_string.induct)
  case (1 n)
  show ?case
  proof (cases "n < 10")
    case True
    then show ?thesis by (simp add: to_string.simps [of n] decimal_value_def of_digit_char)
  next
    case False
    then have "decimal_value (to_string n) = 10 * (n div 10) + n mod 10"
      using 1 by (simp add: to_string.simps [of n] decimal_value_snoc of_digit_char)
    then show ?thesis by simp
  qed
qed

lemma digit_not_special: "is_digit c \<Longrightarrow> \<not> is_space c \<and> c \<noteq> CHR ''-'' \<and> c \<noteq> CHR ''+''"
  by (auto simp: is_digit_def is_space_def)

lemma scan_hhu_to_string:
  assumes "n < 256" and "rest = [] \<or> \<not> is_digit (hd rest)"
  shows "scan_hhu (to_string n @ rest) = Some (word_of_nat n, rest)"
proof -
  obtain c cs where t: "to_string n = c # cs" by (cases "to_string n") auto
  then have c: "is_digit c" using to_string_is_digits [of n] by simp
  have sp: "dropWhile is_space (to_string n @ rest) = to_string n @ rest"
    using t digit_not_special [OF c] by simp
  have digits: "takeWhile is_digit (to_string n @ rest) = to_string n"
    "dropWhile is_digit (to_string n @ rest) = rest"
    using to_string_is_digits [of n] assms(2)
    by (cases rest; simp add: takeWhile_append dropWhile_append takeWhile_eq_all_conv)+
  have "min n (2 ^ 64 - 1) = n" using assms(1) by simp
  moreover have "hd (to_string n @ rest) \<noteq> CHR ''-''" "hd (to_string n @ rest) \<noteq> CHR ''+''"
    using t digit_not_special [OF c] by simp_all
  ultimately show ?thesis
    unfolding scan_hhu_def Let_def sp by (simp add: digits decimal_value_to_string)
qed

lemma dot_not_digit [simp]: "\<not> is_digit (CHR ''.'')"
  by (simp add: is_digit_def)

lemma scan_dot_cons [simp]: "scan_dot (CHR ''.'' # s) = Some s"
  by (simp add: scan_dot_def)

lemma octet_lt: "unat (b :: byte) < 256"
  using unsigned_less [of b, where ?'a = nat] by simp

lemma scan_octet:
  "scan_hhu (to_string (unat (b :: byte)) @ CHR ''.'' # rest) = Some (b, CHR ''.'' # rest)"
  "scan_hhu (to_string (unat b)) = Some (b, [])"
  using scan_hhu_to_string [OF octet_lt, of "CHR ''.'' # rest" b] scan_hhu_to_string [OF octet_lt, of "[]" b]
  by simp_all

lemma scan_dotted_quad_inverse:
  assumes "length b = 4"
  shows "scan_dotted_quad (dotted_quad b) = Some b"
proof -
  obtain w x y z where "b = [w, x, y, z]"
    using assms by (auto simp: numeral_eq_Suc length_Suc_conv)
  then show ?thesis by (simp add: scan_dotted_quad_def dotted_quad_def scan_octet)
qed

lemma digit_nonzero: "is_digit c \<Longrightarrow> c \<noteq> CHR 0x00"
  by (auto simp: is_digit_def)

lemma c_str_dotted_quad [simp]: "c_str (dotted_quad b) = dotted_quad b"
proof (rule c_str_id)
  have "CHR 0x00 \<notin> set (to_string n)" for n using to_string_is_digits digit_nonzero by blast
  then show "CHR 0x00 \<notin> set (dotted_quad b)" by (simp add: dotted_quad_def)
qed

lemma dotted_quad_not_Nil [simp]: "dotted_quad b \<noteq> []"
  by (simp add: dotted_quad_def)

section \<open>Records\<close>

definition record_octets :: "string list \<Rightarrow> u16 \<times> bytes \<Rightarrow> bytes" where
  "record_octets ls r = label_octets ls @ [0] @ write16 (fst r) @ write16 0x8001 @ write32 DNS_TTL_SECONDS
     @ write16 (word_of_nat (length (snd r))) @ snd r"

definition name_ok :: "string list \<Rightarrow> bool" where
  "name_ok ls \<longleftrightarrow> labels_ok ls \<and> length (label_octets ls) \<le> 255"

lemma emit_answer_octets:
  "name_ok ls \<Longrightarrow> emit_answer (dotted ls) ty rdata out = out @ record_octets ls (ty, rdata)"
  using encode_labels [of ls 0 out]
  by (simp add: emit_answer_def encode_name_def record_octets_def name_ok_def)

lemma emit_ipv4_octets:
  assumes "name_ok ls" and "list_all (\<lambda>b. length b = 4) bs"
  shows "fold (emit_ipv4 (dotted ls)) (map dotted_quad bs) out =
    out @ concat (map (\<lambda>b. record_octets ls (DNS_TYPE_A, b)) bs)"
  using assms(2)
  by (induction bs arbitrary: out)
    (simp_all add: emit_ipv4_def scan_dotted_quad_inverse emit_answer_octets assms(1))

lemma emit_ipv6_octets:
  assumes "name_ok ls" and "inet_ok I" and "list_all (\<lambda>b. length b = 16) bs"
  shows "fold (emit_ipv6 I (dotted ls)) (map (inet_ntop6 I) bs) out =
    out @ concat (map (\<lambda>b. record_octets ls (DNS_TYPE_AAAA, b)) bs)"
  using assms(3)
  by (induction bs arbitrary: out)
    (simp_all add: emit_ipv6_def emit_answer_octets assms(1) inet_okD(4,7) [OF assms(2)])

lemma parse_record:
  assumes "name_ok ls" and "length rdata < 2 ^ 16"
  shows "parse_answers I (Suc n) (pre @ record_octets ls (ty, rdata) @ post) (length pre) out =
    parse_answers I n (pre @ record_octets ls (ty, rdata) @ post)
      (length (pre @ record_octets ls (ty, rdata)))
      (out\<lparr>dns_answers := dns_answers out @ answer_of I (to_lower (dotted ls)) DNS_CLASS_IN ty rdata\<rparr>)"
proof -
  let ?len = "word_of_nat (length rdata) :: u16"
  let ?name = "label_octets ls @ [0]"
  let ?data = "pre @ record_octets ls (ty, rdata) @ post"
  let ?off = "length pre + length (label_octets ls) + 1"
  have len: "unat ?len = length rdata" using assms(2) by (simp add: unat_of_nat)
  have name: "decode_name ?data (length pre) = accept (to_lower (dotted ls), ?off)"
    using decode_labels [of ls 0 pre "write16 ty @ write16 0x8001 @ write32 DNS_TTL_SECONDS @ write16 ?len @ rdata @ post"
        0 0 "[]"] assms(1)
    by (simp add: decode_name_def lower_dotted record_octets_def name_ok_def)
  have "read16 ((pre @ ?name) @ write16 ty @ x) ?off = Some ty" for x
    by (rule c16.dec_at) simp
  then have r1: "read16 ?data ?off = Some ty" by (simp add: record_octets_def)
  have "read16 ((pre @ ?name @ write16 ty) @ write16 0x8001 @ x) (?off + 2) = Some 0x8001" for x
    by (rule c16.dec_at) simp
  then have r2: "read16 ?data (?off + 2) = Some 0x8001" by (simp add: record_octets_def)
  have "read32 ((pre @ ?name @ write16 ty @ write16 0x8001) @ write32 DNS_TTL_SECONDS @ x) (?off + 4) =
      Some DNS_TTL_SECONDS" for x
    by (rule c32.dec_at) simp
  then have r3: "read32 ?data (?off + 4) = Some DNS_TTL_SECONDS" by (simp add: record_octets_def)
  have "read16 ((pre @ ?name @ write16 ty @ write16 0x8001 @ write32 DNS_TTL_SECONDS) @ write16 ?len @ x)
      (?off + 8) = Some ?len" for x
    by (rule c16.dec_at) simp
  then have r4: "read16 ?data (?off + 8) = Some ?len" by (simp add: record_octets_def)
  have "rd ((pre @ ?name @ write16 ty @ write16 0x8001 @ write32 DNS_TTL_SECONDS @ write16 ?len) @ rdata @ post)
      (?off + 10) (length rdata) = Some rdata"
    by (rule rd_append_mid) simp_all
  then have r5: "rd ?data (?off + 10) (length rdata) = Some rdata" by (simp add: record_octets_def)
  have bound: "?off + 10 + length rdata \<le> length ?data"
    "length (pre @ record_octets ls (ty, rdata)) = ?off + 10 + length rdata"
    by (simp_all add: record_octets_def)
  show ?thesis
    using name r1 r2 r3 r4 r5 bound len by (simp add: DNS_CLASS_IN_def ac_simps)
qed

lemma parse_records:
  assumes "name_ok ls" and "list_all (\<lambda>r. length (snd r) < 2 ^ 16) rs"
  shows "parse_answers I (length rs) (pre @ concat (map (record_octets ls) rs)) (length pre) out =
    accept (out\<lparr>dns_answers := dns_answers out @
      concat (map (\<lambda>r. answer_of I (to_lower (dotted ls)) DNS_CLASS_IN (fst r) (snd r)) rs)\<rparr>)"
  using assms(2)
proof (induction rs arbitrary: pre out)
  case (Cons r rs)
  show ?case
    using Cons parse_record [OF assms(1), of "snd r" I "length rs" pre "fst r" "concat (map (record_octets ls) rs)" out]
      Cons.IH [of "pre @ record_octets ls r"]
    by simp
qed simp

lemma header_fields:
  "read16 (dns_header t f q a @ x) 0 = Some t" "read16 (dns_header t f q a @ x) 2 = Some f"
  "read16 (dns_header t f q a @ x) 4 = Some q" "read16 (dns_header t f q a @ x) 6 = Some a"
  "length (dns_header t f q a) = 12"
proof -
  have "read16 (write16 t @ y) 0 = Some t" for y by simp
  then show "read16 (dns_header t f q a @ x) 0 = Some t" by (simp add: dns_header_def)
  have "read16 (write16 t @ write16 f @ y) 2 = Some f" for y by (rule c16.dec_at) simp
  then show "read16 (dns_header t f q a @ x) 2 = Some f" by (simp add: dns_header_def)
  have "read16 ((write16 t @ write16 f) @ write16 q @ y) 4 = Some q" for y by (rule c16.dec_at) simp
  then show "read16 (dns_header t f q a @ x) 4 = Some q" by (simp add: dns_header_def)
  have "read16 ((write16 t @ write16 f @ write16 q) @ write16 a @ y) 6 = Some a" for y
    by (rule c16.dec_at) simp
  then show "read16 (dns_header t f q a @ x) 6 = Some a" by (simp add: dns_header_def)
qed (simp add: dns_header_def)

definition quad_answer :: "string \<Rightarrow> bytes \<Rightarrow> DnsAnswer" where
  "quad_answer name b = \<lparr>ans_name = name, ans_ipv4 = dotted_quad b, ans_ipv6 = []\<rparr>"

definition ipv6_answer :: "inet \<Rightarrow> string \<Rightarrow> bytes \<Rightarrow> DnsAnswer" where
  "ipv6_answer I name b = \<lparr>ans_name = name, ans_ipv4 = [], ans_ipv6 = inet_ntop6 I b\<rparr>"

lemma encode_query_length:
  "name_ok ls \<Longrightarrow> length (encode_dns_query (dotted ls) txn aaaa) = length (label_octets ls) + 17"
  using encode_labels [of ls 0 "dns_header txn 0 1 0"]
  by (simp add: encode_dns_query_def encode_name_def name_ok_def dns_header_def)

lemma encode_response_octets:
  assumes "name_ok ls" and "inet_ok I"
    and "list_all (\<lambda>b. length b = 4) v4" and "list_all (\<lambda>b. length b = 16) v6"
  shows "encode_dns_response I (dotted ls) txn (map dotted_quad v4) (map (inet_ntop6 I) v6) =
    dns_header txn 0x8400 0 (word_of_nat (length v4 + length v6)) @
    concat (map (record_octets ls) (map (\<lambda>b. (DNS_TYPE_A, b)) v4 @ map (\<lambda>b. (DNS_TYPE_AAAA, b)) v6))"
  by (simp add: encode_dns_response_def emit_ipv4_octets [OF assms(1,3)] emit_ipv6_octets [OF assms(1,2,4)] comp_def)

lemma encode_response_length:
  assumes "name_ok ls" and "inet_ok I" and "list_all (\<lambda>b. length b = 4) v4"
  shows "length (encode_dns_response I (dotted ls) txn (map dotted_quad v4) []) =
    12 + length v4 * (length (label_octets ls) + 15)"
proof -
  have "length (concat (map (record_octets ls) (map (\<lambda>b. (DNS_TYPE_A, b)) v4))) = length v4 * (length (label_octets ls) + 15)"
    using assms(3) by (induction v4) (simp_all add: record_octets_def)
  with encode_response_octets [OF assms, of "[]" txn] show ?thesis by (simp add: dns_header_def)
qed

lemma parse_response:
  assumes name: "name_ok ls" and I: "inet_ok I"
    and v4: "list_all (\<lambda>b. length b = 4) v4" and v6: "list_all (\<lambda>b. length b = 16) v6"
    and n: "length v4 + length v6 < 2 ^ 16"
  shows "parse_dns_message I (encode_dns_response I (dotted ls) txn (map dotted_quad v4) (map (inet_ntop6 I) v6)) =
    accept \<lparr>dns_is_response = True, dns_txn_id = txn, dns_question = [], dns_qtype = 0,
      dns_answers = map (quad_answer (to_lower (dotted ls))) v4 @ map (ipv6_answer I (to_lower (dotted ls))) v6\<rparr>"
proof -
  let ?rs = "map (\<lambda>b. (DNS_TYPE_A, b)) v4 @ map (\<lambda>b. (DNS_TYPE_AAAA, b)) v6"
  define k where "k = length v4 + length v6"
  let ?n = "word_of_nat k :: u16"
  let ?hdr = "dns_header txn 0x8400 0 ?n"
  have enc: "encode_dns_response I (dotted ls) txn (map dotted_quad v4) (map (inet_ntop6 I) v6) =
      ?hdr @ concat (map (record_octets ls) ?rs)"
    using encode_response_octets [OF assms(1-4)] by (simp add: k_def)
  have cnt: "unat ?n = length ?rs" using n by (simp add: k_def unat_of_nat del: of_nat_add)
  have ans: "concat (map (\<lambda>r. answer_of I h DNS_CLASS_IN (fst r) (snd r)) ?rs) =
      map (quad_answer h) v4 @ map (ipv6_answer I h) v6" for h
  proof -
    have "concat (map (\<lambda>b. answer_of I h DNS_CLASS_IN DNS_TYPE_A b) v4) = map (quad_answer h) v4"
      using v4 by (induction v4) (simp_all add: answer_of_def quad_answer_def)
    moreover have "concat (map (\<lambda>b. answer_of I h DNS_CLASS_IN DNS_TYPE_AAAA b) v6) = map (ipv6_answer I h) v6"
      using v6 by (induction v6) (simp_all add: answer_of_def ipv6_answer_def dns_consts)
    ultimately show ?thesis by (simp add: comp_def)
  qed
  have rs: "list_all (\<lambda>r. length (snd r) < 2 ^ 16) ?rs"
    using v4 v6 by (auto simp: list_all_iff)
  have resp: "((0x8400 :: u16) AND 0x8000) \<noteq> 0" by simp
  note records = parse_records [OF name rs, of I ?hdr, unfolded header_fields(5) ans]
  show ?thesis
    unfolding enc parse_dns_message_def
    using records cnt resp by (simp add: header_fields DNS_HEADER_SIZE_def)
qed

end
