(* ===== verification/Mdns_Manager.thy ===== *)
theory Mdns_Manager
  imports Session_Gather Mdns_Response "HOL-Library.AList"
begin

text \<open>
  \<open>MdnsManager\<close> of \<open>src/mdns.cpp\<close>: the multicast responder for registered names and the resolver with
  its table of pending queries. The manager runs on one strand, so every method is one step; the
  outcome of the socket calls, \<open>getifaddrs\<close>, the random transaction id and the iteration order of
  \<open>std::unordered_map\<close> are arguments (\<open>mdns_env\<close>). A pending query is a shared object: the table
  \<open>mm_pending\<close> holds indices into \<open>mm_queries\<close>, and the timer handler keeps its own index. The
  type variable stands for the callback a caller hands to \<open>resolve\<close>.
\<close>

section \<open>State\<close>

definition kMdnsIPv4MulticastAddr :: string where "kMdnsIPv4MulticastAddr = ''224.0.0.251''"
definition kMdnsIPv6MulticastAddr :: string where "kMdnsIPv6MulticastAddr = ''ff02::fb''"
definition kMdnsPort :: u16 where "kMdnsPort = 5353"

record 'c PendingQuery =
  pq_hostname_lc :: string
  pq_cb :: "'c option"
  pq_accumulated :: MdnsResolveResult
  pq_timeout :: int
  pq_txn_id :: u16
  pq_fired :: bool

record NameRecord =
  nr_ipv4 :: "string list"
  nr_ipv6 :: "string list"

record MdnsIfAddr = IfAddr +
  ifa_name :: "string option"

record mdns_env =
  me_inet :: inet
  me_ifaddrs :: "MdnsIfAddr list option"
  me_open4 :: bool
  me_bind4 :: bool
  me_open6 :: bool
  me_bind6 :: bool
  me_if_index :: "string \<Rightarrow> u32"
  me_join6 :: "u32 \<Rightarrow> bool"
  me_txn :: u16
  me_order :: "string list \<Rightarrow> string list"

text \<open>An endpoint: is it IPv6, address, port.\<close>

type_synonym mdns_endpoint = "bool \<times> string \<times> u16"

text \<open>
  Effects: a callback, a datagram on the IPv4 or IPv6 socket, timers, a receive that is started,
  group membership and the closing of the sockets.
\<close>

datatype 'c MdnsEffect =
    MdnsResolved 'c MdnsResolveResult
  | MdnsSend mdns_endpoint bytes
  | MdnsArm nat int
  | MdnsCancel nat
  | MdnsReceive bool
  | MdnsJoin4
  | MdnsJoin6 u32
  | MdnsCloseSockets

record 'c MdnsManager =
  mm_running :: bool
  mm_stopping :: bool
  mm_v4_open :: bool
  mm_v6_open :: bool
  mm_names :: "string \<rightharpoonup> NameRecord"
  mm_queries :: "'c PendingQuery list"
  mm_pending :: "(string \<times> nat list) list"
  mm_local_v4 :: "string list"
  mm_local_v6 :: "string list"
  mm_local_v6_ifnames :: "string list"
  mm_log :: "'c MdnsEffect list"

type_synonym ('c, 'a) mdns = "('c MdnsManager, 'a) state"

definition new_mdns_manager :: "'c MdnsManager" where
  "new_mdns_manager = \<lparr>mm_running = False, mm_stopping = False, mm_v4_open = False, mm_v6_open = False,
     mm_names = Map.empty, mm_queries = [], mm_pending = [], mm_local_v4 = [], mm_local_v6 = [],
     mm_local_v6_ifnames = [], mm_log = []\<rparr>"

definition mdns_emit :: "'c MdnsEffect \<Rightarrow> ('c, unit) mdns" where
  "mdns_emit e = modify (\<lambda>m. m\<lparr>mm_log := mm_log m @ [e]\<rparr>)"

section \<open>Start and stop\<close>

text \<open>One entry of the list: the IPv4 address, or the IPv6 address and the interface name.\<close>

definition local_address :: "inet \<Rightarrow> MdnsIfAddr \<Rightarrow> string list \<times> (string \<times> string) list" where
  "local_address I ifa =
     (case ifa_addr ifa of
        None \<Rightarrow> ([], [])
      | Some sa \<Rightarrow>
          if ifa_loopback ifa then ([], [])
          else if \<not> ifa_up ifa then ([], [])
          else case sa of
            SaInet a \<Rightarrow> ([inet_ntop4 I a], [])
          | SaInet6 a \<Rightarrow>
              if is_linklocal6 a then ([], [])
              else ([], [(inet_ntop6 I a, case ifa_name ifa of None \<Rightarrow> [] | Some n \<Rightarrow> n)])
          | SaOther \<Rightarrow> ([], []))"

definition enumerate_local_addresses :: "mdns_env \<Rightarrow> string list \<times> string list \<times> string list" where
  "enumerate_local_addresses E =
     (case me_ifaddrs E of
        None \<Rightarrow> ([], [], [])
      | Some ifas \<Rightarrow>
          let found = map (local_address (me_inet E)) ifas; v6 = concat (map snd found)
          in (concat (map fst found), map fst v6, map snd v6))"

definition async_receive :: "bool \<Rightarrow> ('c, unit) mdns" where
  "async_receive v6 = do {
     stopping \<leftarrow> gets mm_stopping;
     opened \<leftarrow> gets (if v6 then mm_v6_open else mm_v4_open);
     whenM (\<not> stopping \<and> opened) (mdns_emit (MdnsReceive v6))
   }"

definition start_v4 :: "mdns_env \<Rightarrow> ('c, unit) mdns" where
  "start_v4 E = whenM (me_open4 E \<and> me_bind4 E) (do {
     mdns_emit MdnsJoin4;
     modify (\<lambda>m. m\<lparr>mm_v4_open := True\<rparr>)
   })"

definition join_indices :: "mdns_env \<Rightarrow> string list \<Rightarrow> u32 list" where
  "join_indices E ifnames =
     (let idx = filter (\<lambda>i. i \<noteq> 0) (map (me_if_index E) (filter (\<lambda>n. n \<noteq> []) ifnames))
      in idx @ (if list_ex (me_join6 E) idx then [] else [0]))"

definition start_v6 :: "mdns_env \<Rightarrow> ('c, unit) mdns" where
  "start_v6 E = whenM (me_open6 E \<and> me_bind6 E) (do {
     ifnames \<leftarrow> gets mm_local_v6_ifnames;
     for_each (\<lambda>i. mdns_emit (MdnsJoin6 i)) (join_indices E ifnames);
     modify (\<lambda>m. m\<lparr>mm_v6_open := True\<rparr>)
   })"

definition mdns_start :: "mdns_env \<Rightarrow> ('c, bool) mdns" where
  "mdns_start E = do {
     running \<leftarrow> gets mm_running;
     modify (\<lambda>m. m\<lparr>mm_running := True\<rparr>);
     if running then return True
     else do {
       let (v4, v6, v6_ifnames) = enumerate_local_addresses E;
       modify (\<lambda>m. m\<lparr>mm_local_v4 := v4, mm_local_v6 := v6, mm_local_v6_ifnames := v6_ifnames\<rparr>);
       start_v4 E;
       start_v6 E;
       v4_open \<leftarrow> gets mm_v4_open;
       v6_open \<leftarrow> gets mm_v6_open;
       if \<not> v4_open \<and> \<not> v6_open
       then do {
         modify (\<lambda>m. m\<lparr>mm_running := False\<rparr>);
         return False
       }
       else do {
         whenM v4_open (async_receive False);
         whenM v6_open (async_receive True);
         return True
       }
     }
   }"

definition run_callback :: "nat \<Rightarrow> ('c, unit) mdns" where
  "run_callback i = do {
     q \<leftarrow> gets (\<lambda>m. mm_queries m ! i);
     case pq_cb q of None \<Rightarrow> return () | Some cb \<Rightarrow> mdns_emit (MdnsResolved cb (pq_accumulated q))
   }"

text \<open>\<open>fired.exchange(true)\<close>: the old value.\<close>

definition exchange_fired :: "nat \<Rightarrow> ('c, bool) mdns" where
  "exchange_fired i = do {
     old \<leftarrow> gets (\<lambda>m. pq_fired (mm_queries m ! i));
     modify (\<lambda>m. m\<lparr>mm_queries := (mm_queries m)[i := (mm_queries m ! i)\<lparr>pq_fired := True\<rparr>]\<rparr>);
     return old
   }"

definition pending_of :: "'c MdnsManager \<Rightarrow> string \<Rightarrow> nat list" where
  "pending_of m name = (case map_of (mm_pending m) name of None \<Rightarrow> [] | Some ids \<Rightarrow> ids)"

definition stop_query :: "nat \<Rightarrow> ('c, unit) mdns" where
  "stop_query i = do {
     mdns_emit (MdnsCancel i);
     fired \<leftarrow> exchange_fired i;
     whenM (\<not> fired) (run_callback i)
   }"

definition stop_name :: "string \<Rightarrow> ('c, unit) mdns" where
  "stop_name name = do { ids \<leftarrow> gets (\<lambda>m. pending_of m name); for_each stop_query ids }"

definition mdns_stop :: "mdns_env \<Rightarrow> ('c, unit) mdns" where
  "mdns_stop E = do {
     running \<leftarrow> gets mm_running;
     modify (\<lambda>m. m\<lparr>mm_running := False\<rparr>);
     whenM running (do {
       modify (\<lambda>m. m\<lparr>mm_stopping := True\<rparr>);
       mdns_emit MdnsCloseSockets;
       names \<leftarrow> gets (\<lambda>m. me_order E (map fst (mm_pending m)));
       for_each stop_name names;
       modify (\<lambda>m. m\<lparr>mm_pending := []\<rparr>)
     })
   }"

definition mdns_destroy :: "('c, unit) mdns" where
  "mdns_destroy = do {
     modify (\<lambda>m. m\<lparr>mm_running := False, mm_stopping := True\<rparr>);
     mdns_emit MdnsCloseSockets
   }"

section \<open>Names and queries\<close>

definition register_name :: "string \<Rightarrow> ('c, unit) mdns" where
  "register_name hostname = modify (\<lambda>m. m\<lparr>mm_names := (mm_names m)(to_lower hostname \<mapsto>
     \<lparr>nr_ipv4 = mm_local_v4 m, nr_ipv6 = mm_local_v6 m\<rparr>)\<rparr>)"

definition unregister_name :: "string \<Rightarrow> ('c, unit) mdns" where
  "unregister_name hostname = modify (\<lambda>m. m\<lparr>mm_names := (mm_names m)(to_lower hostname := None)\<rparr>)"

definition send_query :: "string \<Rightarrow> u16 \<Rightarrow> ('c, unit) mdns" where
  "send_query hostname_lc txn_id = do {
     stopping \<leftarrow> gets mm_stopping;
     v4_open \<leftarrow> gets mm_v4_open;
     v6_open \<leftarrow> gets mm_v6_open;
     let pkts = filter (\<lambda>p. p \<noteq> []) [encode_dns_query hostname_lc txn_id False, encode_dns_query hostname_lc txn_id True];
     if stopping then return ()
     else do {
       whenM v4_open (for_each (\<lambda>p. mdns_emit (MdnsSend (False, kMdnsIPv4MulticastAddr, kMdnsPort) p)) pkts);
       whenM v6_open (for_each (\<lambda>p. mdns_emit (MdnsSend (True, kMdnsIPv6MulticastAddr, kMdnsPort) p)) pkts)
     }
   }"

definition resolve :: "mdns_env \<Rightarrow> string \<Rightarrow> int \<Rightarrow> 'c option \<Rightarrow> ('c, unit) mdns" where
  "resolve E hostname timeout cb = do {
     let name_lc = to_lower hostname;
     own \<leftarrow> gets (\<lambda>m. mm_names m name_lc);
     case own of
       Some rec \<Rightarrow>
         (case cb of
            None \<Rightarrow> return ()
          | Some c \<Rightarrow> mdns_emit (MdnsResolved c \<lparr>mr_ipv4 = nr_ipv4 rec, mr_ipv6 = nr_ipv6 rec, mr_resolved = True\<rparr>))
     | None \<Rightarrow> do {
         i \<leftarrow> gets (\<lambda>m. length (mm_queries m));
         modify (\<lambda>m. m\<lparr>mm_queries := mm_queries m @ [\<lparr>pq_hostname_lc = name_lc, pq_cb = cb,
             pq_accumulated = \<lparr>mr_ipv4 = [], mr_ipv6 = [], mr_resolved = False\<rparr>, pq_timeout = timeout,
             pq_txn_id = me_txn E, pq_fired = False\<rparr>],
           mm_pending := AList.update name_lc (pending_of m name_lc @ [i]) (mm_pending m)\<rparr>);
         send_query name_lc (me_txn E);
         mdns_emit (MdnsArm i timeout)
       }
   }"

text \<open>\<open>resolve_sync\<close> waits for the callback; \<open>promise\<close> stands for the promise it fulfils.\<close>

definition resolve_sync :: "mdns_env \<Rightarrow> string \<Rightarrow> int \<Rightarrow> 'c \<Rightarrow> ('c, unit) mdns" where
  "resolve_sync E hostname timeout promise = resolve E hostname timeout (Some promise)"

definition remove_pending :: "string \<Rightarrow> nat \<Rightarrow> ('c, unit) mdns" where
  "remove_pending name i = modify (\<lambda>m.
     let ids = filter (\<lambda>j. j \<noteq> i) (pending_of m name)
     in m\<lparr>mm_pending := (if ids = [] then AList.delete name (mm_pending m)
                        else AList.update name ids (mm_pending m))\<rparr>)"

text \<open>The timer handler of query \<open>i\<close>, run without an error code.\<close>

definition on_query_timeout :: "nat \<Rightarrow> ('c, unit) mdns" where
  "on_query_timeout i = do {
     fired \<leftarrow> exchange_fired i;
     if fired then return ()
     else do {
       name \<leftarrow> gets (\<lambda>m. pq_hostname_lc (mm_queries m ! i));
       known \<leftarrow> gets (\<lambda>m. map_of (mm_pending m) name \<noteq> None);
       whenM known (remove_pending name i);
       run_callback i
     }
   }"

section \<open>Packets\<close>

definition send_answer :: "mdns_env \<Rightarrow> string \<Rightarrow> NameRecord \<Rightarrow> u16 \<Rightarrow> u16 \<Rightarrow> mdns_endpoint \<Rightarrow> ('c, unit) mdns" where
  "send_answer E hostname rec txn_id qtype dst = do {
     stopping \<leftarrow> gets mm_stopping;
     v4_open \<leftarrow> gets mm_v4_open;
     v6_open \<leftarrow> gets mm_v6_open;
     let v4_out = (if qtype = DNS_TYPE_AAAA then [] else nr_ipv4 rec);
     let v6_out = (if qtype = DNS_TYPE_A then [] else nr_ipv6 rec);
     let pkt = encode_dns_response (me_inet E) hostname txn_id v4_out v6_out;
     if stopping then return ()
     else if v4_out = [] \<and> v6_out = [] then return ()
     else if pkt = [] then return ()
     else if fst dst \<and> v6_open
     then do {
       mdns_emit (MdnsSend (True, kMdnsIPv6MulticastAddr, kMdnsPort) pkt);
       mdns_emit (MdnsSend dst pkt)
     }
     else whenM v4_open (do {
       mdns_emit (MdnsSend (False, kMdnsIPv4MulticastAddr, kMdnsPort) pkt);
       mdns_emit (MdnsSend dst pkt)
     })
   }"

definition accumulate :: "DnsAnswer \<Rightarrow> MdnsResolveResult \<Rightarrow> MdnsResolveResult" where
  "accumulate ans r =
     (let r = (if ans_ipv4 ans \<noteq> [] \<and> ans_ipv4 ans \<notin> set (mr_ipv4 r)
               then r\<lparr>mr_ipv4 := mr_ipv4 r @ [ans_ipv4 ans], mr_resolved := True\<rparr> else r)
      in if ans_ipv6 ans \<noteq> [] \<and> ans_ipv6 ans \<notin> set (mr_ipv6 r)
         then r\<lparr>mr_ipv6 := mr_ipv6 r @ [ans_ipv6 ans], mr_resolved := True\<rparr> else r)"

definition collect_answer :: "DnsAnswer \<Rightarrow> ('c, unit) mdns" where
  "collect_answer ans = modify (\<lambda>m. m\<lparr>mm_queries :=
     fold (\<lambda>i qs. qs[i := (qs ! i)\<lparr>pq_accumulated := accumulate ans (pq_accumulated (qs ! i))\<rparr>])
       (pending_of m (ans_name ans)) (mm_queries m)\<rparr>)"

definition fire_query :: "string \<Rightarrow> nat \<Rightarrow> ('c, unit) mdns" where
  "fire_query name i = do {
     resolved \<leftarrow> gets (\<lambda>m. mr_resolved (pq_accumulated (mm_queries m ! i)));
     whenM resolved (do {
       fired \<leftarrow> exchange_fired i;
       whenM (\<not> fired) (do {
         mdns_emit (MdnsCancel i);
         run_callback i;
         remove_pending name i
       })
     })
   }"

definition fire_answered :: "string \<Rightarrow> ('c, unit) mdns" where
  "fire_answered name = do {
     ids \<leftarrow> gets (\<lambda>m. pending_of m name);
     for_each (fire_query name) ids
   }"

definition on_packet :: "mdns_env \<Rightarrow> bytes \<Rightarrow> mdns_endpoint \<Rightarrow> ('c, unit) mdns" where
  "on_packet E data src =
     (case parse_dns_message (me_inet E) data of
        Some (Some msg) \<Rightarrow>
          if \<not> dns_is_response msg
          then do {
            rec \<leftarrow> gets (\<lambda>m. mm_names m (dns_question msg));
            if dns_question msg = [] then return ()
            else case rec of
              None \<Rightarrow> return ()
            | Some r \<Rightarrow> send_answer E (dns_question msg) r (dns_txn_id msg) (dns_qtype msg) src
          }
          else do {
            for_each collect_answer (dns_answers msg);
            names \<leftarrow> gets (\<lambda>m. me_order E (map fst (mm_pending m)));
            for_each fire_answered names
          }
      | _ \<Rightarrow> return ())"

text \<open>
  The completion handler of a receive. A datagram that is longer than \<open>rx_buf_v4_\<close> or \<open>rx_buf_v6_\<close> is cut off
  at the end of the buffer.
\<close>

definition rx_buf_size :: nat where "rx_buf_size = 2048"

definition on_receive :: "mdns_env \<Rightarrow> bool \<Rightarrow> bytes \<Rightarrow> mdns_endpoint \<Rightarrow> ('c, unit) mdns" where
  "on_receive E v6 data src = do {
     stopping \<leftarrow> gets mm_stopping;
     whenM (\<not> stopping) (do {
       let received = take rx_buf_size data;
       whenM (received \<noteq> []) (on_packet E received src);
       async_receive v6
     })
   }"

section \<open>Events\<close>

datatype 'c MdnsEvent =
    MdnsStart
  | MdnsStop
  | MdnsRegisterName string
  | MdnsUnregisterName string
  | MdnsResolveName string int "'c option"
  | MdnsTimeout nat
  | MdnsDatagram bool bytes mdns_endpoint

definition mdns_handle :: "mdns_env \<Rightarrow> 'c MdnsEvent \<Rightarrow> ('c, unit) mdns" where
  "mdns_handle E e =
     (case e of
        MdnsStart \<Rightarrow> do { mdns_start E; return () }
      | MdnsStop \<Rightarrow> mdns_stop E
      | MdnsRegisterName name \<Rightarrow> register_name name
      | MdnsUnregisterName name \<Rightarrow> unregister_name name
      | MdnsResolveName name timeout cb \<Rightarrow> resolve E name timeout cb
      | MdnsTimeout i \<Rightarrow> do {
          n \<leftarrow> gets (\<lambda>m. length (mm_queries m));
          whenM (i < n) (on_query_timeout i)
        }
      | MdnsDatagram v6 data src \<Rightarrow> on_receive E v6 data src)"

definition mdns_step :: "mdns_env \<times> 'c MdnsEvent \<Rightarrow> 'c MdnsManager \<Rightarrow> 'c MdnsManager \<times> 'c MdnsEffect list" where
  "mdns_step e m =
     (let m' = exec (mdns_handle (fst e) (snd e)) (m\<lparr>mm_log := []\<rparr>) in (m', mm_log m'))"

section \<open>Running the steps\<close>

lemma run_mdns_emit [simp]: "run_state (mdns_emit e) m = ((), m\<lparr>mm_log := mm_log m @ [e]\<rparr>)"
  by (simp add: mdns_emit_def)

lemma run_exchange_fired [simp]: "run_state (exchange_fired i) m = (pq_fired (mm_queries m ! i),
    m\<lparr>mm_queries := (mm_queries m)[i := (mm_queries m ! i)\<lparr>pq_fired := True\<rparr>]\<rparr>)"
  by (simp add: exchange_fired_def)

definition callback_effects :: "'c PendingQuery \<Rightarrow> 'c MdnsEffect list" where
  "callback_effects q = (case pq_cb q of None \<Rightarrow> [] | Some cb \<Rightarrow> [MdnsResolved cb (pq_accumulated q)])"

lemma run_run_callback [simp]:
  "run_state (run_callback i) m = ((), m\<lparr>mm_log := mm_log m @ callback_effects (mm_queries m ! i)\<rparr>)"
  by (auto simp: run_callback_def callback_effects_def split: option.splits)

lemma run_emits: "run_state (for_each (\<lambda>x. mdns_emit (f x)) xs) m = ((), m\<lparr>mm_log := mm_log m @ map f xs\<rparr>)"
  by (induction xs arbitrary: m) (simp_all)

text \<open>A loop whose every iteration establishes its part and keeps the parts of the others.\<close>

lemma for_each_establishes:
  assumes "\<And>x m. I m \<Longrightarrow> x \<in> set xs \<Longrightarrow> I (exec (f x) m) \<and> P x (exec (f x) m)"
    and "\<And>x y m. I m \<Longrightarrow> P y m \<Longrightarrow> x \<in> set xs \<Longrightarrow> y \<in> set xs \<Longrightarrow> P y (exec (f x) m)"
    and "I m"
  shows "I (exec (for_each f xs) m) \<and> (\<forall>x \<in> set xs. P x (exec (for_each f xs) m))"
proof -
  have "I (exec (for_each f ys) m) \<and> (\<forall>x \<in> set xs. x \<in> set ys \<or> P x m \<longrightarrow> P x (exec (for_each f ys) m))"
    if "set ys \<subseteq> set xs" "I m" for ys m
    using that
  proof (induction ys arbitrary: m)
    case (Cons y ys)
    let ?m = "exec (f y) m"
    have "I ?m" "P y ?m" using assms(1) Cons.prems by auto
    moreover have "\<forall>x \<in> set xs. P x m \<longrightarrow> P x ?m" using assms(2) Cons.prems by auto
    ultimately show ?case using Cons.IH [of ?m] Cons.prems(1) by (auto simp: split_beta)
  qed simp
  from this [OF subset_refl \<open>I m\<close>] show ?thesis by blast
qed

section \<open>The table of pending queries\<close>

text \<open>The table lists exactly the queries that have not fired, each under its own name.\<close>

definition pending_ok :: "'c MdnsManager \<Rightarrow> bool" where
  "pending_ok m \<longleftrightarrow> distinct (map fst (mm_pending m)) \<and>
     (\<forall>name. distinct (pending_of m name)) \<and>
     (\<forall>name ids. map_of (mm_pending m) name = Some ids \<longrightarrow> ids \<noteq> []) \<and>
     (\<forall>name i. i \<in> set (pending_of m name) \<longleftrightarrow>
        i < length (mm_queries m) \<and> \<not> pq_fired (mm_queries m ! i) \<and> pq_hostname_lc (mm_queries m ! i) = name)"

lemma pending_of_key: "i \<in> set (pending_of m name) \<Longrightarrow> name \<in> fst ` set (mm_pending m)"
  by (cases "map_of (mm_pending m) name") (force simp: pending_of_def dest: map_of_SomeD)+

lemma pending_okI:
  assumes "distinct (map fst (mm_pending m))" and "\<And>name. distinct (pending_of m name)"
    and "\<And>name. map_of (mm_pending m) name \<noteq> Some []"
    and "\<And>name i. i \<in> set (pending_of m name) \<longleftrightarrow>
      i < length (mm_queries m) \<and> \<not> pq_fired (mm_queries m ! i) \<and> pq_hostname_lc (mm_queries m ! i) = name"
  shows "pending_ok m"
  unfolding pending_ok_def using assms by blast

lemma pending_okD:
  assumes "pending_ok m"
  shows "distinct (map fst (mm_pending m))" and "distinct (pending_of m name)"
    and "map_of (mm_pending m) name \<noteq> Some []"
    and "i \<in> set (pending_of m name) \<longleftrightarrow>
      i < length (mm_queries m) \<and> \<not> pq_fired (mm_queries m ! i) \<and> pq_hostname_lc (mm_queries m ! i) = name"
  using assms unfolding pending_ok_def by blast+

text \<open>What no step but \<open>resolve\<close> changes of the query objects.\<close>

definition query_ids :: "'c MdnsManager \<Rightarrow> (string \<times> 'c option) list" where
  "query_ids m = map (\<lambda>q. (pq_hostname_lc q, pq_cb q)) (mm_queries m)"

lemma query_ids_length: "query_ids a = query_ids b \<Longrightarrow> length (mm_queries a) = length (mm_queries b)"
  by (metis query_ids_def length_map)

lemma query_ids_nth:
  "query_ids a = query_ids b \<Longrightarrow> i < length (mm_queries a) \<Longrightarrow>
   pq_hostname_lc (mm_queries a ! i) = pq_hostname_lc (mm_queries b ! i) \<and>
   pq_cb (mm_queries a ! i) = pq_cb (mm_queries b ! i)"
  by (frule query_ids_length, drule arg_cong [of _ _ "\<lambda>xs. xs ! i"]) (simp add: query_ids_def)

lemma query_ids_update [simp]:
  "map (\<lambda>q. (pq_hostname_lc q, pq_cb q)) (qs[i := (qs ! i)\<lparr>pq_fired := b\<rparr>]) =
     map (\<lambda>q. (pq_hostname_lc q, pq_cb q)) qs"
  "map (\<lambda>q. (pq_hostname_lc q, pq_cb q)) (qs[i := (qs ! i)\<lparr>pq_accumulated := r\<rparr>]) =
     map (\<lambda>q. (pq_hostname_lc q, pq_cb q)) qs"
  by (rule nth_equalityI; cases "i < length qs"; force simp: nth_list_update)+

lemma pending_of_update [simp]:
  "pending_of (m\<lparr>mm_log := l\<rparr>) = pending_of m" "pending_of (m\<lparr>mm_queries := q\<rparr>) = pending_of m"
  "pending_of (m\<lparr>mm_names := n\<rparr>) = pending_of m" "pending_of (m\<lparr>mm_running := r\<rparr>) = pending_of m"
  "pending_of (m\<lparr>mm_stopping := r\<rparr>) = pending_of m" "pending_of (m\<lparr>mm_pending := []\<rparr>) = (\<lambda>_. [])"
  by (simp_all add: pending_of_def fun_eq_iff)

lemma pending_ok_view:
  "mm_pending b = mm_pending a \<Longrightarrow> map (\<lambda>q. (pq_hostname_lc q, pq_fired q)) (mm_queries b) =
     map (\<lambda>q. (pq_hostname_lc q, pq_fired q)) (mm_queries a) \<Longrightarrow> pending_ok a \<Longrightarrow> pending_ok b"
proof -
  assume p: "mm_pending b = mm_pending a"
    and q: "map (\<lambda>q. (pq_hostname_lc q, pq_fired q)) (mm_queries b) =
     map (\<lambda>q. (pq_hostname_lc q, pq_fired q)) (mm_queries a)"
  have l: "length (mm_queries b) = length (mm_queries a)" using q by (metis length_map)
  have nth: "pq_hostname_lc (mm_queries b ! i) = pq_hostname_lc (mm_queries a ! i) \<and>
      pq_fired (mm_queries b ! i) = pq_fired (mm_queries a ! i)" if "i < length (mm_queries a)" for i
    using arg_cong [OF q, of "\<lambda>xs. xs ! i"] l that by simp
  have member: "(i < length (mm_queries b) \<and> \<not> pq_fired (mm_queries b ! i) \<and> pq_hostname_lc (mm_queries b ! i) = k) =
      (i < length (mm_queries a) \<and> \<not> pq_fired (mm_queries a ! i) \<and> pq_hostname_lc (mm_queries a ! i) = k)" for i k
    using nth [of i] l by metis
  have "pending_of b = pending_of a" using p by (simp add: pending_of_def fun_eq_iff)
  then show "pending_ok a \<Longrightarrow> pending_ok b" unfolding pending_ok_def member p by simp
qed

lemma remove_pending_simps [simp]:
  "mm_queries (exec (remove_pending name i) m) = mm_queries m"
  "mm_log (exec (remove_pending name i) m) = mm_log m"
  "mm_names (exec (remove_pending name i) m) = mm_names m"
  by (simp_all add: remove_pending_def Let_def)

lemma pending_of_remove:
  "pending_of (exec (remove_pending name i) m) k =
     (if k = name then filter (\<lambda>j. j \<noteq> i) (pending_of m name) else pending_of m k)"
  by (auto simp: remove_pending_def pending_of_def Let_def update_conv' delete_conv')

lemma remove_fired_ok:
  assumes "pending_ok m" and "i < length (mm_queries m)" and "pq_hostname_lc (mm_queries m ! i) = name"
  shows "pending_ok (exec (remove_pending name i)
    (m\<lparr>mm_queries := (mm_queries m)[i := (mm_queries m ! i)\<lparr>pq_fired := True\<rparr>], mm_log := l\<rparr>))"
proof -
  let ?m = "m\<lparr>mm_queries := (mm_queries m)[i := (mm_queries m ! i)\<lparr>pq_fired := True\<rparr>], mm_log := l\<rparr>"
  let ?n = "exec (remove_pending name i) ?m"
  have pend: "pending_of ?n k = (if k = name then filter (\<lambda>j. j \<noteq> i) (pending_of m name) else pending_of m k)" for k
    by (simp add: pending_of_remove)
  note ok = pending_okD [OF assms(1)]
  show ?thesis
  proof (rule pending_okI)
    show "distinct (map fst (mm_pending ?n))"
      using ok(1) by (simp add: remove_pending_def Let_def distinct_update distinct_delete)
    show "distinct (pending_of ?n k)" for k
      unfolding pend using ok(2) by simp
    show "map_of (mm_pending ?n) k \<noteq> Some []" for k
      using ok(3) [of k] by (simp add: remove_pending_def Let_def update_conv' delete_conv')
    show "j \<in> set (pending_of ?n k) \<longleftrightarrow> j < length (mm_queries ?n) \<and> \<not> pq_fired (mm_queries ?n ! j) \<and>
        pq_hostname_lc (mm_queries ?n ! j) = k" for j k
      unfolding pend using assms(2,3) ok(4) [of j k] by (auto simp: nth_list_update)
  qed
qed

section \<open>Every callback runs once\<close>

definition callbacks :: "'c \<Rightarrow> 'c MdnsEffect list \<Rightarrow> nat" where
  "callbacks c es = length (filter (\<lambda>e. case e of MdnsResolved c' r \<Rightarrow> c' = c | _ \<Rightarrow> False) es)"

definition outstanding :: "'c \<Rightarrow> 'c MdnsManager \<Rightarrow> nat" where
  "outstanding c m = length (filter (\<lambda>q. \<not> pq_fired q \<and> pq_cb q = Some c) (mm_queries m))"

definition account :: "'c \<Rightarrow> 'c MdnsManager \<Rightarrow> nat" where
  "account c m = callbacks c (mm_log m) + outstanding c m"

lemma callbacks_simps [simp]:
  "callbacks c [] = 0" "callbacks c (xs @ ys) = callbacks c xs + callbacks c ys"
  "callbacks c (MdnsResolved c' r # xs) = (if c' = c then 1 else 0) + callbacks c xs"
  "callbacks c (MdnsSend d p # xs) = callbacks c xs" "callbacks c (MdnsArm i t # xs) = callbacks c xs"
  "callbacks c (MdnsCancel i # xs) = callbacks c xs" "callbacks c (MdnsReceive b # xs) = callbacks c xs"
  "callbacks c (MdnsJoin4 # xs) = callbacks c xs" "callbacks c (MdnsJoin6 j # xs) = callbacks c xs"
  "callbacks c (MdnsCloseSockets # xs) = callbacks c xs"
  by (simp_all add: callbacks_def)

lemma callbacks_sends [simp]: "callbacks c (map (\<lambda>p. MdnsSend d p) xs) = 0"
  "callbacks c (map MdnsJoin6 js) = 0"
  by (simp_all add: callbacks_def filter_map comp_def)

lemma callbacks_effects: "callbacks c (callback_effects q) = (if pq_cb q = Some c then 1 else 0)"
  by (auto simp: callback_effects_def split: option.splits)

lemma outstanding_fire:
  assumes "i < length qs" and "\<not> pq_fired (qs ! i)"
  shows "length (filter (\<lambda>q. \<not> pq_fired q \<and> pq_cb q = Some c) qs) =
    length (filter (\<lambda>q. \<not> pq_fired q \<and> pq_cb q = Some c) (qs[i := (qs ! i)\<lparr>pq_fired := True\<rparr>])) +
    (if pq_cb (qs ! i) = Some c then 1 else 0)"
proof -
  obtain xs y zs where "qs = xs @ y # zs" "i = length xs"
    using assms(1) by (metis id_take_nth_drop length_take less_imp_le min.absorb4 min.commute)
  then show ?thesis using assms(2) by simp
qed

lemma fired_again:
  assumes "pq_fired (qs ! i)"
  shows "qs[i := (qs ! i)\<lparr>pq_fired := True\<rparr>] = qs"
proof -
  have "(qs ! i)\<lparr>pq_fired := True\<rparr> = qs ! i" using assms by (cases "qs ! i") simp
  then show ?thesis by simp
qed

text \<open>Steps that settle queries: the table stays exact and nobody is forgotten or called twice.\<close>

definition settles :: "'c MdnsManager \<Rightarrow> 'c MdnsManager \<Rightarrow> bool" where
  "settles a b \<longleftrightarrow> (pending_ok a \<longrightarrow> pending_ok b) \<and> query_ids b = query_ids a \<and> (\<forall>c. account c b = account c a)"

interpretation settle: step_order settles
  by unfold_locales (auto simp: settles_def)

lemma settle_emit: "(\<And>c. callbacks c [e] = 0) \<Longrightarrow> effect settles (mdns_emit e) m"
  by (auto simp: effect_def settles_def account_def outstanding_def query_ids_def pending_ok_def)

lemma settle_frame:
  "mm_queries (f m) = mm_queries m \<Longrightarrow> mm_pending (f m) = mm_pending m \<Longrightarrow> mm_log (f m) = mm_log m \<Longrightarrow>
   effect settles (modify f) m"
  using pending_ok_view [of "f m" m]
  by (simp add: effect_def settles_def account_def outstanding_def query_ids_def)

lemma run_fire_query: "exec (fire_query name i) m =
   (let q = mm_queries m ! i in
    if mr_resolved (pq_accumulated q) \<and> \<not> pq_fired q
    then exec (remove_pending name i) (m\<lparr>mm_queries := (mm_queries m)[i := q\<lparr>pq_fired := True\<rparr>],
      mm_log := mm_log m @ [MdnsCancel i] @ callback_effects (((mm_queries m)[i := q\<lparr>pq_fired := True\<rparr>]) ! i)\<rparr>)
    else m)"
  by (auto simp: fire_query_def Let_def split_beta fired_again)

lemma callback_effects_fired [simp]: "callback_effects (q\<lparr>pq_fired := b\<rparr>) = callback_effects q"
  by (simp add: callback_effects_def split: option.splits)

text \<open>The indices a loop over the table visits belong to the name it looks up.\<close>

definition queries_of :: "string \<Rightarrow> nat list \<Rightarrow> 'c MdnsManager \<Rightarrow> bool" where
  "queries_of name ids m \<longleftrightarrow> (\<forall>i \<in> set ids. i < length (mm_queries m) \<and> pq_hostname_lc (mm_queries m ! i) = name)"

lemma queries_of_settles: "settles a b \<Longrightarrow> queries_of name ids a \<Longrightarrow> queries_of name ids b"
proof -
  assume "settles a b" "queries_of name ids a"
  then have "query_ids b = query_ids a" by (simp add: settles_def)
  from query_ids_length [OF this] query_ids_nth [OF this] \<open>queries_of name ids a\<close>
  show ?thesis by (simp add: queries_of_def)
qed

lemma queries_of_pending: "pending_ok m \<Longrightarrow> queries_of name (pending_of m name) m"
  using pending_okD(4) by (auto simp: queries_of_def)

lemma settle_fire:
  assumes "i < length (mm_queries m)" and "pq_hostname_lc (mm_queries m ! i) = name"
    and "\<not> pq_fired (mm_queries m ! i)"
    and "\<And>c. callbacks c xs = 0" and "\<And>c. callbacks c ys = 0"
  shows "settles m (exec (remove_pending name i) (m\<lparr>mm_queries := (mm_queries m)[i := (mm_queries m ! i)\<lparr>pq_fired := True\<rparr>],
    mm_log := mm_log m @ xs @ callback_effects (mm_queries m ! i) @ ys\<rparr>))"
  using remove_fired_ok [OF _ assms(1,2)] outstanding_fire [OF assms(1,3)]
  by (simp add: settles_def query_ids_def account_def outstanding_def assms(4,5) callbacks_effects)

lemma settle_fire_query:
  "i < length (mm_queries m) \<Longrightarrow> pq_hostname_lc (mm_queries m ! i) = name \<Longrightarrow> settles m (exec (fire_query name i) m)"
  using settle_fire [of i m name "[MdnsCancel i]" "[]"]
  by (auto simp: run_fire_query Let_def settle.refl)

lemma settle_fire_queries: "queries_of name ids m \<Longrightarrow> settles m (exec (for_each (fire_query name) ids) m)"
proof (induction ids arbitrary: m)
  case (Cons i ids)
  have s: "settles m (exec (fire_query name i) m)"
    using Cons.prems by (simp add: queries_of_def settle_fire_query)
  have "queries_of name ids m" using Cons.prems by (simp add: queries_of_def)
  with s have "queries_of name ids (exec (fire_query name i) m)" by (rule queries_of_settles)
  from settle.trans [OF s Cons.IH [OF this]] show ?case by (simp add: split_beta)
qed (simp add: settle.refl)

lemma settle_fire_answered: "pending_ok m \<Longrightarrow> settles m (exec (fire_answered name) m)"
  by (simp add: fire_answered_def settle_fire_queries queries_of_pending)

lemma settle_all_answered: "pending_ok m \<Longrightarrow> settles m (exec (for_each fire_answered names) m)"
proof (induction names arbitrary: m)
  case (Cons name names)
  from settle_fire_answered [OF Cons.prems]
  have s: "settles m (exec (fire_answered name) m)" .
  then have "pending_ok (exec (fire_answered name) m)" using Cons.prems by (simp add: settles_def)
  from settle.trans [OF s Cons.IH [OF this]] show ?case by (simp add: split_beta)
qed (simp add: settle.refl)

lemma settle_timeout:
  assumes "pending_ok m" and "i < length (mm_queries m)"
  shows "settles m (exec (on_query_timeout i) m)"
proof (cases "pq_fired (mm_queries m ! i)")
  case True
  then show ?thesis by (simp add: on_query_timeout_def fired_again settle.refl)
next
  case False
  let ?name = "pq_hostname_lc (mm_queries m ! i)"
  have "i \<in> set (pending_of m ?name)" using pending_okD(4) [OF assms(1)] assms(2) False by simp
  then have known: "map_of (mm_pending m) ?name \<noteq> None"
    by (cases "map_of (mm_pending m) ?name") (simp_all add: pending_of_def)
  have "exec (on_query_timeout i) m = exec (remove_pending ?name i)
      (m\<lparr>mm_queries := (mm_queries m)[i := (mm_queries m ! i)\<lparr>pq_fired := True\<rparr>],
         mm_log := mm_log m @ [] @ callback_effects (mm_queries m ! i) @ []\<rparr>)"
    using False known assms(2)
    by (simp add: on_query_timeout_def split_beta remove_pending_def Let_def pending_of_def)
  then show ?thesis using settle_fire [OF assms(2) refl False, of "[]" "[]"] by simp
qed

lemma collect_view:
  "map (\<lambda>q. (pq_hostname_lc q, pq_cb q, pq_fired q)) (fold (\<lambda>i qs. qs[i := (qs ! i)\<lparr>pq_accumulated :=
      accumulate ans (pq_accumulated (qs ! i))\<rparr>]) ids qs) = map (\<lambda>q. (pq_hostname_lc q, pq_cb q, pq_fired q)) qs"
proof (induction ids arbitrary: qs)
  case (Cons i ids)
  have "map (\<lambda>q. (pq_hostname_lc q, pq_cb q, pq_fired q)) (qs[i := (qs ! i)\<lparr>pq_accumulated := r\<rparr>]) =
      map (\<lambda>q. (pq_hostname_lc q, pq_cb q, pq_fired q)) qs" for r
    by (rule nth_equalityI; cases "i < length qs") (auto simp: nth_list_update)
  then show ?case by (simp add: Cons.IH)
qed simp

lemma settle_view:
  assumes "mm_pending b = mm_pending a" and "mm_log b = mm_log a"
    and v: "map (\<lambda>q. (pq_hostname_lc q, pq_cb q, pq_fired q)) (mm_queries b) =
      map (\<lambda>q. (pq_hostname_lc q, pq_cb q, pq_fired q)) (mm_queries a)"
  shows "settles a b"
proof -
  have "map (\<lambda>q. (pq_hostname_lc q, pq_fired q)) (mm_queries b) = map (\<lambda>q. (pq_hostname_lc q, pq_fired q)) (mm_queries a)"
    "query_ids b = query_ids a"
    using arg_cong [OF v, of "map (\<lambda>(h, c, f). (h, f))"] arg_cong [OF v, of "map (\<lambda>(h, c, f). (h, c))"]
    by (simp_all add: comp_def query_ids_def)
  moreover have "outstanding c b = outstanding c a" for c
    using arg_cong [OF v, of "\<lambda>xs. length (filter (\<lambda>(h, cb, f). \<not> f \<and> cb = Some c) xs)"]
    by (simp add: outstanding_def filter_map comp_def)
  ultimately show ?thesis
    using pending_ok_view [OF assms(1)] assms(2) by (simp add: settles_def account_def)
qed

lemma settle_collect: "effect settles (for_each collect_answer answers) m"
  by (intro settle.rules)
    (auto simp: effect_def collect_answer_def collect_view intro: settle_view)

lemma settle_receive: "effect settles (async_receive v6) m"
  unfolding async_receive_def by (intro settle.rules settle_emit) simp

lemma settle_send_answer: "effect settles (send_answer E hostname rec txn qtype dst) m"
  unfolding send_answer_def Let_def by (intro settle.rules settle_emit) simp_all

lemma settle_packet: "pending_ok m \<Longrightarrow> settles m (exec (on_packet E data src) m)"
proof (cases "parse_dns_message (me_inet E) data")
  case (Some r)
  assume ok: "pending_ok m"
  show ?thesis
  proof (cases r)
    case (Some msg)
    let ?m = "exec (for_each collect_answer (dns_answers msg)) m"
    have c: "settles m ?m" by (rule effectD [OF settle_collect])
    with ok have "pending_ok ?m" by (simp add: settles_def)
    from settle.trans [OF c settle_all_answered [OF this]]
    have "settles m (exec (for_each fire_answered (me_order E (map fst (mm_pending ?m)))) ?m)" .
    moreover have "settles m (exec (send_answer E h nr t q src) m)" for h nr t q
      by (rule effectD [OF settle_send_answer])
    ultimately show ?thesis
      using \<open>parse_dns_message _ _ = Some r\<close> Some
      by (simp add: on_packet_def split_beta settle.refl split: option.splits)
  qed (use \<open>parse_dns_message _ _ = Some r\<close> in \<open>simp add: on_packet_def settle.refl\<close>)
qed (simp add: on_packet_def settle.refl)

lemma settle_on_receive: "pending_ok m \<Longrightarrow> settles m (exec (on_receive E v6 data src) m)"
proof -
  assume ok: "pending_ok m"
  let ?data = "take rx_buf_size data"
  let ?m = "if ?data \<noteq> [] then exec (on_packet E ?data src) m else m"
  have "settles m ?m" using settle_packet [OF ok] by (simp add: settle.refl)
  from settle.trans [OF this effectD [OF settle_receive [of v6]]] show ?thesis
    by (cases "?data = []") (simp_all add: on_receive_def split_beta settle.refl del: take_eq_Nil)
qed

lemma settle_start: "settles m (exec (mdns_start E) m)"
proof -
  have "effect settles (start_v4 E :: ('c, unit) mdns) m" "effect settles (start_v6 E :: ('c, unit) mdns) m"
    for m :: "'c MdnsManager"
    unfolding start_v4_def start_v6_def by (intro settle.rules settle_emit settle_frame; simp)+
  then have "effect settles (mdns_start E) m"
    unfolding mdns_start_def
    by (intro settle.rules settle_receive settle_frame; simp)
  then show ?thesis by (rule effectD)
qed

text \<open>Stopping: the loop leaves the table alone until it is cleared, and fires what it visits.\<close>

definition stops :: "'c MdnsManager \<Rightarrow> 'c MdnsManager \<Rightarrow> bool" where
  "stops a b \<longleftrightarrow> mm_pending b = mm_pending a \<and> query_ids b = query_ids a \<and> (\<forall>c. account c b = account c a)"

definition all_fired :: "nat list \<Rightarrow> 'c MdnsManager \<Rightarrow> bool" where
  "all_fired ids m \<longleftrightarrow> (\<forall>i \<in> set ids. pq_fired (mm_queries m ! i))"

lemma stops_length: "stops a b \<Longrightarrow> length (mm_queries b) = length (mm_queries a)"
  by (rule query_ids_length) (simp add: stops_def)

lemma run_stop_query: "exec (stop_query i) m = m\<lparr>
    mm_queries := (mm_queries m)[i := (mm_queries m ! i)\<lparr>pq_fired := True\<rparr>],
    mm_log := mm_log m @ [MdnsCancel i] @ (if pq_fired (mm_queries m ! i) then []
      else callback_effects ((mm_queries m)[i := (mm_queries m ! i)\<lparr>pq_fired := True\<rparr>] ! i))\<rparr>"
  by (simp add: stop_query_def split_beta)

lemma stops_stop_query:
  assumes "stops m a" and "i < length (mm_queries m)"
  shows "stops m (exec (stop_query i) a)"
proof -
  have i: "i < length (mm_queries a)" using assms stops_length by metis
  have "account c (exec (stop_query i) a) = account c a" for c
  proof (cases "pq_fired (mm_queries a ! i)")
    case True
    then show ?thesis by (simp add: run_stop_query account_def outstanding_def fired_again)
  next
    case False
    with outstanding_fire [OF i False, of c] i show ?thesis
      by (simp add: run_stop_query account_def outstanding_def callbacks_effects)
  qed
  then show ?thesis using assms(1) by (simp add: stops_def run_stop_query query_ids_def)
qed

lemma stop_query_fires:
  "i < length (mm_queries a) \<Longrightarrow> pq_fired (mm_queries (exec (stop_query i) a) ! i)"
  by (simp add: run_stop_query)

lemma stop_query_mono:
  "pq_fired (mm_queries a ! j) \<Longrightarrow> pq_fired (mm_queries (exec (stop_query i) a) ! j)"
  by (cases "i < length (mm_queries a)") (simp_all add: run_stop_query nth_list_update list_update_beyond)

lemma stop_queries:
  assumes "\<forall>i \<in> set ids. i < length (mm_queries m)" and "stops m a"
  shows "stops m (exec (for_each stop_query ids) a) \<and> all_fired ids (exec (for_each stop_query ids) a)"
  unfolding all_fired_def
proof (rule for_each_establishes [where I = "stops m"])
  fix i b assume "stops m b" "i \<in> set ids"
  then show "stops m (exec (stop_query i) b) \<and> pq_fired (mm_queries (exec (stop_query i) b) ! i)"
    using assms(1) stops_stop_query stop_query_fires stops_length by metis
qed (simp_all add: stop_query_mono assms(2))

lemma stop_queries_mono:
  "pq_fired (mm_queries a ! j) \<Longrightarrow> pq_fired (mm_queries (exec (for_each stop_query ids) a) ! j)"
  by (induction ids arbitrary: a) (simp_all add: split_beta stop_query_mono)

lemma run_stop_name: "exec (stop_name name) m = exec (for_each stop_query (pending_of m name)) m"
  by (simp add: stop_name_def)

lemma stop_names:
  assumes "pending_ok m"
  shows "stops m (exec (for_each stop_name names) m) \<and>
    (\<forall>name \<in> set names. all_fired (pending_of m name) (exec (for_each stop_name names) m))"
proof (rule for_each_establishes [where I = "stops m"])
  fix name b assume b: "stops m b"
  then have "pending_of b name = pending_of m name" by (simp add: stops_def pending_of_def)
  moreover have "\<forall>i \<in> set (pending_of m name). i < length (mm_queries m)"
    using pending_okD(4) [OF assms] by blast
  ultimately show "stops m (exec (stop_name name) b) \<and> all_fired (pending_of m name) (exec (stop_name name) b)"
    using stop_queries b by (simp add: run_stop_name)
next
  fix x y and b :: "'a MdnsManager"
  assume "all_fired (pending_of m y) b"
  then show "all_fired (pending_of m y) (exec (stop_name x) b)"
    by (simp add: all_fired_def run_stop_name stop_queries_mono)
qed (simp add: stops_def)

definition order_ok :: "mdns_env \<Rightarrow> bool" where
  "order_ok E \<longleftrightarrow> (\<forall>ks. set (me_order E ks) = set ks)"

lemma settle_stop:
  assumes ok: "pending_ok m" and ord: "order_ok E"
  shows "settles m (exec (mdns_stop E) m)"
    and "mm_running m \<Longrightarrow> i < length (mm_queries m) \<Longrightarrow> pq_fired (mm_queries (exec (mdns_stop E) m) ! i)"
proof -
  let ?m = "m\<lparr>mm_running := False, mm_stopping := True, mm_log := mm_log m @ [MdnsCloseSockets]\<rparr>"
  let ?names = "me_order E (map fst (mm_pending m))"
  let ?n = "exec (for_each stop_name ?names) ?m"
  have run: "exec (mdns_stop E) m = (if mm_running m then ?n\<lparr>mm_pending := []\<rparr> else m\<lparr>mm_running := False\<rparr>)"
    by (simp add: mdns_stop_def split_beta)
  have ok': "pending_ok ?m" by (rule pending_ok_view [OF _ _ ok]) simp_all
  note s = stop_names [OF ok', of ?names]
  have fired: "pq_fired (mm_queries ?n ! i)" if "i < length (mm_queries m)" for i
  proof (rule ccontr)
    assume n: "\<not> pq_fired (mm_queries ?n ! i)"
    let ?name = "pq_hostname_lc (mm_queries m ! i)"
    have "?name \<notin> set ?names \<or> i \<notin> set (pending_of ?m ?name)" using s n by (auto simp: all_fired_def)
    moreover have "i \<in> set (pending_of m ?name) \<Longrightarrow> ?name \<in> set ?names"
      using ord pending_of_key [of i m ?name] by (simp add: order_ok_def)
    ultimately have "i \<notin> set (pending_of m ?name)" by (auto simp: pending_of_def)
    then have "pq_fired (mm_queries m ! i)" using pending_okD(4) [OF ok] that by simp
    moreover have "pq_fired (mm_queries a ! j) \<Longrightarrow> pq_fired (mm_queries (exec (for_each stop_name ks) a) ! j)"
      for j ks and a :: "'a MdnsManager"
      by (induction ks arbitrary: a) (simp_all add: split_beta run_stop_name stop_queries_mono)
    ultimately show False using n by force
  qed
  then show "mm_running m \<Longrightarrow> i < length (mm_queries m) \<Longrightarrow> pq_fired (mm_queries (exec (mdns_stop E) m) ! i)"
    by (simp add: run)
  have "length (mm_queries ?n) = length (mm_queries m)" using s stops_length [of ?m ?n] by simp
  then have "pending_ok (?n\<lparr>mm_pending := []\<rparr>)" using fired by (intro pending_okI) simp_all
  moreover have "query_ids ?n = query_ids m" "\<forall>c. account c ?n = account c m"
    using s by (simp_all add: stops_def account_def outstanding_def query_ids_def)
  moreover have "settles m (m\<lparr>mm_running := False\<rparr>)" by (rule settle_view) simp_all
  ultimately show "settles m (exec (mdns_stop E) m)"
    by (simp add: run settles_def query_ids_def account_def outstanding_def)
qed

section \<open>Runs\<close>

lemma send_query_simps [simp]:
  "mm_queries (exec (send_query h t) m) = mm_queries m" "mm_pending (exec (send_query h t) m) = mm_pending m"
  "callbacks c (mm_log (exec (send_query h t) m)) = callbacks c (mm_log m)"
  by (simp_all add: send_query_def run_emits Let_def)

definition asks :: "'c \<Rightarrow> 'c MdnsEvent \<Rightarrow> bool" where
  "asks c e = (case e of MdnsResolveName _ _ (Some c') \<Rightarrow> c' = c | _ \<Rightarrow> False)"

lemma resolve_pending:
  assumes ok: "pending_ok m"
  shows "pending_ok (exec (resolve E hostname timeout cb) m) \<and>
    account c (exec (resolve E hostname timeout cb) m) = account c m + (if cb = Some c then 1 else 0)"
proof (cases "mm_names m (to_lower hostname)")
  case (Some rec)
  then show ?thesis
    using ok by (cases cb) (simp_all add: resolve_def Let_def account_def outstanding_def pending_ok_def)
next
  case None
  let ?name = "to_lower hostname" and ?i = "length (mm_queries m)"
  let ?q = "\<lparr>pq_hostname_lc = ?name, pq_cb = cb, pq_accumulated = \<lparr>mr_ipv4 = [], mr_ipv6 = [], mr_resolved = False\<rparr>,
    pq_timeout = timeout, pq_txn_id = me_txn E, pq_fired = False\<rparr>"
  let ?m = "m\<lparr>mm_queries := mm_queries m @ [?q], mm_pending := AList.update ?name (pending_of m ?name @ [?i]) (mm_pending m)\<rparr>"
  let ?n = "exec (resolve E hostname timeout cb) m"
  have n: "mm_queries ?n = mm_queries m @ [?q]" "mm_pending ?n = mm_pending ?m"
    "callbacks c (mm_log ?n) = callbacks c (mm_log m)"
    using None by (simp_all add: resolve_def split_beta Let_def)
  have pend: "pending_of ?n k = (if k = ?name then pending_of m ?name @ [?i] else pending_of m k)" for k
    using n(2) by (simp add: pending_of_def update_conv')
  note okD = pending_okD [OF ok]
  have "pending_ok ?n"
  proof (rule pending_okI)
    show "distinct (map fst (mm_pending ?n))" using okD(1) n(2) by (simp add: distinct_update)
    show "distinct (pending_of ?n k)" for k using okD(2) okD(4) [of ?i] by (simp add: pend)
    show "map_of (mm_pending ?n) k \<noteq> Some []" for k using okD(3) n(2) by (simp add: update_conv')
    show "j \<in> set (pending_of ?n k) \<longleftrightarrow> j < length (mm_queries ?n) \<and> \<not> pq_fired (mm_queries ?n ! j) \<and>
        pq_hostname_lc (mm_queries ?n ! j) = k" for j k
      using okD(4) [of j k] by (auto simp: pend n(1) nth_append)
  qed
  then show ?thesis using n by (simp add: account_def outstanding_def)
qed

lemma mdns_step_account:
  assumes ok: "pending_ok m" and ord: "order_ok (fst e)"
  shows "pending_ok (fst (mdns_step e m)) \<and>
    callbacks c (snd (mdns_step e m)) + outstanding c (fst (mdns_step e m)) =
      outstanding c m + (if asks c (snd e) then 1 else 0)"
proof -
  let ?m = "m\<lparr>mm_log := []\<rparr>"
  obtain E ev where e: "e = (E, ev)" by (cases e)
  have ok': "pending_ok ?m" by (rule pending_ok_view [OF _ _ ok]) simp_all
  have acc: "account c ?m = outstanding c m" by (simp add: account_def outstanding_def)
  have "pending_ok (exec (mdns_handle E ev) ?m) \<and>
      account c (exec (mdns_handle E ev) ?m) = account c ?m + (if asks c ev then 1 else 0)"
  proof (cases ev)
    case (MdnsResolveName name timeout cb)
    then show ?thesis
      using resolve_pending [OF ok', of E name timeout cb c] by (simp add: mdns_handle_def asks_def split: option.splits)
  next
    case (MdnsTimeout i)
    then show ?thesis
      using settle_timeout [OF ok', of i] ok' by (simp add: mdns_handle_def asks_def settles_def)
  next
    case (MdnsRegisterName name)
    have "effect settles (register_name name) ?m" unfolding register_name_def by (rule settle_frame) simp_all
    then show ?thesis using MdnsRegisterName ok' by (simp add: mdns_handle_def asks_def effect_def settles_def)
  next
    case (MdnsUnregisterName name)
    have "effect settles (unregister_name name) ?m" unfolding unregister_name_def by (rule settle_frame) simp_all
    then show ?thesis using MdnsUnregisterName ok' by (simp add: mdns_handle_def asks_def effect_def settles_def)
  next
    case MdnsStart
    then show ?thesis
      using settle_start [where m = ?m and E = E] ok' by (simp add: mdns_handle_def asks_def settles_def split_beta)
  next
    case MdnsStop
    then show ?thesis
      using settle_stop(1) [OF ok', of E] ord ok' by (simp add: mdns_handle_def asks_def settles_def e)
  next
    case (MdnsDatagram v6 data src)
    then show ?thesis
      using settle_on_receive [OF ok'] ok' by (simp add: mdns_handle_def asks_def settles_def)
  qed
  then show ?thesis unfolding acc by (simp add: mdns_step_def Let_def e account_def)
qed

lemma mdns_run_account:
  assumes "pending_ok m" and "list_all (\<lambda>e. order_ok (fst e)) es"
  shows "pending_ok (fst (run_machine mdns_step es m)) \<and>
    callbacks c (snd (run_machine mdns_step es m)) + outstanding c (fst (run_machine mdns_step es m)) =
      outstanding c m + length (filter (\<lambda>e. asks c (snd e)) es)"
  using assms
proof (induction es arbitrary: m)
  case (Cons e es)
  from mdns_step_account [of m e c] Cons.IH [of "fst (mdns_step e m)"] Cons.prems
  show ?case by (auto simp: split_beta Let_def)
qed simp

lemma new_pending_ok: "pending_ok new_mdns_manager"
  by (rule pending_okI) (simp_all add: new_mdns_manager_def pending_of_def)

lemma timeout_fires: "i < length (mm_queries m) \<Longrightarrow> pq_fired (mm_queries (exec (on_query_timeout i) m) ! i)"
  by (simp add: on_query_timeout_def split_beta)

text \<open>C14: Every resolution is answered exactly once. In any run of a manager the callbacks that ran and the
  queries still waiting are together as many as the resolutions asked for, for every callback; the
  table of pending queries lists exactly the queries that wait, each under its own name; and a query
  that waits is answered when its timer expires or a running manager is stopped.\<close>

theorem mdns_callback_once:
  assumes es: "list_all (\<lambda>e. order_ok (fst e)) es" and E: "order_ok E"
    and run: "run_machine mdns_step es new_mdns_manager = (m, out)" and i: "i < length (mm_queries m)"
  shows "callbacks c out + outstanding c m = length (filter (\<lambda>e. asks c (snd e)) es) \<and>
    pq_fired (mm_queries m ! i) = (i \<notin> set (pending_of m (pq_hostname_lc (mm_queries m ! i)))) \<and>
    pq_fired (mm_queries (fst (mdns_step (E, MdnsTimeout i) m)) ! i) \<and>
    (mm_running m \<longrightarrow> pq_fired (mm_queries (fst (mdns_step (E, MdnsStop) m)) ! i))"
proof (intro conjI impI)
  note acc = mdns_run_account [OF new_pending_ok es, of c, unfolded run fst_conv snd_conv]
  show "callbacks c out + outstanding c m = length (filter (\<lambda>e. asks c (snd e)) es)"
    using acc by (simp add: outstanding_def new_mdns_manager_def)
  have ok: "pending_ok m" using acc by simp
  show "pq_fired (mm_queries m ! i) = (i \<notin> set (pending_of m (pq_hostname_lc (mm_queries m ! i))))"
    using pending_okD(4) [OF ok] i by simp
  show "pq_fired (mm_queries (fst (mdns_step (E, MdnsTimeout i) m)) ! i)"
    using i by (simp add: mdns_step_def mdns_handle_def timeout_fires Let_def)
  have "pending_ok (m\<lparr>mm_log := []\<rparr>)" by (rule pending_ok_view [OF _ _ ok]) simp_all
  then show "pq_fired (mm_queries (fst (mdns_step (E, MdnsStop) m)) ! i)" if "mm_running m"
    using settle_stop(2) [of "m\<lparr>mm_log := []\<rparr>" E i] E i that by (simp add: mdns_step_def mdns_handle_def Let_def)
qed

definition sample_mdns_env :: mdns_env where
  "sample_mdns_env = \<lparr>me_inet = sample_inet, me_ifaddrs = None, me_open4 = True, me_bind4 = True,
     me_open6 = False, me_bind6 = False, me_if_index = (\<lambda>_. 0), me_join6 = (\<lambda>_. False), me_txn = 7,
     me_order = (\<lambda>ks. ks)\<rparr>"

lemma sample_order_ok: "order_ok sample_mdns_env"
  by (simp add: order_ok_def sample_mdns_env_def)

theorem mdns_callback_once_witness:
  "callbacks (2 :: nat) (snd (run_machine mdns_step [(sample_mdns_env, MdnsResolveName ''a.local'' 5 (Some 2))]
      new_mdns_manager)) +
    outstanding (2 :: nat) (fst (run_machine mdns_step [(sample_mdns_env, MdnsResolveName ''a.local'' 5 (Some 2))]
      new_mdns_manager)) = 1"
proof -
  let ?es = "[(sample_mdns_env, MdnsResolveName ''a.local'' 5 (Some (2 :: nat)))]"
  let ?run = "run_machine mdns_step ?es new_mdns_manager"
  have es: "list_all (\<lambda>e. order_ok (fst e)) ?es" by (simp add: sample_order_ok)
  have "0 < length (mm_queries (fst ?run))"
    by (simp add: mdns_step_def mdns_handle_def resolve_def new_mdns_manager_def Let_def split_beta)
  from mdns_callback_once [OF es sample_order_ok _ this, of "snd ?run" 2]
  show ?thesis by (simp add: asks_def)
qed

section \<open>A name resolves across the network\<close>

lemma collect_nth:
  assumes "distinct ids" and "i \<in> set ids" and "i < length qs"
  shows "fold (\<lambda>i qs. qs[i := (qs ! i)\<lparr>pq_accumulated := accumulate ans (pq_accumulated (qs ! i))\<rparr>]) ids qs ! i =
    (qs ! i)\<lparr>pq_accumulated := accumulate ans (pq_accumulated (qs ! i))\<rparr>"
proof -
  have other: "fold (\<lambda>i qs. qs[i := (qs ! i)\<lparr>pq_accumulated := accumulate ans (pq_accumulated (qs ! i))\<rparr>]) ids qs ! j =
      qs ! j" if "j \<notin> set ids" for j ids qs
    using that by (induction ids arbitrary: qs) auto
  show ?thesis
    using assms
  proof (induction ids arbitrary: qs)
    case (Cons a ids)
    then show ?case by (cases "i = a") (simp_all add: other)
  qed simp
qed

lemma accumulate_quads:
  assumes "distinct (vs @ map dotted_quad addrs)"
  shows "fold accumulate (map (quad_answer name) addrs) \<lparr>mr_ipv4 = vs, mr_ipv6 = [], mr_resolved = b\<rparr> =
    \<lparr>mr_ipv4 = vs @ map dotted_quad addrs, mr_ipv6 = [], mr_resolved = (b \<or> addrs \<noteq> [])\<rparr>"
  using assms
  by (induction addrs arbitrary: vs b) (simp_all add: accumulate_def quad_answer_def)

lemma dotted_quad_inject:
  "length a = 4 \<Longrightarrow> length b = 4 \<Longrightarrow> dotted_quad a = dotted_quad b \<longleftrightarrow> a = b"
  by (metis option.inject scan_dotted_quad_inverse)

lemma distinct_quads:
  "list_all (\<lambda>b. length b = 4) addrs \<Longrightarrow> distinct addrs \<Longrightarrow> distinct (map dotted_quad addrs)"
  by (auto simp: distinct_map inj_on_def list_all_iff dotted_quad_inject)

text \<open>Query \<open>i\<close> has collected \<open>r\<close>, and if it fired its callback has run.\<close>

definition answered :: "nat \<Rightarrow> string \<Rightarrow> 'c \<Rightarrow> MdnsResolveResult \<Rightarrow> 'c MdnsManager \<Rightarrow> bool" where
  "answered i name c r m \<longleftrightarrow> pending_ok m \<and> i < length (mm_queries m) \<and>
     (let q = mm_queries m ! i in pq_hostname_lc q = name \<and> pq_cb q = Some c \<and> pq_accumulated q = r \<and>
        (pq_fired q \<longrightarrow> MdnsResolved c r \<in> set (mm_log m)))"

lemma answered_fire_query:
  assumes "answered i name c r m" and "j < length (mm_queries m)" and "pq_hostname_lc (mm_queries m ! j) = k"
  shows "answered i name c r (exec (fire_query k j) m)"
proof -
  have "pending_ok (exec (fire_query k j) m)"
    using settle_fire_query [OF assms(2,3)] assms(1) by (simp add: settles_def answered_def)
  then show ?thesis
    using assms
    by (auto simp: answered_def Let_def run_fire_query nth_list_update callback_effects_def)
qed

lemma fire_query_fired:
  "answered i name c r m \<Longrightarrow> mr_resolved r \<Longrightarrow> pq_fired (mm_queries (exec (fire_query name i) m) ! i)"
  by (auto simp: answered_def Let_def run_fire_query)

lemma fire_query_mono:
  "pq_fired (mm_queries m ! i) \<Longrightarrow> pq_fired (mm_queries (exec (fire_query k j) m) ! i)"
  by (cases "j < length (mm_queries m)") (auto simp: Let_def run_fire_query nth_list_update list_update_beyond)

lemma fire_queries_answered:
  assumes "answered i name c r m" and "queries_of k ids m"
  shows "answered i name c r (exec (for_each (fire_query k) ids) m)"
  using assms
proof (induction ids arbitrary: m)
  case (Cons j ids)
  have j: "j < length (mm_queries m)" "pq_hostname_lc (mm_queries m ! j) = k" using Cons.prems by (auto simp: queries_of_def)
  have "queries_of k ids m" using Cons.prems by (simp add: queries_of_def)
  then have "queries_of k ids (exec (fire_query k j) m)" by (rule queries_of_settles [OF settle_fire_query [OF j]])
  from Cons.IH [OF answered_fire_query [OF Cons.prems(1) j] this] show ?case by (simp add: split_beta)
qed simp

lemma fire_queries_mono:
  "pq_fired (mm_queries m ! i) \<Longrightarrow> pq_fired (mm_queries (exec (for_each (fire_query k) ids) m) ! i)"
  by (induction ids arbitrary: m) (simp_all add: split_beta fire_query_mono)

lemma fire_queries_fired:
  assumes "answered i name c r m" and "mr_resolved r" and "queries_of name ids m" and "i \<in> set ids"
  shows "pq_fired (mm_queries (exec (for_each (fire_query name) ids) m) ! i)"
  using assms
proof (induction ids arbitrary: m)
  case (Cons j ids)
  have j: "j < length (mm_queries m)" "pq_hostname_lc (mm_queries m ! j) = name" using Cons.prems by (auto simp: queries_of_def)
  let ?m = "exec (fire_query name j) m"
  have "queries_of name ids m" using Cons.prems by (simp add: queries_of_def)
  then have q: "queries_of name ids ?m" by (rule queries_of_settles [OF settle_fire_query [OF j]])
  show ?case
  proof (cases "i = j")
    case True
    then show ?thesis
      using fire_query_fired [OF Cons.prems(1,2)] by (simp add: split_beta fire_queries_mono)
  next
    case False
    then show ?thesis
      using Cons.IH [OF answered_fire_query [OF Cons.prems(1) j] Cons.prems(2) q] Cons.prems(4) by (simp add: split_beta)
  qed
qed simp

lemma fire_all_answered:
  assumes a: "answered i name c r m" and r: "mr_resolved r" and name: "name \<in> set names"
  shows "MdnsResolved c r \<in> set (mm_log (exec (for_each fire_answered names) m))"
proof -
  have "answered i name c r (exec (for_each fire_answered names) m) \<and>
    (\<forall>k \<in> set names. k = name \<longrightarrow> pq_fired (mm_queries (exec (for_each fire_answered names) m) ! i))"
  proof (rule for_each_establishes [where I = "answered i name c r"])
    fix k b assume b: "answered i name c r b"
    then have q: "queries_of k (pending_of b k) b" for k by (simp add: answered_def queries_of_pending)
    have "pq_fired (mm_queries (exec (fire_answered name) b) ! i)"
    proof (cases "pq_fired (mm_queries b ! i)")
      case False
      then have "i \<in> set (pending_of b name)" using b pending_okD(4) by (auto simp: answered_def Let_def)
      then show ?thesis using fire_queries_fired [OF b r q] by (simp add: fire_answered_def)
    qed (simp add: fire_answered_def fire_queries_mono)
    then show "answered i name c r (exec (fire_answered k) b) \<and>
        (k = name \<longrightarrow> pq_fired (mm_queries (exec (fire_answered k) b) ! i))"
      using fire_queries_answered [OF b q] by (simp add: fire_answered_def)
  qed (simp_all add: fire_answered_def fire_queries_mono a)
  then show ?thesis using name by (auto simp: answered_def Let_def)
qed

lemma tolower_idem [simp]: "tolower (tolower c) = tolower c"
proof -
  have "(of_char c :: nat) + 32 < 256" if "(of_char c :: nat) \<le> 90" using that by simp
  then show ?thesis by (auto simp: tolower_def of_char_of)
qed

lemma tolower_dot [simp]: "tolower (CHR ''.'') = CHR ''.''" "tolower c = CHR ''.'' \<longleftrightarrow> c = CHR ''.''"
  "CHR ''.'' = tolower c \<longleftrightarrow> c = CHR ''.''"
proof -
  show dot: "tolower (CHR ''.'') = CHR ''.''" by (simp add: tolower_def)
  have "c = CHR ''.''" if t: "tolower c = CHR ''.''"
  proof (cases "65 \<le> (of_char c :: nat) \<and> (of_char c :: nat) \<le> 90")
    case True
    then have "(of_char (tolower c) :: nat) = of_char c + 32" by (simp add: tolower_def of_char_of)
    then have "(46 :: nat) = of_char c + 32" unfolding t by simp
    then show ?thesis using True by simp
  qed (use t in \<open>auto simp: tolower_def split: if_splits\<close>)
  then show "tolower c = CHR ''.'' \<longleftrightarrow> c = CHR ''.''" "CHR ''.'' = tolower c \<longleftrightarrow> c = CHR ''.''"
    using dot by auto
qed

lemma to_lower_idem [simp]: "to_lower (to_lower s) = to_lower s"
  by (simp add: to_lower_def)

lemma lower_labels:
  assumes "name_ok ls"
  shows "to_lower (dotted ls) = dotted (map to_lower ls)" and "name_ok (map to_lower ls)"
proof -
  show "to_lower (dotted ls) = dotted (map to_lower ls)"
    by (induction ls rule: induct_list012) (simp_all add: to_lower_append to_lower_def tolower_def)
  have len: "length (label_octets (map to_lower ls)) = length (label_octets ls)"
    by (induction ls) (simp_all add: label_octets_def to_lower_def)
  have "CHR ''.'' \<notin> set (to_lower l)" if "CHR ''.'' \<notin> set l" for l
    using that by (auto simp: to_lower_def)
  then show "name_ok (map to_lower ls)"
    using assms by (auto simp: name_ok_def labels_ok_def len list_all_iff to_lower_def)
qed

lemma dotted_not_Nil: "name_ok ls \<Longrightarrow> ls \<noteq> [] \<Longrightarrow> dotted ls \<noteq> []"
  by (induction ls rule: induct_list012) (auto simp: name_ok_def labels_ok_def)

lemma parsed_not_Nil: "parse_dns_message I data = accept msg \<Longrightarrow> data \<noteq> []"
  by (auto simp: parse_dns_message_def DNS_HEADER_SIZE_def)

lemma collect_answers:
  assumes "answers = map (quad_answer name) addrs" and "distinct (pending_of m name)"
    and "i \<in> set (pending_of m name)" and "i < length (mm_queries m)"
  shows "mm_queries (exec (for_each collect_answer answers) m) ! i =
    (mm_queries m ! i)\<lparr>pq_accumulated := fold accumulate answers (pq_accumulated (mm_queries m ! i))\<rparr>"
  using assms
proof (induction addrs arbitrary: m answers)
  case (Cons b addrs)
  let ?m = "exec (collect_answer (quad_answer name b)) m"
  have m: "pending_of ?m name = pending_of m name" by (simp add: collect_answer_def)
  have q: "mm_queries ?m ! i = (mm_queries m ! i)\<lparr>pq_accumulated :=
      accumulate (quad_answer name b) (pq_accumulated (mm_queries m ! i))\<rparr>"
    using collect_nth [OF Cons.prems(2-4)] by (simp add: collect_answer_def quad_answer_def)
  have len: "length (mm_queries ?m) = length (mm_queries m)"
    using collect_view [THEN arg_cong [of _ _ length]] by (simp add: collect_answer_def)
  show ?case
    using Cons.IH [OF refl, of ?m] Cons.prems m q len by (simp add: split_beta)
qed simp

lemma response_resolves:
  assumes ok: "pending_ok m" and ord: "order_ok E" and stop: "\<not> mm_stopping m"
    and fits: "length data \<le> rx_buf_size"
    and parse: "parse_dns_message (me_inet E) data = accept msg" "dns_is_response msg"
      "dns_answers msg = map (quad_answer name) addrs"
    and addrs: "list_all (\<lambda>b. length b = 4) addrs" "distinct addrs" "addrs \<noteq> []"
    and q: "i < length (mm_queries m)" "\<not> pq_fired (mm_queries m ! i)" "pq_hostname_lc (mm_queries m ! i) = name"
      "pq_cb (mm_queries m ! i) = Some c"
      "pq_accumulated (mm_queries m ! i) = \<lparr>mr_ipv4 = [], mr_ipv6 = [], mr_resolved = False\<rparr>"
  shows "MdnsResolved c \<lparr>mr_ipv4 = map dotted_quad addrs, mr_ipv6 = [], mr_resolved = True\<rparr>
    \<in> set (mm_log (exec (on_receive E v6 data src) m))"
proof -
  let ?r = "\<lparr>mr_ipv4 = map dotted_quad addrs, mr_ipv6 = [], mr_resolved = True\<rparr>"
  let ?m = "exec (for_each collect_answer (dns_answers msg)) m"
  have s: "settles m ?m" by (rule effectD [OF settle_collect])
  have pend: "i \<in> set (pending_of m name)" using pending_okD(4) [OF ok] q by simp
  have acc: "fold accumulate (map (quad_answer name) addrs) \<lparr>mr_ipv4 = [], mr_ipv6 = [], mr_resolved = False\<rparr> = ?r"
    using accumulate_quads [of "[]" addrs name False] distinct_quads [OF addrs(1,2)] addrs(3) by simp
  have "mm_queries ?m ! i = (mm_queries m ! i)\<lparr>pq_accumulated := ?r\<rparr>"
    using collect_answers [OF parse(3) pending_okD(2) [OF ok] pend q(1)] q(5) acc parse(3) by simp
  moreover have "length (mm_queries ?m) = length (mm_queries m)"
    using s by (intro query_ids_length) (simp add: settles_def)
  ultimately have a: "answered i name c ?r ?m"
    using s ok q by (simp add: answered_def settles_def)
  have "mm_pending (exec (for_each collect_answer as) m) = mm_pending m" for as and m :: "'a MdnsManager"
    by (induction as arbitrary: m) (simp_all add: split_beta collect_answer_def)
  then have "name \<in> set (me_order E (map fst (mm_pending ?m)))"
    using ord pending_of_key [OF pend] by (simp add: order_ok_def)
  from fire_all_answered [OF a _ this]
  have "MdnsResolved c ?r \<in> set (mm_log (exec (on_packet E data src) m))"
    using parse by (simp add: on_packet_def split_beta)
  moreover have "set (mm_log n) \<subseteq> set (mm_log (exec (async_receive v6) n))" for n :: "'a MdnsManager"
    by (auto simp: async_receive_def)
  ultimately show ?thesis
    using stop fits parsed_not_Nil [OF parse(1)] by (auto simp: on_receive_def split_beta)
qed

text \<open>C21: A registered name resolves across the network. One manager resolves a name that another has
  registered with at least one IPv4 address. The address query it multicasts makes the other answer,
  to the multicast group and to the asker, and that answer, when it arrives, runs the callback with
  exactly the registered IPv4 addresses, provided the answer fits the receive buffer of 2048 octets.\<close>

theorem mdns_resolution:
  fixes A B :: "'c MdnsManager"
  assumes name: "name_ok ls" "ls \<noteq> []" and I: "inet_ok I" "me_inet EA = I" "me_inet EB = I" "order_ok EA"
    and A: "pending_ok A" "mm_names A (to_lower (dotted ls)) = None" "\<not> mm_stopping A" "mm_v4_open A"
    and B: "mm_names B (to_lower (dotted ls)) = Some rec" "\<not> mm_stopping B" "mm_v4_open B"
    and rec: "nr_ipv4 rec = map dotted_quad addrs" "list_all (\<lambda>b. length b = 4) addrs" "distinct addrs"
      "addrs \<noteq> []"
    and A1: "mdns_step (EA, MdnsResolveName (dotted ls) timeout (Some c)) A = (A1, outA)"
    and q: "q = encode_dns_query (to_lower (dotted ls)) (me_txn EA) False"
    and r: "r = encode_dns_response I (to_lower (dotted ls)) (me_txn EA) (nr_ipv4 rec) []" "length r \<le> 2048"
  shows "MdnsSend (False, kMdnsIPv4MulticastAddr, kMdnsPort) q \<in> set outA \<and>
    snd (mdns_step (EB, MdnsDatagram False q (False, ip, port)) B) =
      [MdnsSend (False, kMdnsIPv4MulticastAddr, kMdnsPort) r, MdnsSend (False, ip, port) r, MdnsReceive False] \<and>
    MdnsResolved c \<lparr>mr_ipv4 = nr_ipv4 rec, mr_ipv6 = [], mr_resolved = True\<rparr>
      \<in> set (snd (mdns_step (EA, MdnsDatagram False r src) A1))"
proof -
  let ?name = "to_lower (dotted ls)"
  note low = lower_labels [OF name(1)]
  have len: "labels_ok (map to_lower ls)" "length (label_octets (map to_lower ls)) \<le> 255"
    using low(2) by (simp_all add: name_ok_def)
  have pq: "parse_dns_message J q = accept \<lparr>dns_is_response = False, dns_txn_id = me_txn EA, dns_question = ?name,
      dns_qtype = DNS_TYPE_A, dns_answers = []\<rparr>" for J
    using dns_query_roundtrip [OF len, of J "me_txn EA" False] by (simp add: q low(1) [symmetric])
  have "length r = 12 + length addrs * (length (label_octets (map to_lower ls)) + 15)"
    using encode_response_length [OF low(2) I(1) rec(2)] by (simp add: r(1) rec(1) low(1))
  moreover have "length addrs * 1 \<le> length addrs * (length (label_octets (map to_lower ls)) + 15)"
    by (intro mult_le_mono) simp_all
  ultimately have "length addrs \<le> 2048" using r(2) by linarith
  then have few: "length addrs < 2 ^ 16" by simp
  have short: "length q \<le> rx_buf_size" "length r \<le> rx_buf_size"
    using encode_query_length [OF low(2)] len(2) r(2) by (simp_all add: q low(1) rx_buf_size_def)
  have pr: "parse_dns_message I r = accept \<lparr>dns_is_response = True, dns_txn_id = me_txn EA, dns_question = [],
      dns_qtype = 0, dns_answers = map (quad_answer ?name) addrs\<rparr>"
    using parse_response [OF low(2) I(1) rec(2), of "[]" "me_txn EA"] few
    by (simp add: r(1) rec(1) low(1) [symmetric])
  have nonempty: "q \<noteq> []" "r \<noteq> []" using parsed_not_Nil pq pr by blast+
  have nn: "?name \<noteq> []" using dotted_not_Nil name by simp
  have 1: "MdnsSend (False, kMdnsIPv4MulticastAddr, kMdnsPort) q \<in> set outA"
    using A1 A(2-4) nonempty(1)
    by (auto simp: mdns_step_def mdns_handle_def resolve_def send_query_def Let_def run_emits split_beta q)
  have 2: "snd (mdns_step (EB, MdnsDatagram False q (False, ip, port)) B) =
      [MdnsSend (False, kMdnsIPv4MulticastAddr, kMdnsPort) r, MdnsSend (False, ip, port) r, MdnsReceive False]"
    using B rec(1,4) nonempty nn I(3) r(1) short(1)
    by (simp add: mdns_step_def mdns_handle_def on_receive_def on_packet_def pq send_answer_def Let_def
        async_receive_def dns_consts)
  let ?m = "A\<lparr>mm_log := []\<rparr>" and ?i = "length (mm_queries A)"
  have ok: "pending_ok ?m" by (rule pending_ok_view [OF _ _ A(1)]) simp_all
  have A1': "A1 = exec (resolve EA (dotted ls) timeout (Some c)) ?m"
    using A1 by (simp add: mdns_step_def mdns_handle_def Let_def)
  have q1: "mm_queries A1 = mm_queries A @ [\<lparr>pq_hostname_lc = ?name, pq_cb = Some c,
      pq_accumulated = \<lparr>mr_ipv4 = [], mr_ipv6 = [], mr_resolved = False\<rparr>, pq_timeout = timeout,
      pq_txn_id = me_txn EA, pq_fired = False\<rparr>]"
    using A(2) by (simp add: A1' resolve_def Let_def split_beta)
  have s1: "\<not> mm_stopping A1"
    using A(2,3) by (simp add: A1' resolve_def Let_def split_beta send_query_def run_emits)
  have ok1: "pending_ok (A1\<lparr>mm_log := []\<rparr>)"
    using resolve_pending [OF ok, of EA "dotted ls" timeout "Some c"] pending_ok_view [of "A1\<lparr>mm_log := []\<rparr>" A1]
    by (simp add: A1')
  have 3: "MdnsResolved c \<lparr>mr_ipv4 = nr_ipv4 rec, mr_ipv6 = [], mr_resolved = True\<rparr>
      \<in> set (snd (mdns_step (EA, MdnsDatagram False r src) A1))"
    using response_resolves [OF ok1 I(4) _ short(2) _ _ _ rec(2-4), of _ _ ?i c False src] pr I(2) q1 s1
    by (simp add: mdns_step_def mdns_handle_def Let_def rec(1))
  from 1 2 3 show ?thesis by simp
qed

theorem mdns_resolution_witness:
  "MdnsResolved (1 :: nat) \<lparr>mr_ipv4 = [dotted_quad [10, 0, 0, 1]], mr_ipv6 = [], mr_resolved = True\<rparr>
    \<in> set (snd (mdns_step (sample_mdns_env, MdnsDatagram False
        (encode_dns_response sample_inet ''a.local'' 7 [dotted_quad [10, 0, 0, 1]] []) (False, ''10.0.0.1'', 5353))
      (fst (mdns_step (sample_mdns_env, MdnsResolveName ''a.local'' 5 (Some 1))
        (new_mdns_manager\<lparr>mm_v4_open := True\<rparr>)))))"
proof -
  let ?ls = "[''a'', ''local'']"
  let ?A = "new_mdns_manager\<lparr>mm_v4_open := True\<rparr> :: nat MdnsManager"
  let ?rec = "\<lparr>nr_ipv4 = [dotted_quad [10, 0, 0, 1]], nr_ipv6 = []\<rparr>"
  let ?B = "?A\<lparr>mm_names := [''a.local'' \<mapsto> ?rec]\<rparr>"
  let ?step = "mdns_step (sample_mdns_env, MdnsResolveName (dotted ?ls) 5 (Some 1)) ?A"
  have low: "to_lower (dotted ?ls) = ''a.local''" and lower: "to_lower ''a.local'' = ''a.local''" by code_simp+
  have 1: "name_ok ?ls" "?ls \<noteq> []" by (simp_all add: name_ok_def labels_ok_def label_octets_def)
  have 2: "me_inet sample_mdns_env = sample_inet" "me_txn sample_mdns_env = 7" by (simp_all add: sample_mdns_env_def)
  have 3: "pending_ok ?A" by (rule pending_ok_view [OF _ _ new_pending_ok]) simp_all
  have 4: "mm_names ?A (to_lower (dotted ?ls)) = None" "\<not> mm_stopping ?A" "mm_v4_open ?A"
    "mm_names ?B (to_lower (dotted ?ls)) = Some ?rec" "\<not> mm_stopping ?B" "mm_v4_open ?B"
    by (simp_all add: lower new_mdns_manager_def)
  have 5: "nr_ipv4 ?rec = map dotted_quad [[10, 0, 0, 1]]" "list_all (\<lambda>b. length b = 4) [[10, 0, 0, 1 :: byte]]"
    "distinct [[10, 0, 0, 1 :: byte]]" "[[10, 0, 0, 1 :: byte]] \<noteq> []"
    by simp_all
  have "length (encode_dns_response sample_inet (to_lower (dotted ?ls)) (me_txn sample_mdns_env) (nr_ipv4 ?rec) []) \<le> 2048"
    using encode_response_length [OF 1(1) sample_inet_ok 5(2)] by (simp add: lower label_octets_def)
  from mdns_resolution [OF 1 sample_inet_ok 2(1) 2(1) sample_order_ok 3 4 5 surjective_pairing [of ?step] refl refl this,
      where src = "(False, ''10.0.0.1'', 5353)"]
  show ?thesis unfolding low by (simp add: 2)
qed

section \<open>Start after stop\<close>

definition talks :: "'c MdnsEffect \<Rightarrow> bool" where
  "talks e = (case e of MdnsSend _ _ \<Rightarrow> True | MdnsReceive _ \<Rightarrow> True | _ \<Rightarrow> False)"

definition mute :: "'c MdnsManager \<Rightarrow> 'c MdnsManager \<Rightarrow> bool" where
  "mute a b \<longleftrightarrow> (mm_stopping a \<longrightarrow> mm_stopping b \<and> filter talks (mm_log b) = filter talks (mm_log a))"

interpretation mute: step_order mute
  by unfold_locales (auto simp: mute_def)

lemma mute_emit: "\<not> talks e \<Longrightarrow> effect mute (mdns_emit e) m"
  by (simp add: effect_def mute_def)

lemma mute_frame: "mm_stopping (f m) = mm_stopping m \<Longrightarrow> mm_log (f m) = mm_log m \<Longrightarrow> effect mute (modify f) m"
  by (simp add: effect_def mute_def)

lemma mute_callback: "effect mute (run_callback i) m" and mute_fired: "effect mute (exchange_fired i) m"
  unfolding run_callback_def exchange_fired_def
  by (intro mute.rules mute_emit mute_frame; simp add: talks_def)+

lemma mute_receive: "effect mute (async_receive v6) m" and mute_query: "effect mute (send_query h t) m"
  and mute_answer: "effect mute (send_answer E h rec t ty dst) m"
  by (simp_all add: effect_def mute_def async_receive_def send_query_def send_answer_def Let_def)

lemma mute_remove: "effect mute (remove_pending name i) m"
  unfolding remove_pending_def by (rule mute_frame) (simp_all add: Let_def)

lemmas mute_basic = mute_callback mute_fired mute_receive mute_query mute_answer mute_remove

lemma mute_packet: "effect mute (on_packet E data src) m"
proof -
  have f: "effect mute (fire_query name i) m" for name i and m :: "'c MdnsManager"
    unfolding fire_query_def by (intro mute.rules mute_basic mute_emit) (simp add: talks_def)
  have c: "effect mute (collect_answer ans) m" for ans and m :: "'c MdnsManager"
    unfolding collect_answer_def by (rule mute_frame) simp_all
  have a: "effect mute (fire_answered name) m" for name and m :: "'c MdnsManager"
    unfolding fire_answered_def by (intro mute.rules f)
  show ?thesis unfolding on_packet_def
    by (cases "parse_dns_message (me_inet E) data") (auto split: option.split intro!: mute.rules mute_basic c a)
qed

lemma mute_stop: "effect mute (mdns_stop E) m"
proof -
  have "effect mute (stop_name name) m" for name and m :: "'c MdnsManager"
    unfolding stop_name_def stop_query_def
    by (intro mute.rules mute_basic mute_emit) (simp add: talks_def)
  moreover have "effect mute (modify (\<lambda>m. m\<lparr>mm_stopping := True\<rparr>)) m" for m :: "'c MdnsManager"
    by (simp add: effect_def mute_def)
  ultimately show ?thesis
    unfolding mdns_stop_def by (intro mute.rules mute_emit) (simp_all add: talks_def mute_def)
qed

lemma mute_start: "effect mute (mdns_start E) m"
  unfolding mdns_start_def start_v4_def start_v6_def
  by (intro mute.rules mute_basic mute_emit; simp add: talks_def mute_def)

lemma mute_handle: "effect mute (mdns_handle E e) m"
proof -
  have "effect mute (on_receive E v6 data src) m" for v6 data src
    unfolding on_receive_def by (intro mute.rules mute_packet mute_basic)
  moreover have "effect mute (resolve E name timeout cb) m" for name timeout cb
    unfolding resolve_def by (intro mute.rules mute_basic mute_emit; simp add: talks_def mute_def)
  moreover have "effect mute (on_query_timeout i) m" for i and m :: "'c MdnsManager"
    unfolding on_query_timeout_def by (intro mute.rules mute_basic)
  moreover have "effect mute (register_name name) m" "effect mute (unregister_name name) m" for name
    unfolding register_name_def unregister_name_def by (rule mute_frame; simp)+
  ultimately show ?thesis
    unfolding mdns_handle_def
    by (cases e) (simp_all add: mute_stop, intro mute.rules mute_start, intro mute.rules)
qed

interpretation mdns_dead: machine mdns_step mm_stopping "\<lambda>_ e. \<not> talks e"
proof
  fix m :: "'c MdnsManager" and e out
  assume m: "mm_stopping m"
  have "mute (m\<lparr>mm_log := []\<rparr>) (fst (mdns_step e m))"
    using effectD [OF mute_handle] by (simp add: mdns_step_def Let_def)
  with m have *: "mm_stopping (fst (mdns_step e m))" "filter talks (mm_log (fst (mdns_step e m))) = []"
    by (simp_all add: mute_def)
  then show "mm_stopping (fst (mdns_step e m))" by simp
  assume "out \<in> set (snd (mdns_step e m))"
  then have "out \<in> set (mm_log (fst (mdns_step e m)))" by (simp add: mdns_step_def Let_def)
  then show "\<not> talks out" using *(2) by (auto simp: filter_empty_conv)
qed

text \<open>A manager that was stopped cannot be started again: \<open>start\<close> opens the sockets, reports success and
  marks the manager as running, but \<open>stopping_\<close> is never cleared, so that no receive is ever
  started and no query or answer is ever sent, whatever happens later.\<close>

theorem mdns_restart_inert:
  assumes "mm_running m" and "m1 = fst (mdns_step (E, MdnsStop) m)"
    and "me_open4 E' \<and> me_bind4 E'" and "m2 = exec (mdns_start E') m1"
    and "run_machine mdns_step es m2 = (m3, out)"
  shows "eval (mdns_start E') m1 \<and> mm_running m2 \<and> mm_v4_open m2 \<and> (\<forall>e \<in> set out. \<not> talks e) \<and> mm_stopping m3"
proof -
  have stop: "mm_stopping m1" "\<not> mm_running m1"
  proof -
    have fe: "mm_stopping (exec (for_each stop_name ns) a) = mm_stopping a \<and> mm_running (exec (for_each stop_name ns) a) = mm_running a"
      for ns and a :: "'a MdnsManager"
    proof (induction ns arbitrary: a)
      case (Cons n ns)
      have "mm_stopping (exec (for_each stop_query ids) a) = mm_stopping a \<and> mm_running (exec (for_each stop_query ids) a) = mm_running a"
        for ids and a :: "'a MdnsManager"
        by (induction ids arbitrary: a) (simp_all add: split_beta run_stop_query)
      then show ?case using Cons.IH by (simp add: split_beta run_stop_name)
    qed simp
    show "mm_stopping m1" "\<not> mm_running m1"
      using assms(1) by (simp_all add: assms(2) mdns_step_def mdns_handle_def mdns_stop_def Let_def split_beta fe)
  qed
  have start: "eval (mdns_start E') m1" "mm_running m2" "mm_v4_open m2"
    using stop assms(3)
    by (simp_all add: assms(4) mdns_start_def start_v4_def start_v6_def run_emits Let_def split_beta async_receive_def)
  have "mm_stopping m2" using effectD [OF mute_start [of E' m1]] stop(1) by (simp add: mute_def assms(4))
  from mdns_dead.run_inv [OF this, of es] mdns_dead.run_good [OF this, of _ es] start assms(5)
  show ?thesis by auto
qed

theorem mdns_restart_inert_witness:
  "list_all (\<lambda>e. \<not> talks e) (snd (run_machine mdns_step [(sample_mdns_env, MdnsResolveName ''a.local'' 5 (Some 1))]
    (exec (mdns_start sample_mdns_env)
      (fst (mdns_step (sample_mdns_env, MdnsStop) (new_mdns_manager\<lparr>mm_running := True\<rparr> :: nat MdnsManager))))))"
proof -
  let ?m = "new_mdns_manager\<lparr>mm_running := True\<rparr> :: nat MdnsManager"
  have m: "mm_running ?m" by simp
  have E: "me_open4 sample_mdns_env \<and> me_bind4 sample_mdns_env" by (simp add: sample_mdns_env_def)
  show ?thesis
    unfolding list_all_iff
    using mdns_restart_inert [OF m refl E refl surjective_pairing] by blast
qed

end
