(* ===== verification/Session_Input.thy ===== *)
theory Session_Input
  imports Session_Gather
begin

text \<open>
  The events of an ICE session (\<open>src/session.cpp\<close>): nomination and consent, restart and
  close, signalling from the peer, inbound STUN and application data, timers and tasks, and the
  step function over all of them.
\<close>

section \<open>Restart and close\<close>

definition drop_mdns_name :: "unit session" where
  "drop_mdns_name = do {
     hostname \<leftarrow> gets ss_mdns_local_hostname;
     mdns \<leftarrow> gets ss_mdns;
     whenM (mdns \<and> hostname \<noteq> []) (do {
       emit (MdnsUnregister hostname);
       modify (\<lambda>s. s\<lparr>ss_mdns_local_hostname := []\<rparr>)
     })
   }"

definition bump_all :: "unit session" where
  "bump_all = do {
     bump CheckTimer; bump KeepaliveTimer; bump GatherTimer; bump TurnAllocateTimer;
     bump TurnBackupTimer; bump NominationWaitTimer
   }"

definition restart :: "session_env \<Rightarrow> unit session" where
  "restart E = do {
     st \<leftarrow> gets ss_state;
     if st = Failed then return ()
     else do {
       bump_all;
       modify (\<lambda>s. s\<lparr>ss_nomination_wait_armed := False\<rparr>);
       on_turn E turn_close;
       on_backup E turn_close;
       modify (\<lambda>s. s\<lparr>ss_turn := None, ss_turn_backup_probe := None, ss_turn_backups := [],
         ss_turn_attempt_idx := 0, ss_turn_backup_probe_idx := 0, ss_turn_last_failover := None\<rparr>);
       ufrag \<leftarrow> generate_ufrag E;
       pwd \<leftarrow> generate_pwd E;
       modify (\<lambda>s. s\<lparr>ss_local_ufrag := ufrag, ss_local_pwd := pwd, ss_local_candidates := []\<rparr>);
       drop_mdns_name;
       modify (\<lambda>s. s\<lparr>ss_remote_candidates := [], ss_remote_ufrag := [], ss_remote_pwd := [],
         ss_check_list := [], ss_pending_stun_probes := [], ss_consent_missed := 0,
         ss_consent_recovery_attempts := 0, ss_nominee_selected := False,
         ss_remote_end_of_candidates := False, ss_gathered_signal_fired := False,
         ss_stun_gathered := False, ss_turn_gathering := False, ss_nominated_cid := 0,
         ss_peer_signal_flags := 0, ss_symmetric_stride := 0, ss_first_observed_srflx_port := 0,
         ss_have_first_srflx_port := False, ss_nominated_ip := [], ss_nominated_port := 0,
         ss_uses_relay := False\<rparr>);
       tear_down_cids;
       modify (\<lambda>s. s\<lparr>ss_carrier_initialized := False, ss_local_port := 0, ss_state := New\<rparr>);
       gather E
     }
   }"

definition close :: "session_env \<Rightarrow> unit session" where
  "close E = do {
     modify (\<lambda>s. s\<lparr>ss_state := Failed\<rparr>);
     bump_all;
     modify (\<lambda>s. s\<lparr>ss_nomination_wait_armed := False\<rparr>);
     on_turn E turn_close;
     on_backup E turn_close;
     drop_mdns_name;
     release_portmap_mapping;
     tear_down_cids;
     modify (\<lambda>s. s\<lparr>ss_nominated_cid := 0\<rparr>)
   }"

text \<open>The destructor also retires the probe timer; the maps end with the object.\<close>

definition destroy :: "session_env \<Rightarrow> unit session" where
  "destroy E = do {
     modify (\<lambda>s. s\<lparr>ss_state := Failed\<rparr>);
     bump_all;
     bump PmtuTimer;
     on_turn E turn_close;
     on_backup E turn_close;
     drop_mdns_name;
     release_portmap_mapping;
     carrier \<leftarrow> gets ss_carrier;
     udp \<leftarrow> gets ss_cid_udp;
     whenM carrier (emit (DropCids CarrierUdp udp));
     carrier_tcp \<leftarrow> gets ss_carrier_tcp;
     tcp \<leftarrow> gets ss_cid_tcp;
     whenM carrier_tcp (emit (DropCids CarrierTcp tcp))
   }"

section \<open>Consent\<close>

text \<open>Times are microseconds; \<open>None\<close> is the epoch value \<open>time_point{}\<close>.\<close>

definition auto_restart_due :: "Session \<Rightarrow> bool" where
  "auto_restart_due s \<longleftrightarrow>
     (case ss_auto_restart_last s of
        None \<Rightarrow> True
      | Some t \<Rightarrow> uint (ss_now s - t) \<ge> cf_auto_restart_backoff_ms (ss_cfg s) * 1000)"

definition notify_consent_loss :: "session_env \<Rightarrow> bool session" where
  "notify_consent_loss E = do {
     auto \<leftarrow> gets (\<lambda>s. cf_auto_restart_on_consent_loss (ss_cfg s) \<and>
       ss_auto_restart_attempts s < word_of_int (cf_auto_restart_max_attempts (ss_cfg s)));
     due \<leftarrow> gets auto_restart_due;
     if auto \<and> due
     then do {
       modify (\<lambda>s. s\<lparr>ss_auto_restart_attempts := ss_auto_restart_attempts s + 1,
         ss_auto_restart_last := Some (ss_now s), ss_consent_missed := 0\<rparr>);
       cb \<leftarrow> gets ss_cb_auto_restart;
       attempts \<leftarrow> gets ss_auto_restart_attempts;
       max_attempts \<leftarrow> gets (\<lambda>s. word_of_int (cf_auto_restart_max_attempts (ss_cfg s)));
       whenM cb (emit (OnAutoRestart attempts max_attempts));
       restart E;
       return True
     }
     else if auto
     then do { modify (\<lambda>s. s\<lparr>ss_consent_missed := 0\<rparr>); return True }
     else do { fail_session; return False }
   }"

definition keepalive_request :: "TransactionId \<Rightarrow> bytes" where
  "keepalive_request txn = build (new_builder STUN_BINDING_REQUEST txn)"

definition send_keepalive :: "session_env \<Rightarrow> unit session" where
  "send_keepalive E = do {
     cid \<leftarrow> gets ss_nominated_cid;
     tcp \<leftarrow> gets (\<lambda>s. transport_is_tcp (ss_nominated_transport s));
     carrier_tcp \<leftarrow> gets ss_carrier_tcp;
     carrier \<leftarrow> gets ss_carrier;
     whenM (cid \<noteq> 0) (do {
       txn \<leftarrow> generate_txn_id E;
       if tcp then whenM carrier_tcp (emit (Send CarrierTcp cid (frame_tcp_stun (keepalive_request txn))))
       else whenM carrier (emit (Send CarrierUdp cid (keepalive_request txn)))
     })
   }"

definition on_keepalive :: "session_env \<Rightarrow> unit session" where
  "on_keepalive E = do {
     st \<leftarrow> gets ss_state;
     lite \<leftarrow> gets (\<lambda>s. cf_lite_mode (ss_cfg s));
     if st \<noteq> Connected \<or> lite then return ()
     else do {
       modify (\<lambda>s. s\<lparr>ss_consent_missed := ss_consent_missed s + 1\<rparr>);
       lost \<leftarrow> gets (\<lambda>s. ss_consent_missed s \<ge> word_of_int (cf_consent_max_failures (ss_cfg s)));
       recover \<leftarrow> gets (\<lambda>s. ss_consent_recovery_attempts s < word_of_int (cf_consent_max_recovery (ss_cfg s)));
       if lost \<and> recover
       then do {
         modify (\<lambda>s. s\<lparr>ss_consent_recovery_attempts := ss_consent_recovery_attempts s + 1,
           ss_consent_missed := 0\<rparr>);
         enter_checking E
       }
       else if lost then do { notify_consent_loss E; return () }
       else do {
         send_keepalive E;
         interval \<leftarrow> gets (\<lambda>s. cf_keepalive_interval_s (ss_cfg s));
         arm_timer KeepaliveTimer (interval * 1000)
       }
     }
   }"

section \<open>Nomination\<close>

definition on_nominated :: "session_env \<Rightarrow> string \<Rightarrow> u16 \<Rightarrow> bool \<Rightarrow> conn_id \<Rightarrow> TransportType \<Rightarrow> unit session" where
  "on_nominated E ip port relay cid transport = do {
     bump CheckTimer;
     bump NominationWaitTimer;
     modify (\<lambda>s. s\<lparr>ss_nomination_wait_armed := False, ss_state := Connected, ss_consent_missed := 0,
       ss_consent_recovery_attempts := 0, ss_auto_restart_attempts := 0, ss_auto_restart_last := None,
       ss_nominated_cid := cid, ss_nominated_transport := transport, ss_nominated_ip := ip,
       ss_nominated_port := port, ss_uses_relay := relay\<rparr>);
     whenM relay (on_turn E (\<lambda>T. bind_channel T ip port));
     flush_pending_app_data E;
     cb \<leftarrow> gets ss_cb_connected;
     whenM cb (emit (OnConnected ip port));
     on_keepalive E;
     probing \<leftarrow> gets (\<lambda>s. cf_pmtu_active_probing (ss_cfg s) \<and> ss_pmtu_probe s = None);
     whenM probing (do {
       modify (\<lambda>s. s\<lparr>ss_pmtu_probe := Some (new_probe (nat (cf_path_mtu (ss_cfg s) mod 2 ^ 64))
         (cf_pmtu_search_steps (ss_cfg s)))\<rparr>);
       start_path_mtu_probe E
     })
   }"

text \<open>\<open>nominee_selected_ = true; best->nominee_check_sent = true; send_check(*best);\<close>\<close>

definition nominate_best :: "session_env \<Rightarrow> unit session" where
  "nominate_best E = do {
     best \<leftarrow> gets (\<lambda>s. best_valid (ss_check_list s));
     case best of
       None \<Rightarrow> return ()
     | Some i \<Rightarrow> do {
         modify (\<lambda>s. s\<lparr>ss_nominee_selected := True\<rparr>);
         update_pair i (\<lambda>p. p\<lparr>cp_nominee_check_sent := True\<rparr>);
         send_check E i
       }
   }"

section \<open>Signalling\<close>

definition set_remote :: "session_env \<Rightarrow> string \<Rightarrow> string \<Rightarrow> Candidate list \<Rightarrow> unit session" where
  "set_remote E ufrag pwd candidates = do {
     modify (\<lambda>s. s\<lparr>ss_remote_ufrag := ufrag, ss_remote_pwd := pwd,
       ss_remote_candidates := candidates, ss_last_activity := ss_now s\<rparr>);
     start \<leftarrow> gets (\<lambda>s. (ss_state s = WaitingRemote \<or> ss_state s = Gathering) \<and> ss_local_candidates s \<noteq> []);
     whenM start (enter_checking E);
     resolve_remote_mdns_candidates
   }"

definition same_endpoint :: "inet \<Rightarrow> Candidate \<Rightarrow> Candidate \<Rightarrow> bool" where
  "same_endpoint I e c \<longleftrightarrow> address_str I e = address_str I c \<and> cand_port e = cand_port c \<and>
     cand_type e = cand_type c \<and> cand_transport e = cand_transport c"

definition merge_candidate :: "session_env \<Rightarrow> Candidate \<Rightarrow> unit session" where
  "merge_candidate E c = do {
     dup \<leftarrow> gets (\<lambda>s. list_ex (\<lambda>e. same_endpoint (se_inet E) e c) (ss_remote_candidates s));
     whenM (\<not> dup) (do {
       ready \<leftarrow> gets turn_ready;
       whenM ready (on_turn E (\<lambda>T. create_permission T (address_str (se_inet E) c)));
       modify (\<lambda>s. s\<lparr>ss_remote_candidates := ss_remote_candidates s @ [c]\<rparr>)
     })
   }"

definition add_remote_candidates ::
  "session_env \<Rightarrow> string \<Rightarrow> string \<Rightarrow> Candidate list \<Rightarrow> bool \<Rightarrow> unit session" where
  "add_remote_candidates E ufrag pwd cands end_of_candidates = do {
     creds_changed \<leftarrow> gets (\<lambda>s. ss_remote_ufrag s \<noteq> [] \<and> ss_remote_ufrag s \<noteq> ufrag);
     whenM creds_changed (modify (\<lambda>s. s\<lparr>ss_remote_candidates := [], ss_check_list := []\<rparr>));
     modify (\<lambda>s. s\<lparr>ss_remote_ufrag := ufrag, ss_remote_pwd := pwd\<rparr>);
     whenM end_of_candidates (do {
       modify (\<lambda>s. s\<lparr>ss_remote_end_of_candidates := True\<rparr>);
       nominate \<leftarrow> gets (\<lambda>s. ss_controlling s \<and> \<not> cf_aggressive_nomination (ss_cfg s) \<and> \<not> ss_nominee_selected s);
       whenM nominate (nominate_best E)
     });
     for_each (merge_candidate E) cands;
     cur \<leftarrow> gets ss_state;
     none \<leftarrow> gets (\<lambda>s. ss_remote_candidates s = []);
     if none then return ()
     else if cur = WaitingRemote \<or> cur = Gathering
     then do {
       have_local \<leftarrow> gets (\<lambda>s. ss_local_candidates s \<noteq> []);
       whenM have_local (do {
         signal \<leftarrow> gets (\<lambda>s. ss_cb_gathered s \<and> \<not> ss_controlling s);
         whenM signal (do {
           modify (\<lambda>s. s\<lparr>ss_gathered_signal_fired := True\<rparr>);
           emit_gathered
         });
         enter_checking E
       })
     }
     else do {
       whenM (cur = Checking) (rebuild_and_run E);
       resolve_remote_mdns_candidates
     }
   }"

definition set_peer_signal_flags :: "session_env \<Rightarrow> u32 \<Rightarrow> unit session" where
  "set_peer_signal_flags E flags = do {
     prev \<leftarrow> gets ss_peer_signal_flags;
     modify (\<lambda>s. s\<lparr>ss_peer_signal_flags := flags\<rparr>);
     rebuild \<leftarrow> gets (\<lambda>s. (prev XOR flags) AND ICE_SIGNAL_FLAG_SYMMETRIC \<noteq> 0 \<and> ss_state s = Checking \<and>
       ss_remote_candidates s \<noteq> [] \<and> ss_local_candidates s \<noteq> []);
     whenM rebuild (rebuild_and_run E)
   }"

section \<open>Check responses\<close>

definition find_txn :: "TransactionId \<Rightarrow> CheckPair list \<Rightarrow> nat option" where
  "find_txn txn ps = find (\<lambda>i. cp_txn_id (ps ! i) = txn) [0..<length ps]"

definition record_rtt :: "CheckPair \<Rightarrow> unit session" where
  "record_rtt p =
     whenM (cp_txn_send_us p \<noteq> 0) (modify (\<lambda>s.
       let sample = ss_now s - cp_txn_send_us p; cur = ss_rtt_ewma_us s
       in s\<lparr>ss_rtt_ewma_us := (if cur = 0 then sample else (cur * 7 + sample) div 8)\<rparr>))"

definition prflx_candidate :: "inet \<Rightarrow> MappedAddress \<Rightarrow> Candidate" where
  "prflx_candidate I mapped =
     (set_address I (ma_ip mapped) (empty_candidate\<lparr>cand_type := Prflx\<rparr>))
       \<lparr>cand_port := ma_port mapped, cand_priority := compute_priority Prflx 65535 1\<rparr>"

definition learn_prflx :: "session_env \<Rightarrow> StunMessage \<Rightarrow> CheckPair \<Rightarrow> unit session" where
  "learn_prflx E msg p =
     (case sm_xor_mapped msg of
        None \<Rightarrow> return ()
      | Some mapped \<Rightarrow>
          whenM (ma_ip mapped \<noteq> address_str (se_inet E) (cp_local p) \<or> ma_port mapped \<noteq> cand_port (cp_local p))
            (push_local (prflx_candidate (se_inet E) mapped)))"

text \<open>The nomination of the pair whose check just succeeded, on the controlling side.\<close>

definition nominate_pair :: "session_env \<Rightarrow> CheckPair \<Rightarrow> unit session" where
  "nominate_pair E p = do {
     let ip = address_str (se_inet E) (cp_remote p);
     let port = cand_port (cp_remote p);
     let relay = (cand_type (cp_local p) = Relay \<or> cand_type (cp_remote p) = Relay);
     ready \<leftarrow> gets turn_ready;
     cid \<leftarrow> (if transport_is_tcp (cp_transport_type p) then ensure_remote_tcp_cid E ip port
            else if cand_type (cp_local p) = Relay \<and> cp_transport_type p = Udp \<and> ready
            then relay_cid_for_endpoint ip port
            else ensure_remote_cid E ip port);
     on_nominated E ip port relay cid (cp_transport_type p)
   }"

definition check_succeeded :: "session_env \<Rightarrow> StunMessage \<Rightarrow> nat \<Rightarrow> unit session" where
  "check_succeeded E msg i = do {
     p \<leftarrow> gets (\<lambda>s. ss_check_list s ! i);
     record_rtt p;
     modify (\<lambda>s. s\<lparr>ss_nominated_local_type := cand_type (cp_local p),
       ss_nominated_remote_type := cand_type (cp_remote p)\<rparr>);
     learn_prflx E msg p;
     update_pair i (\<lambda>p. p\<lparr>cp_valid := True, cp_state := Succeeded\<rparr>);
     session_unfreeze_siblings (cand_foundation (cp_local p)) (cand_foundation (cp_remote p));
     controlling \<leftarrow> gets ss_controlling;
     aggressive \<leftarrow> gets (\<lambda>s. cf_aggressive_nomination (ss_cfg s));
     selected \<leftarrow> gets ss_nominee_selected;
     if \<not> controlling \<and> cp_pending_nomination p
     then do {
       update_pair i (\<lambda>p. p\<lparr>cp_pending_nomination := False\<rparr>);
       ip \<leftarrow> gets ss_pending_nom_ip;
       port \<leftarrow> gets ss_pending_nom_port;
       relay \<leftarrow> gets ss_pending_nom_relay;
       cid \<leftarrow> gets ss_pending_nom_cid;
       tx \<leftarrow> gets ss_pending_nom_tx;
       on_nominated E ip port relay cid tx
     }
     else if controlling \<and> (aggressive \<or> cp_nominee_check_sent p) then nominate_pair E p
     else whenM (controlling \<and> \<not> selected \<and> \<not> cp_valid p) (nominate_best E)
   }"

definition handle_check_response :: "session_env \<Rightarrow> StunMessage \<Rightarrow> unit session" where
  "handle_check_response E msg = do {
     st \<leftarrow> gets ss_state;
     found \<leftarrow> gets (\<lambda>s. find_txn (sm_txn_id msg) (ss_check_list s));
     if st \<noteq> Checking then return ()
     else case found of None \<Rightarrow> return () | Some i \<Rightarrow> check_succeeded E msg i
   }"

section \<open>Binding requests\<close>

definition kStunErrorReasonRoleConflict :: string where
  "kStunErrorReasonRoleConflict = ''Role Conflict''"

text \<open>A reply on the path the request came in on.\<close>

definition reply_to :: "session_env \<Rightarrow> conn_id \<Rightarrow> bool \<Rightarrow> bytes \<Rightarrow> unit session" where
  "reply_to E cid from_tcp msg = do {
     tcp \<leftarrow> gets ss_carrier_tcp;
     udp \<leftarrow> gets ss_carrier;
     via_turn \<leftarrow> gets (\<lambda>s. ss_turn s \<noteq> None \<and> cid \<in> ss_relay_cids s);
     ep \<leftarrow> gets (\<lambda>s. ss_cid_udp s cid);
     if from_tcp then whenM tcp (emit (Send CarrierTcp cid (frame_tcp_stun msg)))
     else if via_turn
     then (case ep of
        None \<Rightarrow> return ()
      | Some e \<Rightarrow> whenM (ep_ip e \<noteq> []) (on_turn E (\<lambda>T. send_indication T (ep_ip e) (ep_port e) msg)))
     else whenM udp (emit (Send CarrierUdp cid msg))
   }"

definition role_conflict_response :: "session_env \<Rightarrow> TransactionId \<Rightarrow> string \<Rightarrow> bytes" where
  "role_conflict_response E txn pwd =
     build (add_fingerprint (add_integrity (se_hmac E) pwd
       (add_error_code 487 kStunErrorReasonRoleConflict (new_builder STUN_BINDING_ERROR txn))))"

definition binding_response :: "session_env \<Rightarrow> TransactionId \<Rightarrow> string \<Rightarrow> bytes" where
  "binding_response E txn pwd =
     build (add_fingerprint (add_integrity (se_hmac E) pwd (new_builder STUN_BINDING_RESPONSE txn)))"

definition find_remote :: "inet \<Rightarrow> string \<Rightarrow> u16 \<Rightarrow> TransportType \<Rightarrow> CheckPair list \<Rightarrow> nat option" where
  "find_remote I ip port tx ps =
     find (\<lambda>i. address_str I (cp_remote (ps ! i)) = ip \<and> cand_port (cp_remote (ps ! i)) = port \<and>
               cp_transport_type (ps ! i) = tx) [0..<length ps]"

definition defer_nomination :: "string \<Rightarrow> u16 \<Rightarrow> bool \<Rightarrow> conn_id \<Rightarrow> TransportType \<Rightarrow> unit session" where
  "defer_nomination ip port relay cid tx =
     modify (\<lambda>s. s\<lparr>ss_pending_nom_ip := ip, ss_pending_nom_port := port, ss_pending_nom_relay := relay,
       ss_pending_nom_cid := cid, ss_pending_nom_tx := tx\<rparr>)"

definition on_use_candidate :: "session_env \<Rightarrow> string \<Rightarrow> u16 \<Rightarrow> conn_id \<Rightarrow> bool \<Rightarrow> unit session" where
  "on_use_candidate E peer_ip peer_port cid from_tcp = do {
     let tx = (if from_tcp then TcpActive else Udp);
     relay \<leftarrow> gets (\<lambda>s. \<not> from_tcp \<and> cid \<in> ss_relay_cids s);
     found \<leftarrow> gets (\<lambda>s. find_remote (se_inet E) peer_ip peer_port tx (ss_check_list s));
     verified \<leftarrow> gets (\<lambda>s. case found of None \<Rightarrow> False | Some i \<Rightarrow> cp_state (ss_check_list s ! i) = Succeeded);
     if verified then on_nominated E peer_ip peer_port relay cid tx
     else do {
       (case found of
          None \<Rightarrow> return ()
        | Some i \<Rightarrow> update_pair i (\<lambda>p. p\<lparr>cp_state := (if cp_state p = Frozen then Waiting else cp_state p),
            cp_pending_nomination := True\<rparr>));
       defer_nomination peer_ip peer_port relay cid tx;
       run_next_check E
     }
   }"

definition triggered_pair :: "session_env \<Rightarrow> bool \<Rightarrow> TransactionId \<Rightarrow> Candidate \<Rightarrow> Candidate \<Rightarrow> CheckPair" where
  "triggered_pair E controlling txn local remote =
     empty_pair\<lparr>cp_local := fill_foundation (se_inet E) local, cp_remote := fill_foundation (se_inet E) remote,
       cp_triggered := True, cp_priority := pair_priority (cand_priority local) (cand_priority remote) controlling,
       cp_txn_id := txn, cp_state := InProgress\<rparr>"

definition maybe_trigger_check_from_peer :: "session_env \<Rightarrow> string \<Rightarrow> u16 \<Rightarrow> unit session" where
  "maybe_trigger_check_from_peer E peer_ip peer_port = do {
     let I = se_inet E;
     locals \<leftarrow> gets ss_local_candidates;
     lite \<leftarrow> gets (\<lambda>s. cf_lite_mode (ss_cfg s));
     covered \<leftarrow> gets (\<lambda>s. list_ex (\<lambda>p. address_str I (cp_remote p) = peer_ip \<and>
       cand_port (cp_remote p) = peer_port) (ss_check_list s));
     if peer_ip = [] \<or> locals = [] \<or> lite \<or> covered then return ()
     else do {
       let remote = (set_address I peer_ip empty_candidate)\<lparr>cand_port := peer_port, cand_type := Prflx,
                      cand_priority := compute_priority Prflx 65535 1\<rparr>;
       case find (\<lambda>l. cand_family l = cand_family remote) locals of
         None \<Rightarrow> return ()
       | Some local \<Rightarrow> do {
           controlling \<leftarrow> gets ss_controlling;
           txn \<leftarrow> generate_txn_id E;
           let p = triggered_pair E controlling txn local remote;
           pending \<leftarrow> gets (\<lambda>s. \<not> controlling \<and> ss_pending_nom_ip s \<noteq> [] \<and>
             address_str I (cp_remote p) = ss_pending_nom_ip s \<and> cand_port (cp_remote p) = ss_pending_nom_port s);
           modify (\<lambda>s. s\<lparr>ss_check_list := ss_check_list s @ [p\<lparr>cp_pending_nomination := pending\<rparr>]\<rparr>);
           st \<leftarrow> gets ss_state;
           n \<leftarrow> gets (\<lambda>s. length (ss_check_list s));
           whenM (st = Checking \<or> st = Connected) (send_check E (n - 1))
         }
     }
   }"

text \<open>The part of \<open>handle_binding_request\<close> after the role check.\<close>

definition answer_binding_request :: "session_env \<Rightarrow> StunMessage \<Rightarrow> conn_id \<Rightarrow> bool \<Rightarrow> unit session" where
  "answer_binding_request E parsed cid from_tcp = do {
     pwd \<leftarrow> gets ss_local_pwd;
     ep \<leftarrow> gets (\<lambda>s. if from_tcp then ss_cid_tcp s cid else ss_cid_udp s cid);
     let peer_ip = (case ep of None \<Rightarrow> [] | Some e \<Rightarrow> ep_ip e);
     let peer_port = (case ep of None \<Rightarrow> 0 | Some e \<Rightarrow> ep_port e);
     reply_to E cid from_tcp (binding_response E (sm_txn_id parsed) pwd);
     controlling \<leftarrow> gets ss_controlling;
     whenM (sm_use_candidate parsed \<and> \<not> controlling \<and> peer_ip \<noteq> [])
       (on_use_candidate E peer_ip peer_port cid from_tcp);
     maybe_trigger_check_from_peer E peer_ip peer_port
   }"

definition handle_binding_request :: "session_env \<Rightarrow> StunMessage \<Rightarrow> conn_id \<Rightarrow> bool \<Rightarrow> unit session" where
  "handle_binding_request E parsed cid from_tcp = do {
     let sender_controlling = (sm_ice_controlling parsed \<noteq> None);
     let sender_controlled = (sm_ice_controlled parsed \<noteq> None);
     let sender_tb = (case sm_ice_controlling parsed of Some tb \<Rightarrow> tb
                      | None \<Rightarrow> (case sm_ice_controlled parsed of Some tb \<Rightarrow> tb | None \<Rightarrow> 0));
     same_role \<leftarrow> gets (\<lambda>s. (sender_controlling \<and> ss_controlling s) \<or> (sender_controlled \<and> \<not> ss_controlling s));
     switched \<leftarrow> (if same_role then handle_role_conflict E sender_controlling sender_tb else return False);
     pwd \<leftarrow> gets ss_local_pwd;
     if same_role \<and> \<not> switched then reply_to E cid from_tcp (role_conflict_response E (sm_txn_id parsed) pwd)
     else answer_binding_request E parsed cid from_tcp
   }"

section \<open>Inbound bytes\<close>

text \<open>An authenticated STUN message.\<close>

definition on_peer_stun :: "session_env \<Rightarrow> StunMessage \<Rightarrow> conn_id \<Rightarrow> bool \<Rightarrow> unit session" where
  "on_peer_stun E msg cid from_tcp = do {
     st \<leftarrow> gets ss_state;
     if sm_msg_type msg = STUN_BINDING_ERROR
     then
       (if sm_error_code msg = Some 487 then switch_role E
        else do {
          found \<leftarrow> gets (\<lambda>s. find_txn (sm_txn_id msg) (ss_check_list s));
          case found of None \<Rightarrow> return () | Some i \<Rightarrow> fail_pair i
        })
     else if sm_msg_type msg = STUN_BINDING_RESPONSE
     then do {
       probe_ack \<leftarrow> gets (\<lambda>s. ss_pmtu_inflight s \<and> sm_txn_id msg = ss_pmtu_inflight_txn s);
       if probe_ack then on_path_mtu_probe_response E
       else if st = Connected then modify (\<lambda>s. s\<lparr>ss_consent_missed := 0\<rparr>)
       else handle_check_response E msg
     }
     else whenM (sm_msg_type msg = STUN_BINDING_REQUEST) (handle_binding_request E msg cid from_tcp)
   }"

text \<open>\<open>verify_integrity\<close> may read past the buffer; \<open>BadCall\<close> marks that.\<close>

definition on_stun :: "session_env \<Rightarrow> bytes \<Rightarrow> StunMessage \<Rightarrow> conn_id \<Rightarrow> bool \<Rightarrow> unit session" where
  "on_stun E data msg cid from_tcp = do {
     probes \<leftarrow> gets ss_pending_stun_probes;
     ep \<leftarrow> gets (\<lambda>s. if from_tcp then ss_cid_tcp s cid else ss_cid_udp s cid);
     key \<leftarrow> gets (\<lambda>s. if sm_msg_type msg = STUN_BINDING_RESPONSE \<or> sm_msg_type msg = STUN_BINDING_ERROR
                       then ss_remote_pwd s else ss_local_pwd s);
     if sm_msg_type msg = STUN_BINDING_RESPONSE \<and> sm_txn_id msg \<in> set probes
     then handle_gather_response E msg (case ep of None \<Rightarrow> Udp | Some e \<Rightarrow> ep_transport e)
     else if \<not> sm_has_integrity msg then return ()
     else case verify_integrity (se_hmac E) data key of
       None \<Rightarrow> emit BadCall
     | Some ok \<Rightarrow> whenM ok (on_peer_stun E msg cid from_tcp)
   }"

definition is_server_cid :: "SessionTurn option \<Rightarrow> conn_id \<Rightarrow> bool" where
  "is_server_cid t cid \<longleftrightarrow>
     (case t of None \<Rightarrow> False | Some t \<Rightarrow> tc_server_cid (st_client t) \<noteq> 0 \<and> cid = tc_server_cid (st_client t))"

definition on_app_data :: "bytes \<Rightarrow> bool \<Rightarrow> unit session" where
  "on_app_data data from_tcp = do {
     deliver \<leftarrow> gets (\<lambda>s. ss_state s = Connected \<and> ss_cb_data s);
     ordered \<leftarrow> gets (\<lambda>s. cf_ordered_delivery (ss_cfg s));
     whenM deliver
       (if ordered \<and> \<not> from_tcp then session_deliver_in_order data else emit (OnData data))
   }"

definition on_carrier_data :: "session_env \<Rightarrow> conn_id \<Rightarrow> bytes \<Rightarrow> bool \<Rightarrow> unit session" where
  "on_carrier_data E cid data from_tcp = do {
     modify (\<lambda>s. s\<lparr>ss_last_activity := ss_now s\<rparr>);
     to_turn \<leftarrow> gets (\<lambda>s. is_server_cid (ss_turn s) cid);
     to_backup \<leftarrow> gets (\<lambda>s. is_server_cid (ss_turn_backup_probe s) cid);
     if to_turn then on_turn E (\<lambda>T. on_inbound T data)
     else if to_backup then on_backup E (\<lambda>T. on_inbound T data)
     else case parsed_value (parse_stun (se_inet E) data) of
       Some msg \<Rightarrow> on_stun E data msg cid from_tcp
     | None \<Rightarrow> on_app_data data from_tcp
   }"

text \<open>
  The frames a TCP carrier delivers. The loop works on a reference to the reassembly buffer and reads
  its size after every frame; when a handler has removed the buffer this access is to a destroyed object.
\<close>

fun on_tcp_frames :: "session_env \<Rightarrow> conn_id \<Rightarrow> bytes list \<Rightarrow> unit session" where
  "on_tcp_frames E cid [] = return ()"
| "on_tcp_frames E cid (frame # frames) = do {
     on_carrier_data E cid frame True;
     alive \<leftarrow> gets (\<lambda>s. ss_tcp_rx_buffers s cid \<noteq> None);
     if \<not> alive then emit BadCall else on_tcp_frames E cid frames
   }"

definition on_tcp_carrier_data :: "session_env \<Rightarrow> conn_id \<Rightarrow> bytes \<Rightarrow> unit session" where
  "on_tcp_carrier_data E cid bytes = do {
     modify (\<lambda>s. s\<lparr>ss_tcp_connect_timers := ss_tcp_connect_timers s - {cid}\<rparr>);
     buf \<leftarrow> gets (\<lambda>s. case ss_tcp_rx_buffers s cid of None \<Rightarrow> [] | Some b \<Rightarrow> b);
     let (frames, rest) = drain_tcp (buf @ bytes);
     modify (\<lambda>s. s\<lparr>ss_tcp_rx_buffers := (ss_tcp_rx_buffers s)(cid \<mapsto> rest)\<rparr>);
     on_tcp_frames E cid frames
   }"

definition on_tcp_connect_timeout :: "session_env \<Rightarrow> conn_id \<Rightarrow> unit session" where
  "on_tcp_connect_timeout E cid = do {
     modify (\<lambda>s. s\<lparr>ss_tcp_connect_timers := ss_tcp_connect_timers s - {cid}\<rparr>);
     ep \<leftarrow> gets (\<lambda>s. ss_cid_tcp s cid);
     carrier \<leftarrow> gets ss_carrier_tcp;
     case ep of
       None \<Rightarrow> return ()
     | Some e \<Rightarrow>
         if \<not> transport_is_tcp (ep_transport e) then return ()
         else do {
           whenM carrier (emit (Disconnect CarrierTcp cid));
           modify (\<lambda>s. s\<lparr>ss_cid_tcp := (ss_cid_tcp s)(cid := None),
             ss_tcp_rx_buffers := (ss_tcp_rx_buffers s)(cid := None)\<rparr>);
           n \<leftarrow> gets (\<lambda>s. length (ss_check_list s));
           for_each (\<lambda>i. do {
             hit \<leftarrow> gets (\<lambda>s. let p = ss_check_list s ! i in
               cp_state p = InProgress \<and> transport_is_tcp (cp_transport_type p) \<and>
               address_str (se_inet E) (cp_remote p) = ep_ip e \<and> cand_port (cp_remote p) = ep_port e);
             whenM hit (fail_pair i)
           }) [0..<n]
         }
   }"

section \<open>Construction and queries\<close>

definition new_session ::
  "session_env \<Rightarrow> IceConfig \<Rightarrow> string \<Rightarrow> bool \<Rightarrow> u64 \<Rightarrow> Session \<Rightarrow> Session" where
  "new_session E cfg peer_id controlling tiebreaker surroundings =
     exec (do {
       ufrag \<leftarrow> generate_ufrag E;
       pwd \<leftarrow> generate_pwd E;
       modify (\<lambda>s. s\<lparr>ss_local_ufrag := ufrag, ss_local_pwd := pwd\<rparr>)
     })
     (surroundings\<lparr>ss_cfg := cfg, ss_peer_id := peer_id,
        ss_controlling := (if cf_lite_mode cfg then False else controlling),
        ss_tiebreaker := tiebreaker, ss_effective_mtu := word_of_int (cf_path_mtu cfg),
        ss_last_activity := ss_now surroundings\<rparr>)"

text \<open>The default values of the members, with every carrier, callback and timer context present.\<close>

definition blank_session :: Session where
  "blank_session = \<lparr>
     ss_cfg = default_ice_config, ss_peer_id = [], ss_carrier = True, ss_carrier_tcp = True,
     ss_carrier_tls = True, ss_portmap_ext = False, ss_mdns = False, ss_timer_ctx = True,
     ss_cb_gathered = True, ss_cb_connected = True, ss_cb_failed = True, ss_cb_data = True,
     ss_cb_auto_restart = True,
     ss_state = New, ss_controlling = False, ss_tiebreaker = 0, ss_local_ufrag = [],
     ss_local_pwd = [], ss_local_candidates = [], ss_remote_ufrag = [], ss_remote_pwd = [],
     ss_remote_candidates = [], ss_check_list = [],
     ss_nominated_ip = [], ss_nominated_port = 0, ss_uses_relay = False, ss_rtt_ewma_us = 0,
     ss_nominated_local_type = Host, ss_nominated_remote_type = Host, ss_nominated_cid = 0,
     ss_nominated_transport = Udp, ss_nomination_wait_armed = False, ss_nominee_selected = False,
     ss_pending_nom_ip = [], ss_pending_nom_port = 0, ss_pending_nom_relay = False,
     ss_pending_nom_cid = 0, ss_pending_nom_tx = Udp,
     ss_local_port = 0, ss_carrier_initialized = False, ss_endpoint_to_cid = Map.empty,
     ss_cid_udp = Map.empty, ss_cid_tcp = Map.empty, ss_relay_endpoint_to_cid = Map.empty,
     ss_relay_cids = {}, ss_next_relay_cid = 0xC000000000000000, ss_tcp_rx_buffers = Map.empty,
     ss_tcp_connect_timers = {}, ss_pending_app_data = [], ss_pending_stun_probes = [],
     ss_mdns_local_hostname = [], ss_portmap_mapping = None,
     ss_turn = None, ss_turn_attempt_idx = 0, ss_turn_backups = [], ss_turn_backup_probe = None,
     ss_turn_backup_probe_idx = 0, ss_turn_last_failover = None, ss_consent_missed = 0,
     ss_consent_recovery_attempts = 0, ss_auto_restart_attempts = 0, ss_auto_restart_last = None,
     ss_remote_end_of_candidates = False, ss_gathered_signal_fired = False,
     ss_stun_gathered = False, ss_turn_gathering = False,
     ss_peer_signal_flags = 0, ss_symmetric_stride = 0, ss_first_observed_srflx_port = 0,
     ss_have_first_srflx_port = False, ss_pmtu_probe = None, ss_pmtu_inflight_txn = replicate 12 0,
     ss_pmtu_inflight = False, ss_effective_mtu = 0, ss_send_data_seq = 0,
     ss_reorder = new_reorder, ss_last_activity = 0,
     ss_gen = (\<lambda>_. 0), ss_txn_count = 0, ss_connect_count = 0, ss_uniform_count = 0,
     ss_uuid_count = 0, ss_turn_count = 0, ss_now = 0, ss_log = []\<rparr>"

record NominationMetrics =
  nm_rtt_us :: u64
  nm_local_type :: CandidateType
  nm_remote_type :: CandidateType
  nm_transport :: TransportType
  nm_uses_relay :: bool
  nm_nominated :: bool

definition nomination_metrics :: "Session \<Rightarrow> NominationMetrics" where
  "nomination_metrics s =
     (if ss_state s \<noteq> Connected
      then \<lparr>nm_rtt_us = 0, nm_local_type = Host, nm_remote_type = Host, nm_transport = Udp,
            nm_uses_relay = False, nm_nominated = False\<rparr>
      else \<lparr>nm_rtt_us = ss_rtt_ewma_us s, nm_local_type = ss_nominated_local_type s,
            nm_remote_type = ss_nominated_remote_type s, nm_transport = ss_nominated_transport s,
            nm_uses_relay = ss_uses_relay s, nm_nominated = True\<rparr>)"

record CandidateCounts =
  cc_host :: nat
  cc_srflx :: nat
  cc_relay :: nat
  cc_prflx :: nat

definition count_types :: "Candidate list \<Rightarrow> CandidateCounts" where
  "count_types cs = \<lparr>
     cc_host = length (filter (\<lambda>c. cand_type c = Host \<or> cand_type c = HostMdns) cs),
     cc_srflx = length (filter (\<lambda>c. cand_type c = Srflx) cs),
     cc_relay = length (filter (\<lambda>c. cand_type c = Relay) cs),
     cc_prflx = length (filter (\<lambda>c. cand_type c = Prflx) cs)\<rparr>"

definition candidate_counts :: "Session \<Rightarrow> CandidateCounts \<times> CandidateCounts" where
  "candidate_counts s = (count_types (ss_local_candidates s), count_types (ss_remote_candidates s))"

text \<open>The test seams; \<open>run_check_tick_for_test\<close> and \<open>handle_role_conflict_for_test\<close> only forward.\<close>

definition check_list_states_for_test :: "Session \<Rightarrow> PairState list" where
  "check_list_states_for_test s = map cp_state (ss_check_list s)"

definition set_pair_state_for_test :: "nat \<Rightarrow> PairState \<Rightarrow> unit session" where
  "set_pair_state_for_test idx st = do {
     n \<leftarrow> gets (\<lambda>s. length (ss_check_list s));
     whenM (idx < n) (update_pair idx (\<lambda>p. p\<lparr>cp_state := st\<rparr>))
   }"

section \<open>Events\<close>

definition run_task :: "session_env \<Rightarrow> Task \<Rightarrow> unit session" where
  "run_task E t =
     (case t of
        TaskStartProbes \<Rightarrow> run_start_probes E
      | TaskTurnAttempt \<Rightarrow> try_next_turn_attempt E
      | TaskOnAlloc c \<Rightarrow> on_alloc E c
      | TaskBackupAlloc cfg \<Rightarrow> on_backup_alloc E cfg
      | TaskRelayStun ip port data \<Rightarrow> do {
          cid \<leftarrow> relay_cid_for_endpoint ip port;
          on_carrier_data E cid data False
        }
      | TaskAppData buf \<Rightarrow> run_app_data E buf)"

definition timer_body :: "session_env \<Rightarrow> TimerKind \<Rightarrow> unit session" where
  "timer_body E k =
     (case k of
        CheckTimer \<Rightarrow> run_next_check E
      | KeepaliveTimer \<Rightarrow> on_keepalive E
      | GatherTimer \<Rightarrow> on_gather_timer E
      | GatherFallbackTimer \<Rightarrow> on_gathering_complete E
      | NominationWaitTimer \<Rightarrow> on_nomination_wait_timer
      | TurnAllocateTimer \<Rightarrow> on_turn_allocate_timer E
      | TurnBackupTimer \<Rightarrow> on_turn_backup_tick E
      | PmtuTimer \<Rightarrow> on_path_mtu_probe_timeout E)"

definition on_timer :: "session_env \<Rightarrow> TimerKind \<Rightarrow> u32 \<Rightarrow> unit session" where
  "on_timer E k gen = do {
     current \<leftarrow> gets (\<lambda>s. ss_gen s (gen_of k));
     whenM (current = gen) (timer_body E k)
   }"

datatype Event =
    EvGather
  | EvSetRemote string string "Candidate list"
  | EvAddRemote string string "Candidate list" bool
  | EvPeerFlags u32
  | EvSend bytes
  | EvRestart
  | EvClose
  | EvDestroy
  | EvCarrierData conn_id bytes
  | EvTcpCarrierData conn_id bytes
  | EvTurnStream bytes
  | EvBackupStream bytes
  | EvTurnRefresh
  | EvBackupRefresh
  | EvTcpConnectTimeout conn_id
  | EvMdnsResolved nat string MdnsResolveResult
  | EvTimer TimerKind u32
  | EvTask Task

definition handle_event :: "session_env \<Rightarrow> Event \<Rightarrow> unit session" where
  "handle_event E e =
     (case e of
        EvGather \<Rightarrow> gather E
      | EvSetRemote ufrag pwd cands \<Rightarrow> set_remote E ufrag pwd cands
      | EvAddRemote ufrag pwd cands eoc \<Rightarrow> add_remote_candidates E ufrag pwd cands eoc
      | EvPeerFlags flags \<Rightarrow> set_peer_signal_flags E flags
      | EvSend data \<Rightarrow> session_send data
      | EvRestart \<Rightarrow> restart E
      | EvClose \<Rightarrow> close E
      | EvDestroy \<Rightarrow> destroy E
      | EvCarrierData cid data \<Rightarrow> on_carrier_data E cid data False
      | EvTcpCarrierData cid data \<Rightarrow> on_tcp_carrier_data E cid data
      | EvTurnStream data \<Rightarrow> on_turn E (\<lambda>T. on_inbound T data)
      | EvBackupStream data \<Rightarrow> on_backup E (\<lambda>T. on_inbound T data)
      | EvTurnRefresh \<Rightarrow> on_turn E on_refresh_timer
      | EvBackupRefresh \<Rightarrow> on_backup E on_refresh_timer
      | EvTcpConnectTimeout cid \<Rightarrow> on_tcp_connect_timeout E cid
      | EvMdnsResolved idx hostname r \<Rightarrow> on_mdns_resolved E idx hostname r
      | EvTimer k gen \<Rightarrow> on_timer E k gen
      | EvTask t \<Rightarrow> run_task E t)"

text \<open>One event at a time of the clock; the output are the effects of this event.\<close>

definition session_step :: "session_env \<Rightarrow> u64 \<times> Event \<Rightarrow> Session \<Rightarrow> Session \<times> Effect list" where
  "session_step E te s =
     (let s' = exec (handle_event E (snd te)) (s\<lparr>ss_now := fst te, ss_log := []\<rparr>) in (s', ss_log s'))"

end
