(* ===== verification/Session_Orders.thy ===== *)
theory Session_Orders
  imports Session_Input
begin

text \<open>
  What the operations of a session may do to its role, its state and its credentials. The locales
  are contracts on a preorder of states, each allowing more changes than the one before; every
  operation is shown once to respect the weakest contract it can. Session-wide invariants are
  interpretations of the locales.
\<close>

section \<open>Operations that leave the core alone\<close>

definition core :: "Session \<Rightarrow> SessionState \<times> string \<times> string \<times> bool \<times> string" where
  "core s = (ss_state s, ss_local_pwd s, ss_remote_pwd s, ss_controlling s, ss_peer_id s)"

definition net_frame :: "Session \<Rightarrow> (SessionState \<times> string \<times> string \<times> bool \<times> string) \<times> CheckPair list \<times>
    IceConfig \<times> bool \<times> bool \<times> bool \<times> u32 \<times> u64 option" where
  "net_frame s = (core s, ss_check_list s, ss_cfg s, ss_timer_ctx s, ss_cb_failed s, ss_nomination_wait_armed s,
     ss_consent_missed s, ss_auto_restart_last s)"

lemmas frame_defs = net_frame_def core_def

text \<open>Carriers, TURN clients and application data change neither the core nor the check list.\<close>

locale net_order = step_order R for R :: "Session \<Rightarrow> Session \<Rightarrow> bool" +
  assumes frame_net: "net_frame b = net_frame a \<Longrightarrow> R a b"
begin

lemma quiet: "net_frame (f s) = net_frame s \<Longrightarrow> effect R (modify f) s"
  by (rule effect_modify) (rule frame_net)

lemma quiet_bind:
  "net_frame (f s) = net_frame s \<Longrightarrow> effect R (g ()) (f s) \<Longrightarrow> effect R (modify f \<bind> g) s"
  using bind [OF quiet, of f s g] by simp

lemma quiet_emit: "effect R (emit e) s"
  unfolding emit_def by (rule quiet) (simp add: frame_defs)

lemma quiet_gathered: "effect R emit_gathered s"
  unfolding emit_gathered_def by (intro rules quiet_emit)

lemma quiet_bump: "effect R (bump k) s"
  unfolding bump_def by (rule quiet) (simp add: frame_defs)

lemma quiet_arm_timer: "effect R (arm_timer k ms) s"
  unfolding arm_timer_def by (intro rules quiet_bump quiet_emit)

lemma quiet_txn: "effect R (generate_txn_id E) s"
  unfolding generate_txn_id_def by (intro rules quiet) (simp_all add: frame_defs)

lemma quiet_carrier_connect: "effect R (carrier_connect E k uri) s"
  unfolding carrier_connect_def by (intro rules quiet quiet_emit) (simp_all add: frame_defs)

lemma quiet_ensure_remote_cid: "effect R (ensure_remote_cid E ip port) s"
  unfolding ensure_remote_cid_def by (intro rules quiet quiet_carrier_connect) (simp_all add: frame_defs)

lemma quiet_relay_cid: "effect R (relay_cid_for_endpoint ip port) s"
  unfolding relay_cid_for_endpoint_def by (intro rules quiet) (simp_all add: frame_defs)

lemma quiet_ensure_remote_tcp_cid: "effect R (ensure_remote_tcp_cid E ip port) s"
  unfolding ensure_remote_tcp_cid_def
  by (intro rules quiet quiet_carrier_connect quiet_emit) (simp_all add: frame_defs)

lemma quiet_arm_tcp_so: "effect R (arm_tcp_so_connect E ip port) s"
  unfolding arm_tcp_so_connect_def by (rule quiet_ensure_remote_tcp_cid)

lemma quiet_tear_down: "effect R tear_down_cids s"
  unfolding tear_down_cids_def by (intro rules quiet quiet_emit) (simp_all add: frame_defs)

lemma quiet_deliver: "effect R (session_deliver_in_order raw) s"
  unfolding session_deliver_in_order_def by (intro rules quiet quiet_emit) (simp_all add: frame_defs)

lemma quiet_turn_data: "effect R (on_turn_data ip port data) s"
  unfolding on_turn_data_def by (intro rules quiet quiet_emit quiet_deliver) (simp_all add: frame_defs)

lemma quiet_turn_action: "effect R (turn_action E t a) s"
  unfolding turn_action_def
  by (cases a; cases "st_callbacks t") (simp_all add: quiet_emit quiet_turn_data return)

lemma quiet_on_turn: "effect R (on_turn E f) s"
  unfolding on_turn_def by (intro rules quiet quiet_turn_action) (simp_all add: frame_defs)

lemma quiet_on_backup: "effect R (on_backup E f) s"
  unfolding on_backup_def by (intro rules quiet quiet_turn_action) (simp_all add: frame_defs)

lemmas quiet_net = quiet_emit quiet_gathered quiet_bump quiet_arm_timer quiet_txn quiet_ensure_remote_cid
  quiet_relay_cid quiet_ensure_remote_tcp_cid quiet_arm_tcp_so quiet_tear_down quiet_deliver
  quiet_on_turn quiet_on_backup

lemma quiet_send_on_strand: "effect R (send_on_strand E buf) s"
  unfolding send_on_strand_def by (intro rules quiet quiet_net) (simp_all add: frame_defs)

lemma quiet_flush: "effect R (flush_pending_app_data E) s"
  unfolding flush_pending_app_data_def by (intro rules quiet quiet_send_on_strand) (simp_all add: frame_defs)

lemma quiet_session_send: "effect R (session_send data) s"
  unfolding session_send_def by (intro rules quiet quiet_net) (simp_all add: frame_defs)

lemma quiet_run_app_data: "effect R (run_app_data E buf) s"
  unfolding run_app_data_def by (intro rules quiet quiet_send_on_strand) (simp_all add: frame_defs)

end

text \<open>The check list may change as well.\<close>

locale core_order = net_order +
  assumes frame: "core b = core a \<Longrightarrow> R a b"
begin

lemma quiet_core: "core (f s) = core s \<Longrightarrow> effect R (modify f) s"
  by (rule effect_modify) (rule frame)

lemma quiet_update_pair: "effect R (update_pair i f) s"
  unfolding update_pair_def by (rule quiet_core) (simp add: core_def)

lemma quiet_unfreeze: "effect R (session_unfreeze_siblings lf rf) s"
  unfolding session_unfreeze_siblings_def by (rule quiet_core) (simp add: core_def)

lemma quiet_fail_pair: "effect R (fail_pair i) s"
  unfolding fail_pair_def by (intro rules quiet_update_pair quiet_unfreeze)

lemma quiet_send_check: "effect R (send_check E i) s"
  unfolding send_check_def by (intro rules quiet_net quiet_update_pair quiet_fail_pair)

lemma quiet_build: "effect R (build_check_list E) s"
  unfolding build_check_list_def by (intro rules quiet_core) (simp_all add: core_def)

lemma quiet_retransmit: "effect R (retransmit E i) s"
  unfolding retransmit_def by (intro rules quiet_send_check quiet_fail_pair)

lemma quiet_start_pair: "effect R (start_pair E i) s"
  unfolding start_pair_def by (intro rules quiet_send_check quiet_update_pair)

lemma quiet_promote: "effect R (promote_waiting E is) s"
  by (induction "is" arbitrary: s) (auto intro!: rules quiet_start_pair)

lemma quiet_prefire: "effect R (prefire E a b is) s"
proof (induction "is" arbitrary: a b s)
  case Nil
  show ?case by (simp add: return)
next
  case (Cons i "is")
  show ?case unfolding prefire.simps by (intro rules quiet_start_pair Cons.IH)
qed

lemma quiet_probe: "effect R (start_path_mtu_probe E) s"
  unfolding start_path_mtu_probe_def by (intro rules quiet_core quiet_net) (simp_all add: core_def)

lemma quiet_pmtu_advance: "effect R (pmtu_advance E f pm) s"
  unfolding pmtu_advance_def by (intro rules quiet_core quiet_probe) (simp_all add: core_def)

lemma quiet_probe_timeout: "effect R (on_path_mtu_probe_timeout E) s"
  unfolding on_path_mtu_probe_timeout_def by (intro rules quiet_core quiet_pmtu_advance) (simp_all add: core_def)

lemma quiet_push_local: "effect R (push_local c) s"
  unfolding push_local_def by (rule quiet_core) (simp add: core_def)

lemmas quiet_checks = quiet_update_pair quiet_unfreeze quiet_fail_pair quiet_send_check quiet_build
  quiet_retransmit quiet_start_pair quiet_promote quiet_prefire quiet_probe quiet_probe_timeout
  quiet_push_local quiet_flush

end

section \<open>Operations that move between the states before nomination\<close>

locale check_order = core_order +
  assumes to_state: "st \<noteq> Connected \<Longrightarrow> R s (s\<lparr>ss_state := st\<rparr>)"
begin

lemma calm_fail_session: "effect R fail_session s"
  unfolding fail_session_def by (intro rules to_state quiet_net) simp_all

lemma calm_exhausted: "effect R checks_exhausted s"
  unfolding checks_exhausted_def by (intro rules quiet_core quiet_net calm_fail_session) (simp_all add: core_def)

lemma calm_run_next_check: "effect R (run_next_check E) s"
  unfolding run_next_check_def
  by (intro rules quiet_core quiet_net quiet_checks calm_exhausted) (simp_all add: core_def)

lemma calm_wait_timer: "effect R on_nomination_wait_timer s"
  unfolding on_nomination_wait_timer_def by (intro rules calm_fail_session)

lemma calm_begin_checks: "effect R (begin_checks E) s"
  unfolding begin_checks_def by (intro rules quiet_checks calm_run_next_check)

lemma calm_rebuild: "effect R (rebuild_and_run E) s"
  unfolding rebuild_and_run_def by (intro rules quiet_checks calm_run_next_check)

lemma calm_enter_checking: "effect R (enter_checking E) s"
  unfolding enter_checking_def by (intro rules to_state quiet_checks calm_begin_checks) simp_all

lemma calm_gathering_complete: "effect R (on_gathering_complete E) s"
  unfolding on_gathering_complete_def
  by (intro bind_all gets return whenM effect_if calm_enter_checking quiet_net effect_modify)
    (auto simp: core_def intro: to_state frame)

lemmas calm_checks = calm_fail_session calm_run_next_check calm_wait_timer calm_begin_checks
  calm_rebuild calm_enter_checking calm_gathering_complete

lemma calm_gather_host: "effect R (gather_host_candidates E) s"
  unfolding gather_host_candidates_def register_mdns_host_def gather_tcp_host_candidates_def
  by (intro rules quiet_core quiet_net quiet_checks) (simp_all add: core_def)

lemma calm_gather_portmap: "effect R (gather_portmap E) s"
  unfolding gather_portmap_def by (intro rules quiet_core quiet_checks) (simp_all add: core_def)

lemma calm_release_portmap: "effect R release_portmap_mapping s"
  unfolding release_portmap_mapping_def by (intro rules quiet_core quiet_net) (simp_all add: core_def)

lemma calm_probes: "effect R (run_start_probes E) s"
  unfolding run_start_probes_def start_multi_stun_probes_def gather_tcp_server_reflexive_def
    probe_server_def probe_server_tcp_def
  by (intro rules quiet_core quiet_net calm_checks) (simp_all add: core_def)

lemma calm_gather_timer: "effect R (on_gather_timer E) s"
  unfolding on_gather_timer_def by (intro rules quiet_core calm_checks) (simp_all add: core_def)

lemma calm_gather_response: "effect R (handle_gather_response E msg tx) s"
  unfolding handle_gather_response_def detect_stride_def
  by (intro rules quiet_core quiet_net quiet_checks calm_checks) (simp_all add: core_def)

lemma calm_build_turn: "effect R (build_turn_client E cfg cb) s"
  unfolding build_turn_client_def
  by (intro rules quiet_core quiet_net quiet_carrier_connect) (simp_all add: core_def)

lemma calm_turn_done: "effect R (turn_gather_done E) s"
  unfolding turn_gather_done_def by (intro rules quiet_core quiet_net calm_checks) (simp_all add: core_def)

lemma calm_skip_turn: "effect R skip_turn_attempt s"
  unfolding skip_turn_attempt_def by (intro rules quiet_core quiet_net) (simp_all add: core_def)

lemma calm_turn_attempt: "effect R (try_next_turn_attempt E) s"
  unfolding try_next_turn_attempt_def
  by (intro rules quiet_core quiet_net calm_build_turn calm_turn_done calm_skip_turn) (simp_all add: core_def)

lemma calm_turn_timer: "effect R (on_turn_allocate_timer E) s"
  unfolding on_turn_allocate_timer_def by (intro rules quiet_core calm_turn_attempt) (simp_all add: core_def)

lemma calm_on_alloc: "effect R (on_alloc E c) s"
  unfolding on_alloc_def
  by (intro rules quiet_core quiet_net quiet_checks calm_turn_done calm_checks) (simp_all add: core_def)

lemma calm_gather_relay: "effect R (gather_relay E) s"
  unfolding gather_relay_def by (intro rules quiet_core calm_turn_attempt) (simp_all add: core_def)

lemma calm_close_backup: "effect R (close_backup_probe E) s"
  unfolding close_backup_probe_def by (intro rules quiet_core quiet_net) (simp_all add: core_def)

lemma calm_backup_tick: "effect R (on_turn_backup_tick E) s"
  unfolding on_turn_backup_tick_def
  by (intro rules quiet_core quiet_net calm_close_backup calm_build_turn) (simp_all add: core_def)

lemma calm_promote_backup: "effect R (promote_turn_backup E t cfg) s"
  unfolding promote_turn_backup_def
  by (intro bind_all gets return whenM effect_if effect_Let calm_rebuild quiet_net quiet_checks effect_modify)
    (auto simp: core_def intro: to_state frame)

lemma calm_backup_alloc: "effect R (on_backup_alloc E cfg) s"
  unfolding on_backup_alloc_def
  by (intro rules quiet_core calm_close_backup calm_promote_backup) (simp_all add: core_def)

lemma calm_resolve: "effect R resolve_remote_mdns_candidates s"
  unfolding resolve_remote_mdns_candidates_def by (intro rules quiet_net)

lemma calm_resolved: "effect R (on_mdns_resolved E idx hostname r) s"
  unfolding on_mdns_resolved_def by (intro rules quiet_core calm_checks) (simp_all add: core_def)

lemma calm_gather: "effect R (gather E) s"
  unfolding gather_def
  by (intro rules to_state quiet_net calm_gather_host calm_gather_portmap calm_gather_relay calm_checks)
    simp_all

lemma calm_app_data: "effect R (on_app_data data tcp) s"
  unfolding on_app_data_def by (intro rules quiet_net)

lemma calm_close: "effect R (close E) s"
  unfolding close_def bump_all_def drop_mdns_name_def
  by (intro bind_all gets return whenM quiet_net calm_release_portmap effect_modify)
    (auto simp: core_def intro: to_state frame)

lemma calm_destroy: "effect R (destroy E) s"
  unfolding destroy_def bump_all_def drop_mdns_name_def
  by (intro bind_all gets return whenM quiet_net calm_release_portmap effect_modify)
    (auto simp: core_def intro: to_state frame)

lemma calm_flags: "effect R (set_peer_signal_flags E flags) s"
  unfolding set_peer_signal_flags_def by (intro rules quiet_core calm_checks) (simp_all add: core_def)

lemma calm_tcp_timeout: "effect R (on_tcp_connect_timeout E cid) s"
  unfolding on_tcp_connect_timeout_def by (intro rules quiet_core quiet_net quiet_checks) (simp_all add: core_def)

lemma calm_nominate_best: "effect R (nominate_best E) s"
  unfolding nominate_best_def by (intro rules quiet_core quiet_checks) (simp_all add: core_def)

lemmas calm_gathering = calm_probes calm_gather_timer calm_gather_response calm_turn_attempt
  calm_turn_timer calm_on_alloc calm_backup_tick calm_backup_alloc calm_resolve calm_resolved
  calm_gather calm_app_data calm_close calm_destroy calm_flags calm_tcp_timeout calm_nominate_best

end

section \<open>Operations that also change the credentials\<close>

locale creds_order = check_order +
  assumes set_local_pwd: "R s (s\<lparr>ss_local_pwd := p\<rparr>)"
    and set_remote_pwd: "R s (s\<lparr>ss_remote_pwd := p\<rparr>)"
begin

lemma creds_frame:
  "ss_state b = ss_state a \<Longrightarrow> ss_controlling b = ss_controlling a \<Longrightarrow> ss_peer_id b = ss_peer_id a \<Longrightarrow> R a b"
  by (rule trans [OF set_local_pwd [of a "ss_local_pwd b"]],
      rule trans [OF set_remote_pwd [of _ "ss_remote_pwd b"]], rule frame, simp add: core_def)

lemma creds_to_state:
  "ss_state b \<noteq> Connected \<Longrightarrow> ss_controlling b = ss_controlling a \<Longrightarrow> ss_peer_id b = ss_peer_id a \<Longrightarrow> R a b"
  by (rule trans [OF to_state [of "ss_state b"]]) (simp_all add: creds_frame)

lemma creds_modify:
  "ss_state (f s) = ss_state s \<Longrightarrow> ss_controlling (f s) = ss_controlling s \<Longrightarrow> ss_peer_id (f s) = ss_peer_id s \<Longrightarrow>
   effect R (modify f) s"
  by (rule effect_modify) (rule creds_frame)

lemma creds_random: "effect R (random_string E n) s"
  unfolding random_string_def by (intro rules quiet_core) (simp_all add: core_def)

lemma creds_restart: "effect R (restart E) s"
  unfolding restart_def bump_all_def drop_mdns_name_def generate_ufrag_def generate_pwd_def
  by (intro bind_all gets return whenM effect_if quiet_net creds_random calm_gather effect_modify)
    (auto intro: creds_frame creds_to_state)

lemma creds_consent_loss: "effect R (notify_consent_loss E) s"
  unfolding notify_consent_loss_def
  by (intro rules quiet_core quiet_net creds_restart calm_checks) (simp_all add: core_def)

lemma creds_send_keepalive: "effect R (send_keepalive E) s"
  unfolding send_keepalive_def by (intro rules quiet_net)

lemma creds_keepalive: "effect R (on_keepalive E) s"
  unfolding on_keepalive_def
  by (intro rules quiet_core quiet_net calm_checks creds_consent_loss creds_send_keepalive) (simp_all add: core_def)

lemma creds_set_remote: "effect R (set_remote E ufrag pwd cands) s"
  unfolding set_remote_def by (intro rules creds_modify calm_checks calm_resolve) simp_all

lemma creds_merge: "effect R (merge_candidate E c) s"
  unfolding merge_candidate_def by (intro rules quiet_core quiet_net) (simp_all add: core_def)

lemma creds_add_remote: "effect R (add_remote_candidates E ufrag pwd cands eoc) s"
  unfolding add_remote_candidates_def
  by (intro rules creds_modify quiet_net calm_checks calm_resolve calm_nominate_best creds_merge) simp_all

lemma creds_timer: "effect R (on_timer E k gen) s"
  unfolding on_timer_def timer_body_def
  by (intro rules; cases k)
    (simp_all add: calm_checks calm_gathering quiet_checks creds_keepalive)

end

section \<open>Operations that may nominate\<close>

locale nominate_order = creds_order +
  assumes to_connected: "R s (s\<lparr>ss_state := Connected\<rparr>)"
begin

lemma any_frame:
  assumes "ss_controlling b = ss_controlling a" and "ss_peer_id b = ss_peer_id a"
  shows "R a b"
proof (cases "ss_state b = Connected")
  case True
  have "R (a\<lparr>ss_state := Connected\<rparr>) b" by (rule creds_frame) (simp_all add: True assms)
  with to_connected show ?thesis by (rule trans)
next
  case False
  then show ?thesis using assms by (intro creds_to_state)
qed

lemma free_modify:
  "ss_controlling (f s) = ss_controlling s \<Longrightarrow> ss_peer_id (f s) = ss_peer_id s \<Longrightarrow> effect R (modify f) s"
  by (rule effect_modify) (rule any_frame)

lemma free_nominated: "effect R (on_nominated E ip port relay cid tx) s"
  unfolding on_nominated_def
  by (intro bind_all gets whenM free_modify quiet_net quiet_checks creds_keepalive) simp_all

lemma free_use_candidate: "effect R (on_use_candidate E ip port cid tcp) s"
  unfolding on_use_candidate_def defer_nomination_def
  by (intro bind_all gets return effect_if effect_option effect_Let free_modify free_nominated
      quiet_checks calm_checks) simp_all

lemma free_trigger: "effect R (maybe_trigger_check_from_peer E ip port) s"
  unfolding maybe_trigger_check_from_peer_def
  by (intro rules free_modify quiet_net quiet_checks) simp_all

lemma free_reply: "effect R (reply_to E cid tcp msg) s"
  unfolding reply_to_def by (intro rules quiet_net)

lemma free_answer: "effect R (answer_binding_request E msg cid tcp) s"
  unfolding answer_binding_request_def
  by (intro bind_all gets whenM effect_Let free_reply free_use_candidate free_trigger)

end

section \<open>Every operation\<close>

locale any_order = nominate_order +
  assumes set_role: "R s (s\<lparr>ss_controlling := c\<rparr>)"
begin

lemma peer_frame: "ss_peer_id b = ss_peer_id a \<Longrightarrow> R a b"
  by (rule trans [OF set_role [of a "ss_controlling b"]], rule any_frame) simp_all

lemma any_modify: "ss_peer_id (f s) = ss_peer_id s \<Longrightarrow> effect R (modify f) s"
  by (rule effect_modify) (rule peer_frame)

lemma any_switch_role: "effect R (switch_role E) s"
  unfolding switch_role_def by (intro rules any_modify calm_rebuild) simp_all

lemma any_role_conflict: "effect R (handle_role_conflict E c tb) s"
  unfolding handle_role_conflict_def by (intro rules any_switch_role)

lemma any_binding_request: "effect R (handle_binding_request E msg cid tcp) s"
  unfolding handle_binding_request_def
  by (intro rules any_role_conflict free_reply free_answer)

lemma any_check_succeeded: "effect R (check_succeeded E msg i) s"
  unfolding check_succeeded_def record_rtt_def learn_prflx_def nominate_pair_def
  by (intro rules any_modify quiet_net quiet_checks free_nominated calm_nominate_best) (simp_all add: Let_def)

lemma any_peer_stun: "effect R (on_peer_stun E msg cid tcp) s"
  unfolding on_peer_stun_def handle_check_response_def on_path_mtu_probe_response_def
  by (intro rules any_modify quiet_net quiet_checks quiet_pmtu_advance any_switch_role any_check_succeeded
      any_binding_request) simp_all

lemma any_carrier_data: "effect R (on_carrier_data E cid data tcp) s"
  unfolding on_carrier_data_def on_stun_def
  by (intro rules any_modify quiet_net calm_gather_response calm_app_data any_peer_stun) simp_all

lemma any_tcp_frames: "effect R (on_tcp_frames E cid frames) s"
proof (induction frames arbitrary: s)
  case (Cons f fs)
  show ?case unfolding on_tcp_frames.simps by (intro rules quiet_net any_carrier_data Cons.IH)
qed (simp add: return)

lemma any_tcp_carrier_data: "effect R (on_tcp_carrier_data E cid data) s"
  unfolding on_tcp_carrier_data_def by (intro rules any_modify any_tcp_frames) simp_all

lemma any_task: "effect R (run_task E t) s"
  unfolding run_task_def
  by (cases t) (auto simp: calm_gathering quiet_run_app_data any_carrier_data quiet_relay_cid intro!: bind_all)

lemma any_event: "effect R (handle_event E e) s"
  unfolding handle_event_def
  by (cases e) (auto simp: calm_gathering creds_set_remote creds_add_remote quiet_session_send
      creds_restart quiet_on_turn quiet_on_backup creds_timer any_carrier_data any_tcp_carrier_data any_task)

end

section \<open>Instances\<close>

text \<open>The password that authenticates a message, and the states that are not connected.\<close>

definition unconnected :: "string \<Rightarrow> string \<Rightarrow> Session \<Rightarrow> bool" where
  "unconnected lp rp s \<longleftrightarrow> ss_state s \<noteq> Connected \<and> ss_local_pwd s = lp \<and> ss_remote_pwd s = rp"

interpretation calm: check_order "keeps (unconnected lp rp)" for lp rp
  by unfold_locales (auto simp: keeps_def unconnected_def frame_defs)

interpretation offline: creds_order "keeps (\<lambda>s. ss_state s \<noteq> Connected)"
  by unfold_locales (auto simp: keeps_def frame_defs)

interpretation role: nominate_order "same ss_controlling"
  by unfold_locales (auto simp: same_def frame_defs)

interpretation peer: any_order "same ss_peer_id"
  by unfold_locales (auto simp: same_def frame_defs)

text \<open>The peer of a session never changes.\<close>

lemma session_step_peer [simp]: "ss_peer_id (fst (session_step E te s)) = ss_peer_id s"
  using effectD [OF peer.any_event [of E "snd te" "s\<lparr>ss_now := fst te, ss_log := []\<rparr>"]]
  by (simp add: session_step_def Let_def same_def)

end
