(* ===== verification/Session_Safety.thy ===== *)
theory Session_Safety
  imports Session_Orders
begin

text \<open>
  What authentication gives a session: only an authenticated STUN message can nominate a pair, and
  messages without MESSAGE-INTEGRITY, the keepalives of the session among them, have no effect.
\<close>

section \<open>Authentic messages\<close>

definition authentic :: "session_env \<Rightarrow> string \<Rightarrow> string \<Rightarrow> bytes \<Rightarrow> bool" where
  "authentic E lp rp data \<longleftrightarrow>
     (case parsed_value (parse_stun (se_inet E) data) of
        None \<Rightarrow> False
      | Some msg \<Rightarrow> sm_has_integrity msg \<and>
          verify_integrity (se_hmac E) data
            (if sm_msg_type msg = STUN_BINDING_RESPONSE \<or> sm_msg_type msg = STUN_BINDING_ERROR then rp else lp)
          = Some True)"

text \<open>The datagrams or frames an event hands to \<open>on_carrier_data\<close>.\<close>

definition inbound :: "Event \<Rightarrow> Session \<Rightarrow> bytes list" where
  "inbound e s =
     (case e of
        EvCarrierData _ data \<Rightarrow> [data]
      | EvTcpCarrierData cid data \<Rightarrow>
          fst (drain_tcp ((case ss_tcp_rx_buffers s cid of None \<Rightarrow> [] | Some b \<Rightarrow> b) @ data))
      | EvTask t \<Rightarrow> (case t of TaskRelayStun _ _ data \<Rightarrow> [data] | _ \<Rightarrow> [])
      | _ \<Rightarrow> [])"

lemma calm_on_stun:
  assumes parsed: "parsed_value (parse_stun (se_inet E) data) = Some msg"
    and "\<not> authentic E lp rp data" and s: "unconnected lp rp s"
  shows "effect (keeps (unconnected lp rp)) (on_stun E data msg cid tcp) s"
proof -
  let ?resp = "sm_msg_type msg = STUN_BINDING_RESPONSE \<or> sm_msg_type msg = STUN_BINDING_ERROR"
  have "verify_integrity (se_hmac E) data (if ?resp then ss_remote_pwd s else ss_local_pwd s) \<noteq> Some True"
    if "sm_has_integrity msg"
    using assms that by (auto simp: authentic_def unconnected_def split: if_splits)
  then show ?thesis
    unfolding on_stun_def
    by (intro effect_gets_bind effect_if effect_option calm.calm_gather_response keeps.return
        calm.quiet_emit keeps.whenM) auto
qed

lemma calm_carrier_data:
  assumes "\<not> authentic E lp rp data"
  shows "effect (keeps (unconnected lp rp)) (on_carrier_data E cid data tcp) s"
proof (cases "unconnected lp rp s")
  case False
  then show ?thesis by (simp add: effect_def keeps_def)
next
  case True
  let ?s = "s\<lparr>ss_last_activity := ss_now s\<rparr>"
  have u: "unconnected lp rp ?s" using True by (simp add: unconnected_def)
  have "effect (keeps (unconnected lp rp))
      (case parsed_value (parse_stun (se_inet E) data) of
         Some msg \<Rightarrow> on_stun E data msg cid tcp | None \<Rightarrow> on_app_data data tcp) ?s"
    by (intro effect_option calm.calm_app_data calm_on_stun [OF _ assms u])
  then have "effect (keeps (unconnected lp rp))
      (do {
         to_turn \<leftarrow> gets (\<lambda>s. is_server_cid (ss_turn s) cid);
         to_backup \<leftarrow> gets (\<lambda>s. is_server_cid (ss_turn_backup_probe s) cid);
         if to_turn then on_turn E (\<lambda>T. on_inbound T data)
         else if to_backup then on_backup E (\<lambda>T. on_inbound T data)
         else case parsed_value (parse_stun (se_inet E) data) of
           Some msg \<Rightarrow> on_stun E data msg cid tcp
         | None \<Rightarrow> on_app_data data tcp
       }) ?s"
    by (intro effect_gets_bind effect_if calm.quiet_on_turn calm.quiet_on_backup)
  then show ?thesis
    unfolding on_carrier_data_def by (intro calm.quiet_bind) (simp_all add: frame_defs)
qed

lemma calm_tcp_frames:
  "(\<And>d. d \<in> set frames \<Longrightarrow> \<not> authentic E lp rp d) \<Longrightarrow>
   effect (keeps (unconnected lp rp)) (on_tcp_frames E cid frames) s"
proof (induction frames arbitrary: s)
  case Nil
  show ?case by (simp add: keeps.return)
next
  case (Cons d ds)
  have "effect (keeps (unconnected lp rp)) (on_tcp_frames E cid ds) t" for t
    by (rule Cons.IH) (simp add: Cons.prems)
  then show ?case
    unfolding on_tcp_frames.simps
    by (intro keeps.rules calm.quiet_emit calm_carrier_data Cons.prems) simp_all
qed

lemma calm_tcp_data:
  assumes "\<And>d. d \<in> set (inbound (EvTcpCarrierData cid data) s) \<Longrightarrow> \<not> authentic E lp rp d"
  shows "effect (keeps (unconnected lp rp)) (on_tcp_carrier_data E cid data) s"
proof -
  obtain frames rest where d: "drain_tcp ((case ss_tcp_rx_buffers s cid of None \<Rightarrow> [] | Some b \<Rightarrow> b) @ data)
      = (frames, rest)" by fastforce
  have "effect (keeps (unconnected lp rp)) (on_tcp_frames E cid frames) t" for t
    using assms d by (intro calm_tcp_frames) (simp add: inbound_def)
  then show ?thesis
    unfolding on_tcp_carrier_data_def
    by (intro calm.quiet_bind effect_gets_bind) (auto simp: frame_defs d intro!: calm.quiet_bind)
qed

lemma offline_task:
  assumes "\<And>ip port data. t \<noteq> TaskRelayStun ip port data"
  shows "effect (keeps (\<lambda>s. ss_state s \<noteq> Connected)) (run_task E t) s"
  using assms unfolding run_task_def
  by (cases t) (auto simp: offline.calm_gathering offline.quiet_run_app_data)

lemma offline_event:
  assumes "\<And>cid d. e \<noteq> EvCarrierData cid d" "\<And>cid d. e \<noteq> EvTcpCarrierData cid d"
    and "\<And>ip port d. e \<noteq> EvTask (TaskRelayStun ip port d)"
  shows "effect (keeps (\<lambda>s. ss_state s \<noteq> Connected)) (handle_event E e) s"
  using assms unfolding handle_event_def
  by (cases e) (auto simp: offline.calm_gathering offline.creds_set_remote offline.creds_add_remote
      offline.quiet_session_send offline.creds_restart offline.quiet_on_turn offline.quiet_on_backup
      offline.creds_timer offline_task)

lemma calm_inbound_event:
  assumes "\<And>d. d \<in> set (inbound e s) \<Longrightarrow> \<not> authentic E lp rp d"
    and "(\<exists>cid d. e = EvCarrierData cid d) \<or> (\<exists>cid d. e = EvTcpCarrierData cid d) \<or>
         (\<exists>ip port d. e = EvTask (TaskRelayStun ip port d))"
  shows "effect (keeps (unconnected lp rp)) (handle_event E e) s"
  using assms(2)
proof (elim disjE exE)
  fix cid d assume e: "e = EvCarrierData cid d"
  then show ?thesis using assms(1) by (simp add: handle_event_def inbound_def calm_carrier_data)
next
  fix cid d assume e: "e = EvTcpCarrierData cid d"
  then show ?thesis using assms(1) by (simp add: handle_event_def calm_tcp_data)
next
  fix ip port d assume e: "e = EvTask (TaskRelayStun ip port d)"
  then have "\<not> authentic E lp rp d" using assms(1) by (simp add: inbound_def)
  then show ?thesis
    unfolding e by (simp add: handle_event_def run_task_def)
      (intro keeps.rules calm.quiet_relay_cid calm_carrier_data)
qed

section \<open>Signed messages\<close>

text \<open>All authenticated messages of a session end in MESSAGE-INTEGRITY and FINGERPRINT.\<close>

definition signed :: "hmac \<Rightarrow> string \<Rightarrow> u16 \<Rightarrow> TransactionId \<Rightarrow> (u16 \<times> bytes) list \<Rightarrow> bytes" where
  "signed HMAC key ty txn as =
     build (add_fingerprint (add_integrity HMAC key (add_attrs as (new_builder ty txn))))"

definition signable :: "TransactionId \<Rightarrow> (u16 \<times> bytes) list \<Rightarrow> bool" where
  "signable txn as \<longleftrightarrow> length txn = 12 \<and> length (tlvs as) + 32 \<le> 0xFFFF \<and>
     (\<forall>a \<in> set as. fst a \<noteq> STUN_ATTR_MESSAGE_INTEGRITY)"

lemma signed_message:
  "\<exists>fp. signed HMAC key ty txn as =
     message ty txn (as @ [(STUN_ATTR_MESSAGE_INTEGRITY, integrity_digest HMAC key ty txn as)] @
       [(STUN_ATTR_FINGERPRINT, write32 fp)])"
proof -
  have "add_fingerprint b = add_attrs [(STUN_ATTR_FINGERPRINT,
      write32 (stun_crc32 (stun_image b (length (sb_attrs b) + 8)) XOR 0x5354554E))] b" for b
    by (simp add: add_fingerprint_def add_attr_u32_def add_attrs_def)
  then show ?thesis unfolding signed_def by (metis build_integrity)
qed

lemma signed_parse_verify:
  assumes "hmac_ok HMAC" and "signable txn as" and m: "apply_tlvs I as (empty_message ty txn) = Some m"
  shows signed_parses: "parsed_value (parse_stun I (signed HMAC key ty txn as)) =
      Some (m\<lparr>sm_has_integrity := True, sm_has_fingerprint := True\<rparr>)"
    and signed_verifies: "verify_integrity HMAC (signed HMAC key ty txn as) key = Some True"
proof -
  let ?d = "integrity_digest HMAC key ty txn as"
  obtain fp where msg: "signed HMAC key ty txn as =
      message ty txn (as @ [(STUN_ATTR_MESSAGE_INTEGRITY, ?d)] @ [(STUN_ATTR_FINGERPRINT, write32 fp)])"
    using signed_message by blast
  have d: "length ?d = 20" by (rule length_integrity_digest [OF assms(1)])
  have fits: "fits_message txn (as @ [(STUN_ATTR_MESSAGE_INTEGRITY, ?d)] @ [(STUN_ATTR_FINGERPRINT, write32 fp)])"
    using assms(2) d by (simp add: fits_message_def signable_def length_tlv pad4_def)
  show "parsed_value (parse_stun I (signed HMAC key ty txn as)) =
      Some (m\<lparr>sm_has_integrity := True, sm_has_fingerprint := True\<rparr>)"
    using parse_message [OF fits, of I ty "[]"] m
    by (simp add: msg apply_tlvs_append apply_attr_def stun_consts parsed_value_def)
  show "verify_integrity HMAC (signed HMAC key ty txn as) key = Some True"
    using verify_message [OF fits _ d, of HMAC ty key] assms(2)
    by (simp add: msg signable_def integrity_digest_def)
qed

section \<open>Properties\<close>

text \<open>C1: Nomination needs authentication. Whatever one event does, a session that was not connected
  becomes connected only if the event delivered a datagram or frame that parses as STUN, has a
  MESSAGE-INTEGRITY attribute and verifies under the password of its direction: the local one for
  requests, the remote one for responses and errors.\<close>

theorem connected_needs_authentic:
  assumes "ss_state s \<noteq> Connected"
    and "ss_state (fst (session_step E (now, e) s)) = Connected"
  shows "\<exists>d. d \<in> set (inbound e s) \<and> authentic E (ss_local_pwd s) (ss_remote_pwd s) d"
proof (rule ccontr)
  let ?s = "s\<lparr>ss_now := now, ss_log := []\<rparr>"
  assume "\<not> ?thesis"
  then have no: "\<And>d. d \<in> set (inbound e ?s) \<Longrightarrow> \<not> authentic E (ss_local_pwd s) (ss_remote_pwd s) d"
    by (auto simp: inbound_def split: Event.splits)
  have "ss_state (exec (handle_event E e) ?s) \<noteq> Connected"
  proof (cases "(\<exists>cid d. e = EvCarrierData cid d) \<or> (\<exists>cid d. e = EvTcpCarrierData cid d) \<or>
         (\<exists>ip port d. e = EvTask (TaskRelayStun ip port d))")
    case True
    from effectD [OF calm_inbound_event [OF no True]] assms(1)
    show ?thesis by (simp add: keeps_def unconnected_def)
  next
    case False
    then have "effect (keeps (\<lambda>s. ss_state s \<noteq> Connected)) (handle_event E e) ?s"
      by (intro offline_event) auto
    with assms(1) show ?thesis by (simp add: effect_def keeps_def)
  qed
  with assms(2) show False by (simp add: session_step_def Let_def)
qed

text \<open>C33: Keepalives are dropped. The request a connected session sends to refresh consent has no
  MESSAGE-INTEGRITY, so the peer that receives it (on any path but a TURN server's) records the
  arrival time and does nothing else: it sends no response, and its consent counter stays.\<close>

theorem keepalive_dropped:
  assumes "length txn = 12"
    and "\<not> is_server_cid (ss_turn s) cid" and "\<not> is_server_cid (ss_turn_backup_probe s) cid"
  shows "session_step E (now, EvCarrierData cid (keepalive_request txn)) s =
    (s\<lparr>ss_now := now, ss_log := [], ss_last_activity := now\<rparr>, [])"
proof -
  have "keepalive_request txn = message STUN_BINDING_REQUEST txn []"
    using build_message [of "new_builder STUN_BINDING_REQUEST txn" "[]"] by (simp add: keepalive_request_def)
  then have "parsed_value (parse_stun (se_inet E) (keepalive_request txn)) =
      Some (empty_message STUN_BINDING_REQUEST txn)"
    using parse_message [of txn "[]" "se_inet E" STUN_BINDING_REQUEST "[]"] assms(1)
    by (simp add: fits_message_def parsed_value_def)
  then show ?thesis
    using assms(2,3)
    by (simp add: session_step_def handle_event_def on_carrier_data_def on_stun_def empty_message_def
        stun_consts Let_def)
qed

text \<open>The attributes of a connectivity check.\<close>

definition check_attrs :: "CheckPair \<Rightarrow> Session \<Rightarrow> (u16 \<times> bytes) list" where
  "check_attrs p s =
     [(STUN_ATTR_USERNAME, bytes_of_string (ss_remote_ufrag s @ '':'' @ ss_local_ufrag s)),
      (STUN_ATTR_PRIORITY, write32 (cand_priority (cp_local p)))] @
     (if ss_controlling s
      then (STUN_ATTR_ICE_CONTROLLING, write64 (ss_tiebreaker s)) #
        (if cf_aggressive_nomination (ss_cfg s) \<or> cp_nominee_check_sent p
         then [(STUN_ATTR_USE_CANDIDATE, [])] else [])
      else [(STUN_ATTR_ICE_CONTROLLED, write64 (ss_tiebreaker s))])"

lemma check_request_signed:
  "check_request E p s = signed (se_hmac E) (ss_remote_pwd s) STUN_BINDING_REQUEST (cp_txn_id p) (check_attrs p s)"
  by (simp add: check_request_def signed_def check_attrs_def add_attrs_def Let_def add_username_def
      add_priority_def add_attr_u32_def add_ice_controlling_def add_ice_controlled_def add_attr_u64_def
      add_use_candidate_def)

definition check_message :: "CheckPair \<Rightarrow> Session \<Rightarrow> StunMessage" where
  "check_message p s = (empty_message STUN_BINDING_REQUEST (cp_txn_id p))
     \<lparr>sm_username := Some (ss_remote_ufrag s @ '':'' @ ss_local_ufrag s),
      sm_priority := Some (cand_priority (cp_local p)),
      sm_ice_controlling := (if ss_controlling s then Some (ss_tiebreaker s) else None),
      sm_ice_controlled := (if ss_controlling s then None else Some (ss_tiebreaker s)),
      sm_use_candidate := (ss_controlling s \<and> (cf_aggressive_nomination (ss_cfg s) \<or> cp_nominee_check_sent p)),
      sm_has_integrity := True, sm_has_fingerprint := True\<rparr>"

lemma signable_check:
  assumes "length (cp_txn_id p) = 12" and "length (ss_remote_ufrag s) + length (ss_local_ufrag s) \<le> 512"
  shows "signable (cp_txn_id p) (check_attrs p s)"
proof -
  have "pad4 n \<le> 3" for n by (simp add: pad4_def)
  from this [of "Suc (length (ss_remote_ufrag s) + length (ss_local_ufrag s))"] assms show ?thesis
    by (auto simp: signable_def check_attrs_def length_tlv stun_consts pad4_def)
qed

lemma check_attrs_message:
  "apply_tlvs I (check_attrs p s) (empty_message STUN_BINDING_REQUEST (cp_txn_id p)) =
     Some ((check_message p s)\<lparr>sm_has_integrity := False, sm_has_fingerprint := False\<rparr>)"
  using c32.dec_front [of "cand_priority (cp_local p)" "[]"] c64.dec_front [of "ss_tiebreaker s" "[]"]
  by (simp add: check_attrs_def check_message_def apply_attr_def stun_consts empty_message_def)

lemma check_request_accepted:
  assumes "hmac_ok (se_hmac E)" and "length (cp_txn_id p) = 12"
    and "length (ss_remote_ufrag s) + length (ss_local_ufrag s) \<le> 512"
  shows "parsed_value (parse_stun I (check_request E p s)) = Some (check_message p s)"
    and "verify_integrity (se_hmac E) (check_request E p s) (ss_remote_pwd s) = Some True"
  using signed_parse_verify [OF assms(1) signable_check [OF assms(2,3)] check_attrs_message [of I p s]]
  by (simp_all add: check_request_signed check_message_def)

lemma binding_response_accepted:
  assumes "hmac_ok (se_hmac E)" and "length txn = 12"
  shows "parsed_value (parse_stun I (binding_response E txn pwd)) =
      Some ((empty_message STUN_BINDING_RESPONSE txn)\<lparr>sm_has_integrity := True, sm_has_fingerprint := True\<rparr>)"
    and "verify_integrity (se_hmac E) (binding_response E txn pwd) pwd = Some True"
proof -
  have eq: "binding_response E txn pwd = signed (se_hmac E) pwd STUN_BINDING_RESPONSE txn []"
    by (simp add: binding_response_def signed_def add_attrs_def)
  have fits: "signable txn []" using assms(2) by (simp add: signable_def)
  show "parsed_value (parse_stun I (binding_response E txn pwd)) =
      Some ((empty_message STUN_BINDING_RESPONSE txn)\<lparr>sm_has_integrity := True, sm_has_fingerprint := True\<rparr>)"
    "verify_integrity (se_hmac E) (binding_response E txn pwd) pwd = Some True"
    using signed_parse_verify [OF assms(1) fits, of I STUN_BINDING_RESPONSE] by (simp_all add: eq)
qed

lemma role_conflict_accepted:
  assumes "hmac_ok (se_hmac E)" and "length txn = 12"
  shows "parsed_value (parse_stun I (role_conflict_response E txn pwd)) =
      Some ((empty_message STUN_BINDING_ERROR txn)
        \<lparr>sm_error_code := Some 487, sm_has_integrity := True, sm_has_fingerprint := True\<rparr>)"
    and "verify_integrity (se_hmac E) (role_conflict_response E txn pwd) pwd = Some True"
proof -
  let ?as = "[(STUN_ATTR_ERROR_CODE, [0, 0, 4, 87] @ bytes_of_string kStunErrorReasonRoleConflict)]"
  have eq: "role_conflict_response E txn pwd = signed (se_hmac E) pwd STUN_BINDING_ERROR txn ?as"
    by (simp add: role_conflict_response_def signed_def add_attrs_def add_error_code_def)
  have fits: "signable txn ?as"
    using assms(2) by (simp add: signable_def length_tlv pad4_def kStunErrorReasonRoleConflict_def stun_consts)
  have m: "apply_tlvs I ?as (empty_message STUN_BINDING_ERROR txn) =
      Some ((empty_message STUN_BINDING_ERROR txn)\<lparr>sm_error_code := Some 487\<rparr>)"
    by (simp add: apply_attr_def stun_consts rd_def)
  show "parsed_value (parse_stun I (role_conflict_response E txn pwd)) =
      Some ((empty_message STUN_BINDING_ERROR txn)
        \<lparr>sm_error_code := Some 487, sm_has_integrity := True, sm_has_fingerprint := True\<rparr>)"
    "verify_integrity (se_hmac E) (role_conflict_response E txn pwd) pwd = Some True"
    using signed_parse_verify [OF assms(1) fits m, of pwd] by (simp_all add: eq)
qed

text \<open>C16: A connectivity check and its answer cross the wire intact. When the agents know each other's
  passwords, the request of one parses at the other to exactly the attributes the check is about
  (credentials, priority, role with tie-breaker, nomination flag) and verifies there; the response
  of the other carries the transaction id of the check and verifies at the first.\<close>

theorem check_exchange:
  assumes "hmac_ok (se_hmac E)" and "length (cp_txn_id p) = 12"
    and "length (ss_remote_ufrag a) + length (ss_local_ufrag a) \<le> 512"
    and "ss_local_pwd b = ss_remote_pwd a"
  shows "parsed_value (parse_stun I (check_request E p a)) = Some (check_message p a) \<and>
    authentic (E\<lparr>se_inet := I\<rparr>) (ss_local_pwd b) (ss_remote_pwd b) (check_request E p a) \<and>
    (\<exists>m. parsed_value (parse_stun I (binding_response E (cp_txn_id p) (ss_local_pwd b))) = Some m \<and>
       sm_msg_type m = STUN_BINDING_RESPONSE \<and> sm_txn_id m = cp_txn_id p) \<and>
    authentic (E\<lparr>se_inet := I\<rparr>) (ss_local_pwd a) (ss_remote_pwd a)
      (binding_response E (cp_txn_id p) (ss_local_pwd b))"
  using check_request_accepted(1) [OF assms(1-3), of I] check_request_accepted(2) [OF assms(1-3)]
    binding_response_accepted(1) [OF assms(1,2), of I "ss_local_pwd b"]
    binding_response_accepted(2) [OF assms(1,2), of "ss_local_pwd b"] assms(4)
  by (simp add: authentic_def check_message_def empty_message_def stun_consts)

lemma switch_role_flips: "ss_controlling (exec (switch_role E) s) = (\<not> ss_controlling s)"
proof -
  let ?s = "s\<lparr>ss_controlling := \<not> ss_controlling s\<rparr>"
  have "ss_controlling (exec (rebuild_and_run E) ?s) = (\<not> ss_controlling s)"
    using effectD [OF role.calm_rebuild [of E ?s]] by (simp add: same_def)
  then show ?thesis by (simp add: switch_role_def)
qed

text \<open>C5: Role conflicts end with opposite roles. Two agents claim the same role and the first sends a
  check. If its tie-breaker is larger, the receiver switches. Otherwise the receiver keeps its role
  and its 487 response, delivered to the first agent, makes that one switch.\<close>

theorem role_conflict_resolved:
  assumes "hmac_ok (se_hmac E)" and "length (cp_txn_id p) = 12"
    and same_role: "ss_controlling a = ss_controlling b"
    and pwd: "ss_remote_pwd a = ss_local_pwd b"
    and b'_def: "b' = exec (handle_binding_request E (check_message p a) cid tcp) b"
    and a'_def: "a' = exec (on_carrier_data E cid'
        (role_conflict_response E (cp_txn_id p) (ss_local_pwd b)) tcp') a"
    and no_turn: "\<not> is_server_cid (ss_turn a) cid'" "\<not> is_server_cid (ss_turn_backup_probe a) cid'"
  shows "if ss_tiebreaker b < ss_tiebreaker a
    then ss_controlling b' \<noteq> ss_controlling a
    else b' = exec (reply_to E cid tcp (role_conflict_response E (cp_txn_id p) (ss_local_pwd b))) b \<and>
      ss_controlling b' = ss_controlling b \<and> ss_controlling a' \<noteq> ss_controlling b'"
proof -
  have roles: "ss_controlling (exec (reply_to E cid tcp m) b) = ss_controlling b" for m
    using effectD [OF role.free_reply [of E cid tcp m b]] by (simp add: same_def)
  have a': "ss_controlling a' = (\<not> ss_controlling a)"
    using role_conflict_accepted(1) [OF assms(1,2), of "se_inet E" "ss_local_pwd b"]
      role_conflict_accepted(2) [OF assms(1,2), of "ss_local_pwd b"] no_turn pwd
      switch_role_flips [of E "a\<lparr>ss_last_activity := ss_now a\<rparr>"]
    by (simp add: a'_def on_carrier_data_def on_stun_def on_peer_stun_def empty_message_def stun_consts)
  show ?thesis
  proof (cases "ss_tiebreaker b < ss_tiebreaker a")
    case True
    let ?t = "exec (switch_role E) b"
    have "b' = exec (answer_binding_request E (check_message p a) cid tcp) ?t"
      using same_role True
      by (simp add: b'_def handle_binding_request_def check_message_def handle_role_conflict_def
          empty_message_def split_beta Let_def split: if_splits)
    then have "ss_controlling b' = ss_controlling ?t"
      using effectD [OF role.free_answer [of E "check_message p a" cid tcp ?t]] by (simp add: same_def)
    with True same_role show ?thesis by (simp add: switch_role_flips)
  next
    case False
    then have "b' = exec (reply_to E cid tcp (role_conflict_response E (cp_txn_id p) (ss_local_pwd b))) b"
      using same_role
      by (simp add: b'_def handle_binding_request_def check_message_def handle_role_conflict_def
          empty_message_def split_beta Let_def split: if_splits)
    with False same_role a' roles show ?thesis by simp
  qed
qed

section \<open>Closed instances\<close>

definition sample_session_env :: session_env where
  "sample_session_env = \<lparr>se_inet = sample_inet, se_hmac = sample_hmac, se_turn = (\<lambda>_. sample_env),
     se_txn = (\<lambda>n. replicate 12 (word_of_nat n)), se_connect = (\<lambda>n _ _. word_of_nat (n + 1)),
     se_uniform = (\<lambda>n. n mod 36), se_uuid = (\<lambda>_. replicate 16 0), se_sort = sample_sort,
     se_parse_uri = (\<lambda>_. None), se_listen_port = 4000, se_ifaddrs = None,
     se_portmap_supported = False, se_portmap_request = (\<lambda>_. None)\<rparr>"

text \<open>A lite agent whose only pair is verified, and the nomination its peer sends.\<close>

definition sample_lite :: Session where
  "sample_lite = blank_session\<lparr>ss_cfg := default_ice_config\<lparr>cf_lite_mode := True, cf_pmtu_active_probing := False\<rparr>,
     ss_state := Checking, ss_local_pwd := ''lp'', ss_remote_pwd := ''rp'',
     ss_check_list := [empty_pair\<lparr>cp_remote := sample_candidate 2, cp_state := Succeeded\<rparr>],
     ss_cid_udp := [7 \<mapsto> \<lparr>ep_ip = ''192.168.0.2'', ep_port = 5000, ep_transport = Udp\<rparr>]\<rparr>"

definition sample_nomination :: bytes where
  "sample_nomination = build (add_fingerprint (add_integrity sample_hmac ''lp''
     (add_use_candidate (new_builder STUN_BINDING_REQUEST (replicate 12 3)))))"

lemma sample_nomination_signed:
  "sample_nomination = signed sample_hmac ''lp'' STUN_BINDING_REQUEST (replicate 12 3) [(STUN_ATTR_USE_CANDIDATE, [])]"
  by (simp add: sample_nomination_def signed_def add_use_candidate_def add_attrs_def)

lemma sample_nomination_accepted:
  "parsed_value (parse_stun sample_inet sample_nomination) =
     Some ((empty_message STUN_BINDING_REQUEST (replicate 12 3))
       \<lparr>sm_use_candidate := True, sm_has_integrity := True, sm_has_fingerprint := True\<rparr>)"
  "verify_integrity sample_hmac sample_nomination ''lp'' = Some True"
proof -
  let ?as = "[(STUN_ATTR_USE_CANDIDATE, [])]"
  have fits: "signable (replicate 12 3) ?as"
    by (simp add: signable_def length_tlv pad4_def stun_consts)
  have m: "apply_tlvs sample_inet ?as (empty_message STUN_BINDING_REQUEST (replicate 12 3)) =
      Some ((empty_message STUN_BINDING_REQUEST (replicate 12 3))\<lparr>sm_use_candidate := True\<rparr>)"
    by (simp add: apply_attr_def stun_consts)
  show "parsed_value (parse_stun sample_inet sample_nomination) =
     Some ((empty_message STUN_BINDING_REQUEST (replicate 12 3))
       \<lparr>sm_use_candidate := True, sm_has_integrity := True, sm_has_fingerprint := True\<rparr>)"
    using signed_parses [OF sample_hmac_ok fits m] by (simp add: sample_nomination_signed)
  show "verify_integrity sample_hmac sample_nomination ''lp'' = Some True"
    using signed_verifies [OF sample_hmac_ok fits m] by (simp add: sample_nomination_signed)
qed

lemma sample_remote_found:
  "find_remote sample_inet ''192.168.0.2'' 5000 Udp [empty_pair\<lparr>cp_remote := sample_candidate 2, cp_state := Succeeded\<rparr>] = Some 0"
  by code_simp

lemma sample_lite_connects:
  "ss_state (fst (session_step sample_session_env (5, EvCarrierData 7 sample_nomination) sample_lite)) = Connected"
  using sample_nomination_accepted sample_remote_found
  by (simp add: session_step_def handle_event_def on_carrier_data_def on_stun_def on_peer_stun_def
      handle_binding_request_def answer_binding_request_def reply_to_def on_use_candidate_def on_nominated_def bump_def emit_def
      flush_pending_app_data_def on_keepalive_def maybe_trigger_check_from_peer_def is_server_cid_def
      sample_session_env_def sample_lite_def blank_session_def default_ice_config_def
      empty_message_def stun_consts Let_def)

theorem connected_needs_authentic_witness: "authentic sample_session_env ''lp'' ''rp'' sample_nomination"
proof -
  have "ss_state sample_lite \<noteq> Connected" by (simp add: sample_lite_def)
  from connected_needs_authentic [OF this sample_lite_connects] show ?thesis
    by (simp add: inbound_def sample_lite_def)
qed

theorem keepalive_dropped_witness:
  "session_step sample_session_env (9, EvCarrierData 7 (keepalive_request (replicate 12 1))) sample_lite =
    (sample_lite\<lparr>ss_now := 9, ss_log := [], ss_last_activity := 9\<rparr>, [])"
proof -
  have "\<not> is_server_cid (ss_turn sample_lite) 7" "\<not> is_server_cid (ss_turn_backup_probe sample_lite) 7"
    by (simp_all add: is_server_cid_def sample_lite_def blank_session_def)
  then show ?thesis by (intro keepalive_dropped) simp_all
qed

text \<open>Two agents that both claim to be controlling.\<close>

definition sample_peer :: "u64 \<Rightarrow> string \<Rightarrow> string \<Rightarrow> Session" where
  "sample_peer tb lp rp = blank_session\<lparr>ss_controlling := True, ss_tiebreaker := tb, ss_local_pwd := lp,
     ss_remote_pwd := rp, ss_local_ufrag := ''u'', ss_remote_ufrag := ''v''\<rparr>"

definition sample_check :: CheckPair where
  "sample_check = empty_pair\<lparr>cp_local := sample_candidate 1, cp_remote := sample_candidate 2,
     cp_txn_id := replicate 12 4\<rparr>"

lemma sample_peer_simps:
  "length (cp_txn_id sample_check) = 12" "ss_controlling (sample_peer tb lp rp)"
  "ss_tiebreaker (sample_peer tb lp rp) = tb" "ss_local_pwd (sample_peer tb lp rp) = lp"
  "ss_remote_pwd (sample_peer tb lp rp) = rp" "ss_turn (sample_peer tb lp rp) = None"
  "ss_turn_backup_probe (sample_peer tb lp rp) = None" "hmac_ok (se_hmac sample_session_env)"
  "length (ss_remote_ufrag (sample_peer tb lp rp)) + length (ss_local_ufrag (sample_peer tb lp rp)) = 2"
  by (simp_all add: sample_peer_def sample_check_def blank_session_def sample_session_env_def sample_hmac_ok)

theorem check_exchange_witness:
  "parsed_value (parse_stun sample_inet (check_request sample_session_env sample_check (sample_peer 1 ''a'' ''b''))) =
     Some (check_message sample_check (sample_peer 1 ''a'' ''b''))"
  using check_exchange [of sample_session_env sample_check "sample_peer 1 ''a'' ''b''" "sample_peer 2 ''b'' ''a''" sample_inet]
  by (simp add: sample_peer_simps)

theorem role_conflict_resolved_witness:
  "ss_controlling (exec (handle_binding_request sample_session_env
      (check_message sample_check (sample_peer 5 ''a'' ''b'')) 7 False) (sample_peer 2 ''b'' ''a'')) = False \<and>
   ss_controlling (exec (on_carrier_data sample_session_env 8
      (role_conflict_response sample_session_env (cp_txn_id sample_check) ''b'') False) (sample_peer 1 ''a'' ''b'')) = False"
  using role_conflict_resolved [of sample_session_env sample_check "sample_peer 5 ''a'' ''b''" "sample_peer 2 ''b'' ''a''"
      _ 7 False _ 8 False, OF _ _ _ _ refl refl]
    role_conflict_resolved [of sample_session_env sample_check "sample_peer 1 ''a'' ''b''" "sample_peer 2 ''b'' ''a''"
      _ 7 False _ 8 False, OF _ _ _ _ refl refl]
  by (auto simp: sample_peer_simps is_server_cid_def)

end
