(* ===== verification/Session_Flow.thy ===== *)
theory Session_Flow
  imports Session_Safety
begin

text \<open>
  How a session makes progress: the pacing of checks, the expiry of consent, application data
  parked before the connection, and relayed peers across a restart.
\<close>

section \<open>Checks in flight\<close>

definition in_flight :: "Session \<Rightarrow> nat" where
  "in_flight s = in_progress_count (ss_check_list s)"

definition sparing :: "Session \<Rightarrow> Session \<Rightarrow> bool" where
  "sparing a b \<longleftrightarrow> in_flight b \<le> in_flight a"

lemma in_progress_update:
  "in_progress_count (ps[i := p]) \<le> in_progress_count ps + (if cp_state p = InProgress then 1 else 0)"
proof (induction ps arbitrary: i)
  case (Cons q ps)
  show ?case
  proof (cases i)
    case 0
    then show ?thesis by (simp add: in_progress_count_def)
  next
    case (Suc j)
    then show ?thesis using Cons.IH [of j] by (auto simp: in_progress_count_def split: if_splits)
  qed
qed (simp add: in_progress_count_def)

lemma in_progress_update_same:
  "cp_state p = cp_state (ps ! i) \<Longrightarrow> in_progress_count (ps[i := p]) = in_progress_count ps"
proof (induction ps arbitrary: i)
  case (Cons q ps)
  then show ?case by (cases i) (auto simp: in_progress_count_def)
qed simp

interpretation sparing: net_order sparing
  by unfold_locales (auto simp: sparing_def in_flight_def frame_defs)

lemma sparing_modify: "in_flight (f s) \<le> in_flight s \<Longrightarrow> effect sparing (modify f) s"
  by (simp add: effect_def sparing_def)

lemma sparing_update_pair:
  "(\<And>p. cp_state (f p) = cp_state p) \<Longrightarrow> effect sparing (update_pair i f) s"
  unfolding update_pair_def by (rule sparing_modify) (simp add: in_flight_def in_progress_update_same)

lemma sparing_fail_update: "effect sparing (update_pair i (\<lambda>p. p\<lparr>cp_state := PairFailed\<rparr>)) s"
  unfolding update_pair_def
  using in_progress_update [of "ss_check_list s" i "(ss_check_list s ! i)\<lparr>cp_state := PairFailed\<rparr>"]
  by (intro sparing_modify) (simp add: in_flight_def)

lemma sparing_unfreeze: "effect sparing (session_unfreeze_siblings lf rf) s"
  unfolding session_unfreeze_siblings_def
  by (rule sparing_modify) (simp add: in_flight_def thaws_in_progress [OF unfreeze_siblings_thaws])

lemma sparing_fail_pair: "effect sparing (fail_pair i) s"
  unfolding fail_pair_def by (intro sparing.rules sparing_fail_update sparing_unfreeze)

lemma sparing_send_check: "effect sparing (send_check E i) s"
  unfolding send_check_def
  by (intro sparing.rules sparing.quiet_net sparing_fail_pair sparing_update_pair) simp_all

lemma sparing_retransmit: "effect sparing (retransmit E i) s"
  unfolding retransmit_def by (intro sparing.rules sparing_send_check sparing_fail_pair)

lemma sparing_exhausted: "effect sparing checks_exhausted s"
  unfolding checks_exhausted_def fail_session_def
  by (intro sparing.bind_all sparing.gets sparing.return sparing.whenM effect_if sparing.quiet_net sparing_modify)
    (simp_all add: in_flight_def)

lemma in_flight_start_pair: "in_flight (exec (start_pair E i) s) \<le> in_flight s + 1"
proof -
  let ?s = "exec (update_pair i (\<lambda>p. p\<lparr>cp_state := InProgress\<rparr>)) s"
  have "in_flight ?s \<le> in_flight s + 1"
    using in_progress_update [of "ss_check_list s" i "(ss_check_list s ! i)\<lparr>cp_state := InProgress\<rparr>"]
    by (simp add: update_pair_def in_flight_def)
  moreover have "in_flight (exec (send_check E i) ?s) \<le> in_flight ?s"
    using sparing_send_check [of E i ?s] by (simp add: effect_def sparing_def)
  ultimately show ?thesis by (simp add: start_pair_def split_beta)
qed

lemma in_flight_promote:
  "in_flight (exec (promote_waiting E is) s) \<le> max kCheckConcurrencyCap (in_flight s)"
proof (induction "is" arbitrary: s)
  case (Cons i "is")
  show ?case
  proof (cases "kCheckConcurrencyCap \<le> in_flight s")
    case True
    then show ?thesis by (simp add: in_flight_def)
  next
    case False
    then have "in_flight (exec (start_pair E i) s) \<le> kCheckConcurrencyCap"
      using in_flight_start_pair [of E i s] by linarith
    with False Cons.IH [of "exec (start_pair E i) s"] Cons.IH [of s] show ?thesis
      by (simp add: split_beta in_flight_def max_def split: if_splits)
  qed
qed simp

text \<open>The states after the two passes of \<open>run_next_check\<close>.\<close>

definition retransmitted :: "session_env \<Rightarrow> Session \<Rightarrow> Session" where
  "retransmitted E s = exec (for_each (retransmit E) [0..<length (ss_check_list s)])
     (s\<lparr>ss_check_list := unfreeze_stuck_pairs (ss_check_list s)\<rparr>)"

definition promoted :: "session_env \<Rightarrow> Session \<Rightarrow> Session" where
  "promoted E s = exec (promote_waiting E [0..<length (ss_check_list s)]) (retransmitted E s)"

lemma run_next_check_passes:
  assumes "ss_state s = Checking"
  shows "exec (run_next_check E) s =
    (if any_pending (ss_check_list (retransmitted E s))
     then exec (arm_timer CheckTimer (cf_check_interval_ms (ss_cfg (promoted E s)))) (promoted E s)
     else exec checks_exhausted (promoted E s))"
  using assms by (simp add: run_next_check_def promoted_def retransmitted_def split_beta)

lemma in_flight_retransmitted: "in_flight (retransmitted E s) \<le> in_flight s"
proof -
  let ?s = "s\<lparr>ss_check_list := unfreeze_stuck_pairs (ss_check_list s)\<rparr>"
  have "effect sparing (for_each (retransmit E) [0..<length (ss_check_list s)]) ?s"
    by (rule sparing.for_each) (rule sparing_retransmit)
  moreover have "in_flight ?s = in_flight s"
    by (simp add: in_flight_def thaws_in_progress [OF unfreeze_stuck_thaws])
  ultimately show ?thesis by (simp add: effect_def sparing_def retransmitted_def)
qed

lemma in_flight_run_next_check:
  "in_flight (exec (run_next_check E) s) \<le> max kCheckConcurrencyCap (in_flight s)"
proof (cases "ss_state s = Checking")
  case True
  have "in_flight (promoted E s) \<le> max kCheckConcurrencyCap (in_flight (retransmitted E s))"
    unfolding promoted_def by (rule in_flight_promote)
  also have "\<dots> \<le> max kCheckConcurrencyCap (in_flight s)"
    using in_flight_retransmitted by (rule max.mono [OF order.refl])
  finally have "in_flight (promoted E s) \<le> max kCheckConcurrencyCap (in_flight s)" .
  moreover have "in_flight (exec (run_next_check E) s) \<le> in_flight (promoted E s)"
    using effectD [OF sparing_exhausted [of "promoted E s"]]
      effectD [OF sparing.quiet_arm_timer [of CheckTimer _ "promoted E s"]]
    by (simp add: run_next_check_passes [OF True] sparing_def)
  ultimately show ?thesis by (rule order_trans [rotated])
qed (simp add: run_next_check_def)

lemma in_flight_fresh: "in_progress_count (fst (make_check_list I srt txn c stride att ls rs n)) = 0"
proof -
  have "in_progress_count (initial_states seen ps) = 0" for seen ps
    by (induction seen ps rule: initial_states.induct) (auto simp: in_progress_count_def Let_def)
  then show ?thesis by (simp add: make_check_list_def assign_initial_pair_states_def split_beta)
qed

lemma in_flight_prefire:
  "in_flight (exec (prefire E v4 v6 is) s) \<le> in_flight s + (if v4 then 0 else 1) + (if v6 then 0 else 1)"
proof (induction "is" arbitrary: v4 v6 s)
  case (Cons i "is")
  show ?case
    using in_flight_start_pair [of E i s] Cons.IH [of v4 v6 s] Cons.IH [of True v6 "exec (start_pair E i) s"]
      Cons.IH [of v4 True "exec (start_pair E i) s"]
    by (auto simp: split_beta)
qed simp

lemma in_flight_enter_checking: "in_flight (exec (enter_checking E) s) \<le> kCheckConcurrencyCap"
proof -
  let ?s = "exec (build_check_list E) (s\<lparr>ss_state := Checking\<rparr>)"
  have fresh: "in_flight ?s = 0" by (simp add: build_check_list_def in_flight_def in_flight_fresh)
  have "in_flight (exec (prefire E False False is) ?s) \<le> kCheckConcurrencyCap" for "is"
    using in_flight_prefire [of E False False "is" ?s] fresh by (simp add: kCheckConcurrencyCap_def)
  then have "in_flight (exec (run_next_check E) (exec (prefire E False False is) ?s)) \<le> kCheckConcurrencyCap" for "is"
    using in_flight_run_next_check [of E "exec (prefire E False False is) ?s"] by (simp add: max_absorb1)
  then show ?thesis using fresh by (simp add: enter_checking_def begin_checks_def split_beta)
qed

section \<open>Properties\<close>

text \<open>C4: The concurrency cap holds. Entering the checking state leaves at most ten checks in flight, and a
  pass of the scheduler never raises the number of checks in flight above ten (a larger number can
  only come from triggered checks, and the pass does not increase it).\<close>

theorem concurrency_cap:
  "in_progress_count (ss_check_list (exec (enter_checking E) s)) \<le> kCheckConcurrencyCap \<and>
   in_progress_count (ss_check_list (exec (run_next_check E) s)) \<le>
     max kCheckConcurrencyCap (in_progress_count (ss_check_list s))"
  using in_flight_enter_checking [of E s] in_flight_run_next_check [of E s] by (simp add: in_flight_def)

section \<open>The scheduler never stalls\<close>

text \<open>The part of the state the scheduler's last step depends on.\<close>

definition schedule_view :: "Session \<Rightarrow> SessionState \<times> bool \<times> bool \<times> bool" where
  "schedule_view s = (ss_state s, ss_timer_ctx s, ss_cb_failed s, ss_nomination_wait_armed s)"

interpretation sched: net_order "same schedule_view"
  by unfold_locales (simp add: same_def schedule_view_def frame_defs)

lemma sched_update_pair: "effect (same schedule_view) (update_pair i f) s"
  unfolding update_pair_def by (intro effect_modify) (simp add: same_def schedule_view_def)

lemma sched_fail_pair: "effect (same schedule_view) (fail_pair i) s"
  unfolding fail_pair_def session_unfreeze_siblings_def
  by (intro same.bind_all same.gets sched_update_pair effect_modify) (simp add: same_def schedule_view_def)

lemma sched_send_check: "effect (same schedule_view) (send_check E i) s"
  unfolding send_check_def by (intro same.rules sched.quiet_net sched_update_pair sched_fail_pair)

lemma sched_retransmit: "effect (same schedule_view) (retransmit E i) s"
  unfolding retransmit_def by (intro same.rules sched_send_check sched_fail_pair)

lemma sched_promote: "effect (same schedule_view) (promote_waiting E is) s"
  by (induction "is" arbitrary: s)
    (auto simp: start_pair_def intro!: same.rules sched_send_check sched_update_pair)

lemma sched_promoted: "schedule_view (promoted E s) = schedule_view s"
proof -
  let ?s = "s\<lparr>ss_check_list := unfreeze_stuck_pairs (ss_check_list s)\<rparr>"
  have "effect (same schedule_view) (for_each (retransmit E) [0..<length (ss_check_list s)]) ?s"
    by (rule same.for_each) (rule sched_retransmit)
  then have "schedule_view (retransmitted E s) = schedule_view ?s"
    by (simp add: retransmitted_def same_def effect_def)
  then show ?thesis
    using effectD [OF sched_promote [of E "[0..<length (ss_check_list s)]" "retransmitted E s"]]
    by (simp add: promoted_def same_def schedule_view_def)
qed

text \<open>C6: A session in the checking state is never left without a next step. After every pass of the
  scheduler, either the check timer is armed with the current generation and the session is still
  checking, or the controlled agent has armed its nomination wait with the current generation, or
  the session has failed and the failure callback was the last thing to run.\<close>

theorem scheduler_progress:
  assumes "ss_state s = Checking" and "ss_timer_ctx s" and "ss_cb_failed s"
    and s'_def: "s' = exec (run_next_check E) s"
  shows "(\<exists>log ms. ss_log s' = log @ [ArmTimer CheckTimer ms (ss_gen s' CheckTimer)] \<and> ss_state s' = Checking) \<or>
    (\<exists>log ms. ss_log s' = log @ [ArmTimer NominationWaitTimer ms (ss_gen s' NominationWaitTimer)] \<and>
       ss_nomination_wait_armed s' \<and> \<not> ss_nomination_wait_armed s \<and> ss_state s' = Checking) \<or>
    (\<exists>log. ss_log s' = log @ [OnFailed] \<and> ss_state s' = Failed)"
proof -
  have "ss_state (promoted E s) = Checking" "ss_timer_ctx (promoted E s)" "ss_cb_failed (promoted E s)"
    "ss_nomination_wait_armed (promoted E s) = ss_nomination_wait_armed s"
    using sched_promoted [of E s] assms(1-3) by (simp_all add: schedule_view_def)
  then show ?thesis
    by (simp add: s'_def run_next_check_passes [OF assms(1)] arm_timer_def bump_def emit_def gen_of_def
        checks_exhausted_def fail_session_def)
qed

section \<open>Consent\<close>

text \<open>A computation whose last step establishes a predicate.\<close>

lemma effect_last: "(\<And>x t. effect (\<lambda>_. P) (f x) t) \<Longrightarrow> effect (\<lambda>_. P) (m \<bind> f) s"
  by (simp add: effect_def split_beta)

lemma effect_modify_keeps: "P (f s) \<Longrightarrow> effect (keeps P) (g ()) (f s) \<Longrightarrow> effect (\<lambda>_. P) (modify f \<bind> g) s"
  by (simp add: effect_def keeps_def)

lemma enter_checking_leaves: "ss_state (exec (enter_checking E) s) \<noteq> Connected"
proof -
  have "effect (\<lambda>_ b. ss_state b \<noteq> Connected) (enter_checking E) s"
    unfolding enter_checking_def
    by (rule effect_modify_keeps) (simp, intro keeps.bind_all offline.quiet_checks offline.calm_checks)
  then show ?thesis by (simp add: effect_def)
qed

lemma restart_leaves:
  assumes "ss_state s \<noteq> Failed"
  shows "ss_state (exec (restart E) s) \<noteq> Connected"
proof -
  have gather: "ss_state (exec (gather E) (t\<lparr>ss_carrier_initialized := False, ss_local_port := 0, ss_state := New\<rparr>)) \<noteq> Connected" for t
    using effectD [OF offline.calm_gather [of E "t\<lparr>ss_carrier_initialized := False, ss_local_port := 0, ss_state := New\<rparr>"]]
    by (simp add: keeps_def)
  show ?thesis using assms by (simp add: restart_def split_beta gather)
qed

lemma consent_loss_leaves:
  assumes "ss_state s \<noteq> Failed" and "ss_auto_restart_last s = None"
  shows "ss_state (exec (notify_consent_loss E) s) \<noteq> Connected"
proof -
  have "ss_state (exec (restart E) t) \<noteq> Connected" if "ss_state t = ss_state s" for t
    using that assms(1) by (simp add: restart_leaves)
  then show ?thesis
    using assms by (simp add: notify_consent_loss_def auto_restart_due_def fail_session_def emit_def split_beta)
qed

definition consent_view :: "Session \<Rightarrow> SessionState \<times> u32 \<times> IceConfig \<times> u64 option \<times> bool" where
  "consent_view s = (ss_state s, ss_consent_missed s, ss_cfg s, ss_auto_restart_last s, ss_timer_ctx s)"

interpretation consent: net_order "same consent_view"
  by unfold_locales (simp add: same_def consent_view_def frame_defs)

lemma consent_probe: "effect (same consent_view) (start_path_mtu_probe E) s"
  unfolding start_path_mtu_probe_def
  by (intro same.rules consent.quiet_net) (simp_all add: same_def consent_view_def)

text \<open>
  One tick of the keepalive timer with no other event since it was armed, so that its generation is still
  the current one; what the log of a tick tells of it.
\<close>

definition silent_tick :: "session_env \<Rightarrow> u64 \<Rightarrow> Session \<Rightarrow> Session \<times> Effect list" where
  "silent_tick E now s = session_step E (now, EvTimer KeepaliveTimer (ss_gen s KeepaliveTimer)) s"

definition requests :: "Effect list \<Rightarrow> nat" where
  "requests es = length (filter (\<lambda>e. case e of Send _ _ _ \<Rightarrow> True | _ \<Rightarrow> False) es)"

definition rearmed :: "Effect list \<Rightarrow> nat" where
  "rearmed es = length (filter (\<lambda>e. case e of ArmTimer k _ _ \<Rightarrow> k = KeepaliveTimer | _ \<Rightarrow> False) es)"

lemma tick_log_append [simp]: "requests (xs @ ys) = requests xs + requests ys" "rearmed (xs @ ys) = rearmed xs + rearmed ys"
  by (simp_all add: requests_def rearmed_def)

lemma run_silent_tick:
  "fst (silent_tick E now s) = exec (on_keepalive E) (s\<lparr>ss_now := now, ss_log := []\<rparr>)"
  "snd (silent_tick E now s) = ss_log (exec (on_keepalive E) (s\<lparr>ss_now := now, ss_log := []\<rparr>))"
  by (simp_all add: silent_tick_def session_step_def handle_event_def on_timer_def timer_body_def gen_of_def Let_def)

lemma keepalive_tick:
  assumes "consent_view s = (Connected, m, cfg, None, ctx)" and "\<not> cf_lite_mode cfg"
  shows "if m + 1 < word_of_int (cf_consent_max_failures cfg)
    then consent_view (exec (on_keepalive E) s) = (Connected, m + 1, cfg, None, ctx)
    else ss_state (exec (on_keepalive E) s) \<noteq> Connected"
proof -
  let ?t = "s\<lparr>ss_consent_missed := m + 1\<rparr>"
  have s: "ss_state s = Connected" "ss_consent_missed s = m" "ss_cfg s = cfg" "ss_auto_restart_last s = None" "ss_timer_ctx s = ctx"
    using assms(1) by (simp_all add: consent_view_def)
  have "effect (same consent_view) (do { send_keepalive E; interval \<leftarrow> gets (\<lambda>s. cf_keepalive_interval_s (ss_cfg s));
      arm_timer KeepaliveTimer (interval * 1000) }) ?t"
    unfolding send_keepalive_def by (intro same.rules consent.quiet_net)
  then have "consent_view (exec (arm_timer KeepaliveTimer (cf_keepalive_interval_s (ss_cfg (exec (send_keepalive E) ?t)) * 1000))
      (exec (send_keepalive E) ?t)) = (Connected, m + 1, cfg, None, ctx)"
    using s by (simp add: effect_def same_def split_beta consent_view_def)
  moreover have "ss_state (exec (notify_consent_loss E) ?t) \<noteq> Connected"
    using s by (intro consent_loss_leaves) simp_all
  ultimately show ?thesis
    using s assms(2) enter_checking_leaves [of E]
    by (auto simp: on_keepalive_def split_beta linorder_not_less)
qed

lemma send_keepalive_log:
  "\<exists>es. ss_log (exec (send_keepalive E) s) = ss_log s @ es \<and> rearmed es = 0 \<and> requests es \<le> 1"
  unfolding send_keepalive_def generate_txn_id_def emit_def by (simp add: rearmed_def requests_def)

lemma keepalive_log:
  assumes "consent_view s = (Connected, m, cfg, None, True)" and "\<not> cf_lite_mode cfg"
    and "m + 1 < word_of_int (cf_consent_max_failures cfg)"
  shows "rearmed (snd (silent_tick E now s)) = 1" and "requests (snd (silent_tick E now s)) \<le> 1"
proof -
  have s: "ss_state s = Connected" "ss_consent_missed s = m" "ss_cfg s = cfg" "ss_timer_ctx s"
    using assms(1) by (simp_all add: consent_view_def)
  let ?t = "s\<lparr>ss_now := now, ss_log := [], ss_consent_missed := m + 1\<rparr>"
  let ?u = "exec (send_keepalive E) ?t"
  have "effect (same consent_view) (send_keepalive E) ?t"
    unfolding send_keepalive_def by (intro same.rules consent.quiet_net)
  then have u: "ss_timer_ctx ?u" using s(4) by (simp add: effect_def same_def consent_view_def)
  obtain es where es: "ss_log ?u = es" "rearmed es = 0" "requests es \<le> 1"
    using send_keepalive_log [of E ?t] by auto
  have "exec (on_keepalive E) (s\<lparr>ss_now := now, ss_log := []\<rparr>) =
      exec (arm_timer KeepaliveTimer (cf_keepalive_interval_s (ss_cfg ?u) * 1000)) ?u"
    using s assms(2,3) by (simp add: on_keepalive_def split_beta linorder_not_less [symmetric])
  then have "snd (silent_tick E now s) = es @ [ArmTimer KeepaliveTimer (cf_keepalive_interval_s (ss_cfg ?u) * 1000)
      (ss_gen ?u KeepaliveTimer + 1)]"
    using u es(1) by (simp add: run_silent_tick(2) arm_timer_def bump_def emit_def gen_of_def)
  then have "rearmed (snd (silent_tick E now s)) = 1 \<and> requests (snd (silent_tick E now s)) \<le> 1"
    using es(2,3) by (simp add: rearmed_def requests_def)
  then show "rearmed (snd (silent_tick E now s)) = 1" "requests (snd (silent_tick E now s)) \<le> 1" by simp_all
qed

text \<open>A nomination resets the counter and then runs the first tick itself.\<close>

lemma nominated_tick:
  assumes "\<not> cf_lite_mode (ss_cfg s)"
  shows "if 1 < (word_of_int (cf_consent_max_failures (ss_cfg s)) :: u32)
    then consent_view (exec (on_nominated E ip port relay cid tx) s) = (Connected, 1, ss_cfg s, None, ss_timer_ctx s)
    else ss_state (exec (on_nominated E ip port relay cid tx) s) \<noteq> Connected"
proof -
  let ?pre = "do {
     whenM relay (on_turn E (\<lambda>T. bind_channel T ip port));
     flush_pending_app_data E;
     cb \<leftarrow> gets ss_cb_connected;
     whenM cb (emit (OnConnected ip port)) }"
  let ?probe = "do {
     probing \<leftarrow> gets (\<lambda>s. cf_pmtu_active_probing (ss_cfg s) \<and> ss_pmtu_probe s = None);
     whenM probing (do {
       modify (\<lambda>s. s\<lparr>ss_pmtu_probe := Some (new_probe (nat (cf_path_mtu (ss_cfg s) mod 2 ^ 64))
         (cf_pmtu_search_steps (ss_cfg s)))\<rparr>);
       start_path_mtu_probe E
     }) }"
  define t where "t = (exec (bump NominationWaitTimer) (exec (bump CheckTimer) s))\<lparr>ss_nomination_wait_armed := False,
     ss_state := Connected, ss_consent_missed := 0, ss_consent_recovery_attempts := 0, ss_auto_restart_attempts := 0,
     ss_auto_restart_last := None, ss_nominated_cid := cid, ss_nominated_transport := tx, ss_nominated_ip := ip,
     ss_nominated_port := port, ss_uses_relay := relay\<rparr>"
  have v: "consent_view t = (Connected, 0, ss_cfg s, None, ss_timer_ctx s)"
    by (simp add: t_def bump_def consent_view_def)
  have t: "exec (on_nominated E ip port relay cid tx) s = exec ?probe (exec (on_keepalive E) (exec ?pre t))"
    unfolding on_nominated_def t_def run_bind run_modify by (simp only: run_bind snd_conv)
  have "effect (same consent_view) ?pre t" by (intro same.rules consent.quiet_net consent.quiet_flush)
  then have pre: "consent_view (exec ?pre t) = (Connected, 0, ss_cfg s, None, ss_timer_ctx s)"
    using v by (simp add: effect_def same_def)
  have probe: "effect (same consent_view) ?probe u" "effect (keeps (\<lambda>s. ss_state s \<noteq> Connected)) ?probe u" for u
    by (intro same.rules consent_probe, simp add: same_def consent_view_def)
      (intro keeps.rules offline.quiet_checks, simp add: keeps_def)
  define u where "u = exec (on_keepalive E) (exec ?pre t)"
  have "consent_view (exec ?probe u) = consent_view u" "ss_state u \<noteq> Connected \<Longrightarrow> ss_state (exec ?probe u) \<noteq> Connected"
    using effectD [OF probe(1)] effectD [OF probe(2)] unfolding same_def keeps_def by blast+
  then show ?thesis
    using keepalive_tick [OF pre assms, of E] unfolding t u_def [symmetric] by (simp only: add_0) presburger
qed

text \<open>C3: Consent expires. A full agent that nominates a pair and then hears nothing leaves the connected
  state when its keepalive timer has fired \<open>consent_max_failures - 1\<close> times, at any times \<open>ts\<close>, and not before: the
  nomination itself counts as the first miss. Until then every tick adds one miss, arms the timer again
  and sends at most one request; the last tick takes the session to a new round of checks, a restart or
  failure. With \<open>consent_max_failures = 1\<close> the nomination ends the connection at once.\<close>

theorem consent_expires:
  assumes "\<not> cf_lite_mode (ss_cfg s)" and "ss_timer_ctx s"
    and "cf_consent_max_failures (ss_cfg s) = int k" and "k < 2 ^ 31" and "length ts < k"
    and "run_machine (silent_tick E) ts (exec (on_nominated E ip port relay cid tx) s) = (s', out)"
  shows "if length ts + 1 < k
    then ss_state s' = Connected \<and> unat (ss_consent_missed s') = length ts + 1 \<and>
      rearmed out = length ts \<and> requests out \<le> length ts
    else ss_state s' \<noteq> Connected"
proof -
  have lt: "(word_of_nat n :: u32) < word_of_int (int k) \<longleftrightarrow> n < k" if "n \<le> k" for n
    using that assms(4) by (simp add: word_less_nat_alt unat_of_nat)
  have "if length ts + 1 < k
    then consent_view s' = (Connected, word_of_nat (length ts + 1), ss_cfg s, None, True) \<and>
      rearmed out = length ts \<and> requests out \<le> length ts
    else ss_state s' \<noteq> Connected"
    using assms(5,6)
  proof (induction ts arbitrary: s' out rule: rev_induct)
    case Nil
    then show ?case
      using nominated_tick [OF assms(1), of E ip port relay cid tx] assms(2,3) lt [of 1]
      by (auto simp: rearmed_def requests_def)
  next
    case (snoc t ts)
    obtain s1 out1 where r: "run_machine (silent_tick E) ts (exec (on_nominated E ip port relay cid tx) s) = (s1, out1)"
      by fastforce
    have s': "s' = fst (silent_tick E t s1)" "out = out1 @ snd (silent_tick E t s1)"
      using snoc.prems(2) r by (auto simp: run_machine_append split_beta)
    have v: "consent_view s1 = (Connected, word_of_nat (length ts + 1), ss_cfg s, None, True)"
      and out1: "rearmed out1 = length ts" "requests out1 \<le> length ts"
      using snoc.IH [OF _ r] snoc.prems(1) by simp_all
    then have v': "consent_view (s1\<lparr>ss_now := t, ss_log := []\<rparr>) = (Connected, word_of_nat (length ts + 1), ss_cfg s, None, True)"
      by (simp add: consent_view_def)
    have next_miss: "(word_of_nat (length ts + 1) :: u32) + 1 = word_of_nat (length (ts @ [t]) + 1)" by simp
    note tick = keepalive_tick [OF v' assms(1), of E, folded run_silent_tick(1), unfolded next_miss]
    note log = keepalive_log [OF v assms(1), unfolded next_miss, of E t]
    have "(word_of_nat (length (ts @ [t]) + 1) :: u32) < word_of_int (cf_consent_max_failures (ss_cfg s)) \<longleftrightarrow>
        length (ts @ [t]) + 1 < k"
      unfolding assms(3) using snoc.prems(1) by (intro lt) simp
    then show ?case
      using tick log out1 unfolding s' by (cases "length (ts @ [t]) + 1 < k") simp_all
  qed
  moreover have "unat (word_of_nat n :: u32) = n" if "n < k" for n
    using that assms(4) by (simp add: unat_of_nat)
  ultimately show ?thesis by (auto simp: consent_view_def simp del: of_nat_Suc of_nat_add)
qed

section \<open>Application data before the connection\<close>

text \<open>The abstract queue: the most recent frames, oldest first.\<close>

definition recent :: "nat \<Rightarrow> 'a list \<Rightarrow> 'a list" where
  "recent n xs = rev (take n (rev xs))"

lemma recent_recent: "recent n (recent n xs @ ys) = recent n (xs @ ys)"
  by (simp add: recent_def take_append min_def)

lemma recent_short: "length xs \<le> n \<Longrightarrow> recent n xs = xs"
  by (simp add: recent_def)

lemma length_recent: "length (recent n xs) \<le> n"
  by (simp add: recent_def)

lemma recent_snoc: "recent (Suc n) (xs @ [x]) = recent n xs @ [x]"
  by (simp add: recent_def)

lemma recent_full: "length xs = Suc n \<Longrightarrow> recent n xs = tl xs"
  by (simp add: recent_def rev_take drop_Suc)

lemma park_one:
  assumes "ss_state s \<noteq> Connected" and len: "length (ss_pending_app_data s) \<le> kPendingAppDataMaxFrames"
  shows "exec (run_app_data E buf) s =
    s\<lparr>ss_pending_app_data := recent kPendingAppDataMaxFrames (ss_pending_app_data s @ [buf])\<rparr>"
proof -
  obtain m where m: "kPendingAppDataMaxFrames = Suc m" by (simp add: kPendingAppDataMaxFrames_def)
  have "recent (Suc m) (ss_pending_app_data s @ [buf]) =
      (if length (ss_pending_app_data s) \<ge> Suc m then tl (ss_pending_app_data s) else ss_pending_app_data s) @ [buf]"
  proof (cases "length (ss_pending_app_data s) = Suc m")
    case True
    then show ?thesis by (simp add: recent_snoc recent_full [OF True])
  next
    case False
    with len m show ?thesis by (simp add: recent_snoc recent_short)
  qed
  then show ?thesis using assms(1) by (simp add: run_app_data_def m Let_def)
qed

text \<open>C10: The pending buffer refines a queue of the most recent frames. While the session is not
  connected, any sequence of sends leaves in the buffer exactly the last 64 frames, in the order
  sent, and changes nothing else.\<close>

theorem pending_refines_recent:
  assumes "ss_state s \<noteq> Connected" and "length (ss_pending_app_data s) \<le> kPendingAppDataMaxFrames"
  shows "exec (for_each (run_app_data E) bufs) s =
    s\<lparr>ss_pending_app_data := recent kPendingAppDataMaxFrames (ss_pending_app_data s @ bufs)\<rparr>"
  using assms
proof (induction bufs arbitrary: s)
  case Nil
  then show ?case by (simp add: recent_short)
next
  case (Cons b bs)
  let ?s = "exec (run_app_data E b) s"
  have s: "?s = s\<lparr>ss_pending_app_data := recent kPendingAppDataMaxFrames (ss_pending_app_data s @ [b])\<rparr>"
    using Cons.prems by (rule park_one)
  have "exec (for_each (run_app_data E) bs) ?s =
      ?s\<lparr>ss_pending_app_data := recent kPendingAppDataMaxFrames (ss_pending_app_data ?s @ bs)\<rparr>"
    using Cons.prems by (intro Cons.IH) (simp_all add: s length_recent)
  then show ?case by (simp add: s split_beta recent_recent)
qed

section \<open>Relayed peers and restart\<close>

text \<open>C34: A restart strands relayed peers. Tearing down the conn ids forgets the endpoint of a relayed
  peer but keeps its synthetic conn id, so that id is found again without its endpoint: a binding
  request from that peer, of the opposite role, is neither answered nor checked back, and its
  nomination is ignored.\<close>

theorem relayed_peer_stranded:
  assumes "ss_turn s \<noteq> None" and "cid \<in> ss_relay_cids s"
    and "ss_relay_endpoint_to_cid s (endpoint_key ip port) = Some cid"
    and s'_def: "s' = exec tear_down_cids s"
    and "\<not> (sm_ice_controlling msg \<noteq> None \<and> ss_controlling s)"
    and "\<not> (sm_ice_controlled msg \<noteq> None \<and> \<not> ss_controlling s)"
  shows "run_state (relay_cid_for_endpoint ip port) s' = (cid, s') \<and>
    exec (handle_binding_request E msg cid False) s' = s'"
proof -
  have "ss_turn s' = ss_turn s" "ss_relay_cids s' = ss_relay_cids s" "ss_controlling s' = ss_controlling s"
    "ss_relay_endpoint_to_cid s' = ss_relay_endpoint_to_cid s" "ss_cid_udp s' = Map.empty"
    by (simp_all add: s'_def tear_down_cids_def emit_def)
  then show ?thesis
    using assms by (auto simp: relay_cid_for_endpoint_def handle_binding_request_def
        answer_binding_request_def reply_to_def maybe_trigger_check_from_peer_def Let_def)
qed

section \<open>Closed instances\<close>

definition sample_checking :: Session where
  "sample_checking = blank_session\<lparr>ss_state := Checking\<rparr>"

theorem scheduler_progress_witness:
  "(\<exists>log ms. ss_log (exec (run_next_check sample_session_env) sample_checking) =
      log @ [ArmTimer CheckTimer ms (ss_gen (exec (run_next_check sample_session_env) sample_checking) CheckTimer)]) \<or>
   (\<exists>log ms. ss_log (exec (run_next_check sample_session_env) sample_checking) =
      log @ [ArmTimer NominationWaitTimer ms (ss_gen (exec (run_next_check sample_session_env) sample_checking) NominationWaitTimer)]) \<or>
   (\<exists>log. ss_log (exec (run_next_check sample_session_env) sample_checking) = log @ [OnFailed])"
proof -
  have "ss_state sample_checking = Checking" "ss_timer_ctx sample_checking" "ss_cb_failed sample_checking"
    by (simp_all add: sample_checking_def blank_session_def)
  from scheduler_progress [OF this refl, of sample_session_env] show ?thesis by blast
qed

theorem consent_expires_witness:
  "ss_state (fst (run_machine (silent_tick sample_session_env) [20]
     (exec (on_nominated sample_session_env ''10.0.0.1'' 9 False 5 Udp) sample_checking))) = Connected \<and>
   ss_state (fst (run_machine (silent_tick sample_session_env) [20, 40]
     (exec (on_nominated sample_session_env ''10.0.0.1'' 9 False 5 Udp) sample_checking))) \<noteq> Connected"
proof -
  have s: "\<not> cf_lite_mode (ss_cfg sample_checking)" "ss_timer_ctx sample_checking"
    "cf_consent_max_failures (ss_cfg sample_checking) = int 3"
    by (simp_all add: sample_checking_def blank_session_def default_ice_config_def)
  note r = consent_expires [OF s _ _ surjective_pairing]
  show ?thesis
    using r [of "[20]" sample_session_env "''10.0.0.1''" 9 False 5 Udp] r [of "[20, 40]" sample_session_env "''10.0.0.1''" 9 False 5 Udp]
    by simp
qed

theorem pending_refines_recent_witness:
  "exec (for_each (run_app_data sample_session_env) [[1], [2]]) sample_checking =
     sample_checking\<lparr>ss_pending_app_data := [[1], [2]]\<rparr>"
proof -
  have "ss_state sample_checking \<noteq> Connected" "ss_pending_app_data sample_checking = []"
    by (simp_all add: sample_checking_def blank_session_def)
  then show ?thesis
    using pending_refines_recent [of sample_checking sample_session_env "[[1], [2]]"]
    by (simp add: recent_def kPendingAppDataMaxFrames_def)
qed

definition sample_relayed :: Session where
  "sample_relayed = blank_session\<lparr>ss_turn := Some \<lparr>st_kind = CarrierUdp, st_callbacks = PrimaryCallbacks,
       st_no = 0, st_client = sample_client\<rparr>,
     ss_relay_cids := {5}, ss_relay_endpoint_to_cid := [endpoint_key ''10.0.0.1'' 9 \<mapsto> 5]\<rparr>"

theorem relayed_peer_stranded_witness:
  "exec (handle_binding_request sample_session_env (empty_message STUN_BINDING_REQUEST (replicate 12 0)) 5 False)
     (exec tear_down_cids sample_relayed) = exec tear_down_cids sample_relayed"
proof -
  have "ss_turn sample_relayed \<noteq> None" "5 \<in> ss_relay_cids sample_relayed"
    "ss_relay_endpoint_to_cid sample_relayed (endpoint_key ''10.0.0.1'' 9) = Some 5"
    by (simp_all add: sample_relayed_def)
  from relayed_peer_stranded [OF this refl, of "empty_message STUN_BINDING_REQUEST (replicate 12 0)" sample_session_env]
  show ?thesis by (simp add: empty_message_def)
qed

end
