(* ===== verification/Ext_Clients.thy ===== *)
theory Ext_Clients
  imports Mdns_Codec
begin

text \<open>
  The clients of the host's extensions: \<open>src/dns_ext_client.cpp\<close> (SRV records and service URIs) and
  \<open>src/portmap_ext_client.cpp\<close>. The host is not part of the sources: what a query for an extension
  returns, the functions in its vtable, the sizes and codes of the SDK, \<open>gn::uri_has_control_bytes\<close> and
  \<open>gn::parse_uri\<close> are arguments. \<open>std::sort\<close> is an argument too, because it may order equivalent
  elements in any way.
\<close>

section \<open>Results of the host API\<close>

datatype gn_result =
    GN_OK
  | GN_ERR_NULL_ARG
  | GN_ERR_OUT_OF_MEMORY
  | GN_ERR_INVALID_ENVELOPE
  | GN_ERR_NOT_IMPLEMENTED
  | GN_ERR_NOT_FOUND
  | GN_ERR_INVALID_STATE
  | GN_ERR_OUT_OF_RANGE
  | GN_ERR_PAYLOAD_TOO_LARGE
  | GN_ERR_OTHER int

text \<open>
  What \<open>query_extension_checked\<close> gives: \<open>None\<close> when the API or the slot is null, otherwise the
  result code and the vtable, if it is not null.
\<close>

type_synonym 'v extension_query = "(gn_result \<times> 'v option) option"

section \<open>SRV records\<close>

record ResolvedSrv =
  srv_target :: string
  srv_port :: u16
  srv_priority :: u16
  srv_weight :: u16
  srv_ttl_s :: u32

text \<open>Two octets at a pointer, in network order.\<close>

definition srv_read_be16 :: "bytes \<Rightarrow> nat \<Rightarrow> u16 checked" where
  "srv_read_be16 p i = (if i + 1 < length p then Some (push_bit 8 (ucast (p ! i)) OR ucast (p ! (i + 1))) else None)"

lemma srv_read_be16_read16: "srv_read_be16 p i = read16 p i"
  by (simp add: srv_read_be16_def read16_def)

record NameView =
  nv_name :: string
  nv_consumed :: nat
  nv_ok :: bool

function srv_name_loop :: "bytes \<Rightarrow> nat \<Rightarrow> NameView \<Rightarrow> NameView checked" where
  "srv_name_loop src cursor out =
     (if \<not> cursor < length src then Some out
      else case rd8 src cursor of None \<Rightarrow> None | Some lb \<Rightarrow>
        if lb AND 0xC0 \<noteq> 0 then Some out
        else if lb = 0 then Some (out\<lparr>nv_consumed := cursor + 1, nv_ok := True\<rparr>)
        else if lb > 63 then Some out
        else if cursor + 1 + unat lb > length src then Some out
        else case rd src (cursor + 1) (unat lb) of None \<Rightarrow> None | Some label \<Rightarrow>
          srv_name_loop src (cursor + 1 + unat lb)
            (out\<lparr>nv_name := nv_name out @ (if nv_name out = [] then [] else ''.'') @ string_of_bytes label\<rparr>))"
  by pat_completeness auto
termination
  by (relation "measure (\<lambda>(src, cursor, _). length src - cursor)") auto

declare srv_name_loop.simps [simp del]

definition srv_decode_name :: "bytes \<Rightarrow> NameView checked" where
  "srv_decode_name src = srv_name_loop src 0 \<lparr>nv_name = [], nv_consumed = 0, nv_ok = False\<rparr>"

definition parse_srv_blob :: "bytes \<Rightarrow> ResolvedSrv parsed" where
  "parse_srv_blob rdata =
     (if length rdata < 7 then reject
      else do {
        priority \<leftarrow> srv_read_be16 rdata 0;
        weight \<leftarrow> srv_read_be16 rdata 2;
        port \<leftarrow> srv_read_be16 rdata 4;
        nv \<leftarrow> srv_decode_name (drop 6 rdata);
        (if \<not> nv_ok nv then reject
         else accept \<lparr>srv_target = nv_name nv, srv_port = port, srv_priority = priority,
                srv_weight = weight, srv_ttl_s = 0\<rparr>)
      })"

text \<open>A record the extension emits; a null pointer is \<open>None\<close>.\<close>

record gn_dns_record =
  dr_type :: u16
  dr_rdata :: bytes
  dr_ttl_s :: u32

definition srv_emit :: "u16 \<Rightarrow> gn_dns_record option \<Rightarrow> ResolvedSrv list \<Rightarrow> ResolvedSrv list" where
  "srv_emit rr_srv rec out =
     (case rec of
        None \<Rightarrow> out
      | Some r \<Rightarrow>
          if dr_type r \<noteq> rr_srv then out
          else case parse_srv_blob (dr_rdata r) of
            Some (Some p) \<Rightarrow> out @ [p\<lparr>srv_ttl_s := dr_ttl_s r\<rparr>]
          | _ \<Rightarrow> out)"

text \<open>\<open>operator<\<close> of \<open>std::string\<close> compares octets.\<close>

fun str_less :: "string \<Rightarrow> string \<Rightarrow> bool" where
  "str_less xs [] = False"
| "str_less [] (y # ys) = True"
| "str_less (x # xs) (y # ys) =
     ((of_char x :: nat) < of_char y \<or> x = y \<and> str_less xs ys)"

definition srv_less :: "ResolvedSrv \<Rightarrow> ResolvedSrv \<Rightarrow> bool" where
  "srv_less a b =
     (if srv_priority a \<noteq> srv_priority b then srv_priority a < srv_priority b
      else if srv_weight a \<noteq> srv_weight b then srv_weight a > srv_weight b
      else str_less (srv_target a) (srv_target b))"

text \<open>The vtable of the DNS extension: the records that \<open>resolve\<close> emits for a name, type and limit.\<close>

record dns_api =
  da_api_size :: nat
  da_resolve :: "(string \<Rightarrow> u16 \<Rightarrow> u32 \<Rightarrow> gn_dns_record option list) option"

record dns_env =
  de_sizeof_api :: nat
  de_rr_srv :: u16
  de_sort :: "ResolvedSrv list \<Rightarrow> ResolvedSrv list"

definition dns_ext_query :: "dns_env \<Rightarrow> dns_api extension_query \<Rightarrow> dns_api option" where
  "dns_ext_query D q =
     (case q of
        None \<Rightarrow> None
      | Some (rc, raw) \<Rightarrow>
          if rc \<noteq> GN_OK then None
          else case raw of
            None \<Rightarrow> None
          | Some vt \<Rightarrow>
              if da_api_size vt < de_sizeof_api D then None
              else if Option.is_none (da_resolve vt) then None
              else Some vt)"

definition resolve_srv :: "dns_env \<Rightarrow> dns_api \<Rightarrow> string \<Rightarrow> u32 \<Rightarrow> ResolvedSrv list" where
  "resolve_srv D vt srv_name max_results =
     (case da_resolve vt of
        None \<Rightarrow> []
      | Some f \<Rightarrow> de_sort D (fold (srv_emit (de_rr_srv D)) (f srv_name (de_rr_srv D) max_results) []))"

definition resolve_service :: "dns_env \<Rightarrow> dns_api \<Rightarrow> string \<Rightarrow> string \<Rightarrow> string \<Rightarrow> u32 \<Rightarrow> ResolvedSrv list" where
  "resolve_service D vt service proto host max_results =
     resolve_srv D vt (''_'' @ service @ ''.'' @ ''_'' @ proto @ ''.'' @ host) max_results"

section \<open>Service URIs\<close>

record uri_env =
  ue_has_control_bytes :: "string \<Rightarrow> bool"
  ue_parse_uri :: "string \<Rightarrow> (string \<times> u16) option"

record ServiceUri =
  su_scheme :: string
  su_host :: string
  su_port :: u16

text \<open>What follows the last occurrence of a character, if there is one.\<close>

definition after_last :: "char \<Rightarrow> string \<Rightarrow> string" where
  "after_last c s = rev (takeWhile (\<lambda>x. x \<noteq> c) (rev s))"

definition parse_authority :: "uri_env \<Rightarrow> string \<Rightarrow> string \<Rightarrow> ServiceUri option" where
  "parse_authority U scheme rest =
     (if rest = [] then None
      else if hd rest = CHR ''['' then None
      else if CHR '':'' \<notin> set rest then Some \<lparr>su_scheme = scheme, su_host = rest, su_port = 0\<rparr>
      else case ue_parse_uri U (scheme @ ''://'' @ rest) of
        None \<Rightarrow> None
      | Some (host, port) \<Rightarrow>
          if host = [] \<or> port = 0 then None
          else Some \<lparr>su_scheme = scheme, su_host = host, su_port = port\<rparr>)"

definition parse_service_uri :: "uri_env \<Rightarrow> string \<Rightarrow> ServiceUri option" where
  "parse_service_uri U raw =
     (if ue_has_control_bytes U raw then None
      else if CHR '':'' \<notin> set raw then None
      else
        let scheme = takeWhile (\<lambda>c. c \<noteq> CHR '':'') raw;
            rest = drop (length scheme + 1) raw
        in if scheme \<noteq> ''stun'' \<and> scheme \<noteq> ''turn'' then None
           else if rest = [] then None
           else
             let slashes = (take 2 rest = ''//'');
                 rest = (if slashes then drop 2 rest else rest)
             in if slashes \<and> rest = [] then None
                else if CHR ''@'' \<in> set rest then parse_authority U scheme (after_last (CHR ''@'') rest)
                else parse_authority U scheme rest)"

section \<open>Port mapping\<close>

text \<open>The vtable of the port mapping extension; the type variable stands for its mapping structure.\<close>

record 'm portmap_api =
  pa_api_size :: nat
  pa_supported :: "u32 option"
  pa_request :: "(u32 \<Rightarrow> u16 \<Rightarrow> u16 \<Rightarrow> u32 \<Rightarrow> int \<times> 'm) option"
  pa_release :: "(u32 \<Rightarrow> u16 \<Rightarrow> int) option"

definition portmap_query :: "nat \<Rightarrow> 'm portmap_api extension_query \<Rightarrow> 'm portmap_api option" where
  "portmap_query sizeof_api q =
     (case q of
        None \<Rightarrow> None
      | Some (rc, raw) \<Rightarrow>
          if rc \<noteq> GN_OK then None
          else case raw of
            None \<Rightarrow> None
          | Some vt \<Rightarrow>
              if pa_api_size vt < sizeof_api then None
              else if Option.is_none (pa_supported vt) then None
              else if Option.is_none (pa_request vt) then None
              else if Option.is_none (pa_release vt) then None
              else Some vt)"

definition supported_protocols :: "'m portmap_api option \<Rightarrow> u32" where
  "supported_protocols vt =
     (case vt of None \<Rightarrow> 0 | Some v \<Rightarrow> (case pa_supported v of None \<Rightarrow> 0 | Some protocols \<Rightarrow> protocols))"

text \<open>The mapping written to \<open>out\<close>, \<open>None\<close> when the request fails or \<open>out\<close> is null.\<close>

definition portmap_request ::
  "'m portmap_api option \<Rightarrow> u32 \<Rightarrow> u16 \<Rightarrow> u16 \<Rightarrow> u32 \<Rightarrow> bool \<Rightarrow> 'm option" where
  "portmap_request vt protocol int_port hint lifetime out =
     (case vt of
        None \<Rightarrow> None
      | Some v \<Rightarrow> (case pa_request v of
          None \<Rightarrow> None
        | Some f \<Rightarrow>
            if \<not> out then None
            else let (rc, mapping) = f protocol int_port hint lifetime
                 in if rc = 0 then Some mapping else None))"

definition portmap_release :: "'m portmap_api option \<Rightarrow> u32 \<Rightarrow> u16 \<Rightarrow> bool" where
  "portmap_release vt protocol int_port =
     (case vt of
        None \<Rightarrow> False
      | Some v \<Rightarrow> (case pa_release v of None \<Rightarrow> False | Some f \<Rightarrow> f protocol int_port = 0))"

section \<open>SRV data is read inside the blob\<close>

lemma srv_name_loop_safe [simp]: "safe (srv_name_loop src cursor out)"
  by (induction src cursor out rule: srv_name_loop.induct)
    (subst srv_name_loop.simps, auto simp: rd8_def rd_def split: option.splits)

lemma parse_srv_blob_safe: "safe (parse_srv_blob rdata)"
proof -
  have "safe (srv_decode_name src)" for src by (simp add: srv_decode_name_def)
  then show ?thesis
    unfolding parse_srv_blob_def srv_read_be16_read16 by (auto intro!: safe_bind)
qed

lemma srv_labels:
  assumes "labels_ok ls"
  shows "srv_name_loop (pre @ label_octets ls @ 0 # post) (length pre) out =
    Some (out\<lparr>nv_name := foldl (\<lambda>n l. n @ (if n = [] then [] else ''.'') @ l) (nv_name out) ls,
      nv_consumed := length pre + length (label_octets ls) + 1, nv_ok := True\<rparr>)"
  using assms
proof (induction ls arbitrary: pre out)
  case Nil
  show ?case by (subst srv_name_loop.simps) (simp add: rd8_def label_octets_def)
next
  case (Cons l ls)
  let ?n = "word_of_nat (length l) :: byte"
  let ?o = "?n # bytes_of_string l"
  let ?data = "pre @ label_octets (l # ls) @ 0 # post"
  have l: "l \<noteq> []" "length l \<le> 63" "labels_ok ls" using Cons.prems by (simp_all add: labels_ok_def)
  have n: "?n AND 0xC0 = 0" "unat ?n = length l" using l(2) by (simp_all only: label_len_bits)
  have nz: "?n \<noteq> 0" using n(2) l(1) by (metis length_0_conv unat_0)
  have le: "\<not> ?n > 63" using n(2) l(2) by (simp add: word_less_nat_alt)
  have split: "?data = (pre @ ?o) @ label_octets ls @ 0 # post" by (simp add: label_octets_def)
  have data: "?data = (pre @ [?n]) @ bytes_of_string l @ (label_octets ls @ 0 # post)"
    by (simp add: label_octets_def)
  have rd: "rd ?data (Suc (length pre)) (length l) = Some (bytes_of_string l)"
    unfolding data by (rule rd_append_mid) simp_all
  have hd: "rd8 ?data (length pre) = Some ?n" by (simp add: rd8_def label_octets_def nth_append)
  have len: "length (label_octets (l # ls)) = Suc (length l) + length (label_octets ls)"
    by (simp add: label_octets_def)
  have "srv_name_loop ?data (length pre) out =
      srv_name_loop ?data (length pre + 1 + length l)
        (out\<lparr>nv_name := nv_name out @ (if nv_name out = [] then [] else ''.'') @ l\<rparr>)"
    by (subst srv_name_loop.simps) (simp add: hd nz n rd len le)
  then show ?case
    using Cons.IH [of "pre @ ?o" "out\<lparr>nv_name := nv_name out @ (if nv_name out = [] then [] else ''.'') @ l\<rparr>"] l(3) len
    by (simp only: split) simp
qed

text \<open>The encoding the comment of the source describes: three 16-bit fields and the labels of the target.\<close>

definition srv_rdata :: "u16 \<Rightarrow> u16 \<Rightarrow> u16 \<Rightarrow> string list \<Rightarrow> bytes" where
  "srv_rdata priority weight port ls =
     write16 priority @ write16 weight @ write16 port @ label_octets ls @ [0]"

lemma foldl_dotted:
  "labels_ok ls \<Longrightarrow> foldl (\<lambda>n l. n @ (if n = [] then [] else ''.'') @ l) [] ls = dotted ls"
proof (cases ls)
  case (Cons l ms)
  assume ok: "labels_ok ls"
  have "foldl (\<lambda>n l. n @ (if n = [] then [] else ''.'') @ l) nm ks = nm @ concat (map (\<lambda>l. ''.'' @ l) ks)"
    if "labels_ok ks" "nm \<noteq> []" for ks nm
    using that by (induction ks arbitrary: nm) (simp_all add: labels_ok_def)
  then show ?thesis using ok by (simp add: Cons labels_ok_def dotted_concat del: join_with.simps)
qed simp

lemma parse_srv_rdata:
  assumes "labels_ok ls"
  shows "parse_srv_blob (srv_rdata priority weight port ls) =
    accept \<lparr>srv_target = dotted ls, srv_port = port, srv_priority = priority, srv_weight = weight, srv_ttl_s = 0\<rparr>"
proof -
  let ?b = "srv_rdata priority weight port ls"
  have "read16 (write16 priority @ x) 0 = Some priority" for x by simp
  then have 1: "read16 ?b 0 = Some priority" by (simp add: srv_rdata_def)
  have "read16 (write16 priority @ write16 weight @ x) 2 = Some weight" for x by (rule c16.dec_at) simp
  then have 2: "read16 ?b 2 = Some weight" by (simp add: srv_rdata_def)
  have "read16 ((write16 priority @ write16 weight) @ write16 port @ x) 4 = Some port" for x
    by (rule c16.dec_at) simp
  then have 3: "read16 ?b 4 = Some port" by (simp add: srv_rdata_def)
  have "drop 6 ?b = label_octets ls @ [0]" by (simp add: srv_rdata_def)
  then have 4: "srv_decode_name (drop 6 ?b) =
      Some \<lparr>nv_name = dotted ls, nv_consumed = length (label_octets ls) + 1, nv_ok = True\<rparr>"
    using srv_labels [OF assms, of "[]" "[]"] foldl_dotted [OF assms] by (simp add: srv_decode_name_def)
  have "7 \<le> length ?b" by (simp add: srv_rdata_def)
  then show ?thesis using 1 2 3 4 by (simp add: parse_srv_blob_def srv_read_be16_read16)
qed

end
