(* ===== verification/Link_Config.thy ===== *)
theory Link_Config
  imports Session_State Ext_Clients
begin

text \<open>
  \<open>IceLink::apply_config\<close> of \<open>src/link_ice.cpp\<close>: the configuration of the sessions from the host's typed
  key-value store. Reading a key succeeds with a value or fails (\<open>None\<close>); a string that is read
  successfully but is null counts as a failure, as in the code. The store is an argument.
\<close>

section \<open>The host's configuration\<close>

record host_config =
  hc_int64 :: "string \<Rightarrow> int option"
  hc_bool :: "string \<Rightarrow> bool option"
  hc_string :: "string \<Rightarrow> string option"
  hc_array_size :: "string \<Rightarrow> nat option"
  hc_array_string :: "string \<Rightarrow> nat \<Rightarrow> string option"
  hc_array_int64 :: "string \<Rightarrow> nat \<Rightarrow> int option"

record config_env =
  ce_uri :: uri_env
  ce_dns :: dns_env
  ce_dns_ext :: "dns_api extension_query"

definition kDefaultStunServers :: "string list" where
  "kDefaultStunServers = [''stun.l.google.com:19302'']"

definition kDefaultMtu :: u32 where "kDefaultMtu = 1200"

text \<open>The strings of an array that can be read, in order.\<close>

definition array_strings :: "host_config \<Rightarrow> string \<Rightarrow> nat \<Rightarrow> string list" where
  "array_strings H key n = List.map_filter (hc_array_string H key) [0..<n]"

definition host_port :: "string \<Rightarrow> u16 \<Rightarrow> string" where
  "host_port host port = host @ '':'' @ to_string (unat port)"

section \<open>Servers\<close>

definition push_stun :: "config_env \<Rightarrow> dns_api option \<Rightarrow> string \<Rightarrow> string list" where
  "push_stun C dns_ext raw =
     (case parse_service_uri (ce_uri C) raw of
        None \<Rightarrow> [raw]
      | Some svc \<Rightarrow>
          let srv = (case dns_ext of
                Some vt \<Rightarrow> if su_scheme svc = ''stun'' \<and> su_port svc = 0
                           then resolve_service (ce_dns C) vt ''stun'' ''udp'' (su_host svc) 16 else []
              | None \<Rightarrow> [])
          in if srv \<noteq> [] then map (\<lambda>r. host_port (srv_target r) (srv_port r)) srv
             else if su_scheme svc = ''stun'' \<and> su_port svc \<noteq> 0 then [host_port (su_host svc) (su_port svc)]
             else [raw])"

definition read_stun_servers :: "config_env \<Rightarrow> dns_api option \<Rightarrow> host_config \<Rightarrow> string list" where
  "read_stun_servers C dns_ext H =
     (case hc_array_size H ''ice.stun_servers'' of
        None \<Rightarrow> kDefaultStunServers
      | Some n \<Rightarrow> concat (map (push_stun C dns_ext) (array_strings H ''ice.stun_servers'' n)))"

definition turn_at :: "string \<Rightarrow> u16 \<Rightarrow> TurnConfig" where
  "turn_at server port = default_turn_config\<lparr>tcf_server := server, tcf_port := port\<rparr>"

text \<open>The part of \<open>parse_turn_entry\<close> for strings that are no service URI with a usable port.\<close>

definition legacy_turn_entry :: "config_env \<Rightarrow> string \<Rightarrow> TurnConfig option" where
  "legacy_turn_entry C raw =
     (if ue_has_control_bytes (ce_uri C) raw then None
      else if CHR '':'' \<notin> set raw then Some (default_turn_config\<lparr>tcf_server := raw\<rparr>)
      else case ue_parse_uri (ce_uri C) raw of
        None \<Rightarrow> None
      | Some (host, port) \<Rightarrow> if host = [] \<or> port = 0 then None else Some (turn_at host port))"

definition parse_turn_entry :: "config_env \<Rightarrow> dns_api option \<Rightarrow> string \<Rightarrow> TurnConfig option" where
  "parse_turn_entry C dns_ext raw =
     (if raw = [] then None
      else case parse_service_uri (ce_uri C) raw of
        None \<Rightarrow> legacy_turn_entry C raw
      | Some svc \<Rightarrow>
          if su_scheme svc \<noteq> ''turn'' then legacy_turn_entry C raw
          else if su_port svc \<noteq> 0 then Some (turn_at (su_host svc) (su_port svc))
          else case dns_ext of
            None \<Rightarrow> legacy_turn_entry C raw
          | Some vt \<Rightarrow>
              (case resolve_service (ce_dns C) vt ''turn'' ''udp'' (su_host svc) 1 of
                 [] \<Rightarrow> None
               | r # rs \<Rightarrow> Some (turn_at (srv_target r) (srv_port r))))"

definition read_turn_servers :: "config_env \<Rightarrow> dns_api option \<Rightarrow> host_config \<Rightarrow> TurnConfig list" where
  "read_turn_servers C dns_ext H =
     (case hc_array_size H ''ice.turn_servers'' of
        Some n \<Rightarrow> List.map_filter (parse_turn_entry C dns_ext) (array_strings H ''ice.turn_servers'' n)
      | None \<Rightarrow>
          (case hc_string H ''ice.turn_servers'' of
             None \<Rightarrow> []
           | Some value \<Rightarrow>
               (case parse_turn_entry C dns_ext value of None \<Rightarrow> [] | Some t \<Rightarrow> [t])))"

definition apply_to_all_turns :: "(TurnConfig \<Rightarrow> TurnConfig) \<Rightarrow> IceConfig \<Rightarrow> IceConfig" where
  "apply_to_all_turns f cfg = cfg\<lparr>cf_turn := f (cf_turn cfg), cf_turn_servers := map f (cf_turn_servers cfg)\<rparr>"

definition read_servers :: "config_env \<Rightarrow> dns_api option \<Rightarrow> host_config \<Rightarrow> IceConfig \<Rightarrow> IceConfig" where
  "read_servers C dns_ext H cfg =
     (let turns = read_turn_servers C dns_ext H
      in cfg\<lparr>cf_stun_servers := read_stun_servers C dns_ext H, cf_turn_servers := turns,
             cf_turn := (if turns = [] then cf_turn cfg else hd turns)\<rparr>)"

definition read_turn_credentials :: "host_config \<Rightarrow> IceConfig \<Rightarrow> IceConfig" where
  "read_turn_credentials H cfg =
     (let cfg = (case hc_string H ''ice.turn_username'' of
            None \<Rightarrow> cfg
          | Some u \<Rightarrow> apply_to_all_turns (\<lambda>t. t\<lparr>tcf_username := u\<rparr>) cfg)
      in case hc_string H ''ice.turn_password'' of
           None \<Rightarrow> cfg
         | Some p \<Rightarrow> apply_to_all_turns (\<lambda>t. t\<lparr>tcf_password := p\<rparr>) cfg)"

section \<open>Numbers and switches\<close>

text \<open>\<open>if (gn_config_get_int64(key, &v) == GN_OK && lo <= v && v <= hi) ...\<close>\<close>

definition with_int :: "host_config \<Rightarrow> string \<Rightarrow> int \<Rightarrow> int \<Rightarrow> (int \<Rightarrow> 'c \<Rightarrow> 'c) \<Rightarrow> 'c \<Rightarrow> 'c" where
  "with_int H key lo hi f cfg =
     (case hc_int64 H key of None \<Rightarrow> cfg | Some v \<Rightarrow> if lo \<le> v \<and> v \<le> hi then f v cfg else cfg)"

definition with_flag :: "host_config \<Rightarrow> string \<Rightarrow> (bool \<Rightarrow> 'c \<Rightarrow> 'c) \<Rightarrow> 'c \<Rightarrow> 'c" where
  "with_flag H key f cfg = (case hc_int64 H key of None \<Rightarrow> cfg | Some v \<Rightarrow> f (v \<noteq> 0) cfg)"

definition read_session_limits :: "host_config \<Rightarrow> IceConfig \<Rightarrow> IceConfig" where
  "read_session_limits H =
     with_int H ''ice.nomination_wait_ms'' 0 10000 (\<lambda>v c. c\<lparr>cf_nomination_wait_ms := v\<rparr>)
     \<circ> with_int H ''ice.max_check_retries'' 1 16 (\<lambda>v c. c\<lparr>cf_max_check_retries := v\<rparr>)
     \<circ> with_int H ''ice.check_interval_ms'' 1 59999 (\<lambda>v c. c\<lparr>cf_check_interval_ms := v\<rparr>)
     \<circ> with_int H ''ice.consent_max_recovery'' 0 10 (\<lambda>v c. c\<lparr>cf_consent_max_recovery := v\<rparr>)
     \<circ> with_int H ''ice.consent_max_failures'' 1 99 (\<lambda>v c. c\<lparr>cf_consent_max_failures := v\<rparr>)
     \<circ> with_int H ''ice.keepalive_interval_s'' 1 3599 (\<lambda>v c. c\<lparr>cf_keepalive_interval_s := v\<rparr>)
     \<circ> with_int H ''ice.session_timeout_s'' 1 3599 (\<lambda>v c. c\<lparr>cf_session_timeout_s := v\<rparr>)"

text \<open>The link's MTU and the configuration.\<close>

definition read_path_mtu :: "host_config \<Rightarrow> u32 \<times> IceConfig \<Rightarrow> u32 \<times> IceConfig" where
  "read_path_mtu H = (\<lambda>(mtu, cfg).
     case hc_int64 H ''ice.path_mtu'' of
       Some v \<Rightarrow> if 576 \<le> v \<and> v \<le> 65507 then (word_of_int v, cfg\<lparr>cf_path_mtu := v\<rparr>)
                 else (mtu, cfg\<lparr>cf_path_mtu := uint mtu\<rparr>)
     | None \<Rightarrow> (mtu, cfg\<lparr>cf_path_mtu := uint mtu\<rparr>))"

definition read_modes :: "host_config \<Rightarrow> IceConfig \<Rightarrow> IceConfig" where
  "read_modes H =
     with_int H ''ice.symmetric_port_prediction_attempts'' 0 64
       (\<lambda>v c. c\<lparr>cf_symmetric_port_prediction_attempts := v\<rparr>)
     \<circ> with_flag H ''ice.symmetric_port_prediction_enabled''
       (\<lambda>b c. c\<lparr>cf_symmetric_port_prediction_enabled := b\<rparr>)
     \<circ> with_flag H ''ice.reactive_interface_change'' (\<lambda>b c. c\<lparr>cf_reactive_interface_change := b\<rparr>)
     \<circ> with_flag H ''ice.lite_mode'' (\<lambda>b c. c\<lparr>cf_lite_mode := b\<rparr>)
     \<circ> with_flag H ''ice.aggressive_nomination'' (\<lambda>b c. c\<lparr>cf_aggressive_nomination := b\<rparr>)"

definition filter_token :: "string \<Rightarrow> u32" where
  "filter_token tok =
     (if tok = ''exclude-ipv4'' then kCandidateFilterExcludeIpv4
      else if tok = ''exclude-ipv6'' then kCandidateFilterExcludeIpv6
      else if tok = ''relay-only'' then kCandidateFilterRelayOnly
      else if tok = ''host-only'' then kCandidateFilterHostOnly
      else 0)"

definition read_candidate_filters :: "host_config \<Rightarrow> IceConfig \<Rightarrow> IceConfig" where
  "read_candidate_filters H cfg =
     (case hc_array_size H ''ice.candidate_filters'' of
        None \<Rightarrow> cfg
      | Some n \<Rightarrow> cfg\<lparr>cf_candidate_filter_flags :=
          fold (\<lambda>tok flags. flags OR filter_token tok) (array_strings H ''ice.candidate_filters'' n)
            (cf_candidate_filter_flags cfg)\<rparr>)"

definition read_turn_timers :: "host_config \<Rightarrow> IceConfig \<Rightarrow> IceConfig" where
  "read_turn_timers H =
     with_int H ''ice.mdns_resolve_timeout_ms'' 1 59999 (\<lambda>v c. c\<lparr>cf_mdns_resolve_timeout_ms := v\<rparr>)
     \<circ> with_flag H ''ice.mdns_obfuscate_host_candidates''
       (\<lambda>b c. c\<lparr>cf_mdns_obfuscate_host_candidates := b\<rparr>)
     \<circ> with_int H ''ice.turn_failover_min_interval_s'' 0 3599
       (\<lambda>v c. c\<lparr>cf_turn_failover_min_interval_s := v\<rparr>)
     \<circ> with_int H ''ice.turn_backup_interval_s'' 0 3599 (\<lambda>v c. c\<lparr>cf_turn_backup_interval_s := v\<rparr>)
     \<circ> with_int H ''ice.turn_allocate_timeout_s'' 1 599 (\<lambda>v c. c\<lparr>cf_turn_allocate_timeout_s := v\<rparr>)
     \<circ> (\<lambda>cfg. case hc_bool H ''ice.turn_tcp'' of
          None \<Rightarrow> cfg
        | Some b \<Rightarrow> apply_to_all_turns (\<lambda>t. t\<lparr>tcf_tcp_transport := b\<rparr>) cfg)"

definition read_requested_transport :: "host_config \<Rightarrow> IceConfig \<Rightarrow> IceConfig" where
  "read_requested_transport H cfg =
     (case hc_string H ''ice.turn_requested_transport'' of
        Some s \<Rightarrow>
          let proto = (if s = ''tcp'' \<or> s = ''TCP'' \<or> s = ''6'' then REQUESTED_TRANSPORT_TCP
                       else REQUESTED_TRANSPORT_UDP)
          in apply_to_all_turns (\<lambda>t. t\<lparr>tcf_requested_transport := proto\<rparr>) cfg
      | None \<Rightarrow>
          (case hc_int64 H ''ice.turn_requested_transport'' of
             None \<Rightarrow> cfg
           | Some v \<Rightarrow>
               let proto = (if v = uint REQUESTED_TRANSPORT_TCP then REQUESTED_TRANSPORT_TCP
                            else REQUESTED_TRANSPORT_UDP)
               in apply_to_all_turns (\<lambda>t. t\<lparr>tcf_requested_transport := proto\<rparr>) cfg))"

definition read_transports :: "host_config \<Rightarrow> IceConfig \<Rightarrow> IceConfig" where
  "read_transports H =
     with_int H ''ice.tcp_so_timeout_ms'' 1 599999 (\<lambda>v c. c\<lparr>cf_tcp_so_timeout_ms := v\<rparr>)
     \<circ> with_flag H ''ice.tcp_candidates_enabled'' (\<lambda>b c. c\<lparr>cf_tcp_candidates_enabled := b\<rparr>)
     \<circ> read_requested_transport H
     \<circ> with_flag H ''ice.turn_tls'' (\<lambda>b. apply_to_all_turns (\<lambda>t. t\<lparr>tcf_tls_transport := b\<rparr>))"

definition read_auto_restart :: "host_config \<Rightarrow> IceConfig \<Rightarrow> IceConfig" where
  "read_auto_restart H =
     with_int H ''ice.auto_restart_backoff_ms'' 0 599999 (\<lambda>v c. c\<lparr>cf_auto_restart_backoff_ms := v\<rparr>)
     \<circ> with_int H ''ice.auto_restart_max_attempts'' 0 100 (\<lambda>v c. c\<lparr>cf_auto_restart_max_attempts := v\<rparr>)
     \<circ> with_flag H ''ice.auto_restart_on_consent_loss'' (\<lambda>b c. c\<lparr>cf_auto_restart_on_consent_loss := b\<rparr>)"

definition read_search_steps :: "host_config \<Rightarrow> IceConfig \<Rightarrow> IceConfig" where
  "read_search_steps H cfg =
     (case hc_array_size H ''ice.pmtu_search_steps'' of
        None \<Rightarrow> cfg
      | Some n \<Rightarrow>
          let steps = filter (\<lambda>v. 576 \<le> v \<and> v \<le> 65507)
                (List.map_filter (hc_array_int64 H ''ice.pmtu_search_steps'') [0..<n])
          in if n > 0 \<and> steps \<noteq> [] then cfg\<lparr>cf_pmtu_search_steps := steps\<rparr> else cfg)"

definition read_pmtu :: "host_config \<Rightarrow> IceConfig \<Rightarrow> IceConfig" where
  "read_pmtu H =
     read_search_steps H
     \<circ> with_int H ''ice.pmtu_probe_concurrency'' 1 16 (\<lambda>v c. c\<lparr>cf_pmtu_probe_concurrency := v\<rparr>)
     \<circ> with_int H ''ice.pmtu_probe_timeout_ms'' 1 59999 (\<lambda>v c. c\<lparr>cf_pmtu_probe_timeout_ms := v\<rparr>)
     \<circ> with_flag H ''ice.pmtu_active_probing'' (\<lambda>b c. c\<lparr>cf_pmtu_active_probing := b\<rparr>)"

section \<open>The whole configuration\<close>

text \<open>\<open>H\<close> is \<open>None\<close> when no API is bound or it has no \<open>config_get\<close>.\<close>

definition apply_config :: "config_env \<Rightarrow> host_config option \<Rightarrow> u32 \<times> IceConfig \<Rightarrow> u32 \<times> IceConfig" where
  "apply_config C host = (\<lambda>(mtu, cfg).
     case host of
       None \<Rightarrow> (mtu, cfg)
     | Some H \<Rightarrow>
         let dns_ext = dns_ext_query (ce_dns C) (ce_dns_ext C);
             fresh = default_ice_config\<lparr>cf_stun_servers := kDefaultStunServers\<rparr>;
             (mtu, cfg) = read_path_mtu H
               (mtu, read_session_limits H (read_turn_credentials H (read_servers C dns_ext H fresh)))
         in (mtu, read_pmtu H (read_auto_restart H (read_transports H (read_turn_timers H
              (read_candidate_filters H (read_modes H cfg)))))))"

definition set_prefer_turn_tcp :: "bool \<Rightarrow> IceConfig \<Rightarrow> IceConfig" where
  "set_prefer_turn_tcp val cfg = cfg\<lparr>cf_prefer_turn_tcp := val\<rparr>"

definition set_security_overhead :: "int \<Rightarrow> IceConfig \<Rightarrow> IceConfig" where
  "set_security_overhead overhead cfg = cfg\<lparr>cf_security_overhead := overhead\<rparr>"

definition set_ordered_delivery :: "bool \<Rightarrow> IceConfig \<Rightarrow> IceConfig" where
  "set_ordered_delivery val cfg = cfg\<lparr>cf_ordered_delivery := val\<rparr>"

section \<open>Every configuration is usable\<close>

definition limits_ok :: "IceConfig \<Rightarrow> bool" where
  "limits_ok c \<longleftrightarrow>
     0 < cf_session_timeout_s c \<and> cf_session_timeout_s c < 3600 \<and>
     0 < cf_keepalive_interval_s c \<and> cf_keepalive_interval_s c < 3600 \<and>
     0 < cf_consent_max_failures c \<and> cf_consent_max_failures c < 100 \<and>
     0 \<le> cf_consent_max_recovery c \<and> cf_consent_max_recovery c \<le> 10 \<and>
     0 < cf_check_interval_ms c \<and> cf_check_interval_ms c < 60000 \<and>
     1 \<le> cf_max_check_retries c \<and> cf_max_check_retries c \<le> 16 \<and>
     0 \<le> cf_nomination_wait_ms c \<and> cf_nomination_wait_ms c \<le> 10000 \<and>
     0 \<le> cf_symmetric_port_prediction_attempts c \<and> cf_symmetric_port_prediction_attempts c \<le> 64"

definition timers_ok :: "IceConfig \<Rightarrow> bool" where
  "timers_ok c \<longleftrightarrow>
     0 < cf_turn_allocate_timeout_s c \<and> cf_turn_allocate_timeout_s c < 600 \<and>
     0 \<le> cf_turn_backup_interval_s c \<and> cf_turn_backup_interval_s c < 3600 \<and>
     0 \<le> cf_turn_failover_min_interval_s c \<and> cf_turn_failover_min_interval_s c < 3600 \<and>
     0 < cf_mdns_resolve_timeout_ms c \<and> cf_mdns_resolve_timeout_ms c < 60000 \<and>
     0 < cf_tcp_so_timeout_ms c \<and> cf_tcp_so_timeout_ms c < 600000 \<and>
     0 \<le> cf_auto_restart_max_attempts c \<and> cf_auto_restart_max_attempts c \<le> 100 \<and>
     0 \<le> cf_auto_restart_backoff_ms c \<and> cf_auto_restart_backoff_ms c < 600000 \<and>
     0 < cf_pmtu_probe_timeout_ms c \<and> cf_pmtu_probe_timeout_ms c < 60000 \<and>
     1 \<le> cf_pmtu_probe_concurrency c \<and> cf_pmtu_probe_concurrency c \<le> 16"

definition paths_ok :: "IceConfig \<Rightarrow> bool" where
  "paths_ok c \<longleftrightarrow>
     cf_pmtu_search_steps c \<noteq> [] \<and> list_all (\<lambda>v. 576 \<le> v \<and> v \<le> 65507) (cf_pmtu_search_steps c) \<and>
     (cf_turn_servers c \<noteq> [] \<longrightarrow> cf_turn c = hd (cf_turn_servers c)) \<and>
     cf_candidate_filter_flags c AND 0xFFFFFFF0 = 0"

definition mtu_ok :: "u32 \<Rightarrow> IceConfig \<Rightarrow> bool" where
  "mtu_ok mtu c \<longleftrightarrow> 576 \<le> uint mtu \<and> uint mtu \<le> 65507 \<and> cf_path_mtu c = uint mtu"

named_theorems config_ok_defs \<open>the parts of a well-formed configuration\<close>
declare limits_ok_def [config_ok_defs] timers_ok_def [config_ok_defs] paths_ok_def [config_ok_defs]

definition config_ok :: "IceConfig \<Rightarrow> bool" where
  "config_ok c \<longleftrightarrow> limits_ok c \<and> timers_ok c \<and> paths_ok c"

lemma config_okI: "limits_ok c \<Longrightarrow> timers_ok c \<Longrightarrow> paths_ok c \<Longrightarrow> config_ok c"
  by (simp add: config_ok_def)

lemma config_okD: "config_ok c \<Longrightarrow> limits_ok c" "config_ok c \<Longrightarrow> timers_ok c" "config_ok c \<Longrightarrow> paths_ok c"
  by (simp_all add: config_ok_def)

lemma with_int_keeps:
  fixes P :: "'c \<Rightarrow> bool"
  shows "(\<And>v. lo \<le> v \<Longrightarrow> v \<le> hi \<Longrightarrow> P c \<Longrightarrow> P (f v c)) \<Longrightarrow> P c \<Longrightarrow> P (with_int H key lo hi f c)"
  by (simp add: with_int_def split: option.split)

lemma with_flag_keeps:
  fixes P :: "'c \<Rightarrow> bool"
  shows "(\<And>b. P c \<Longrightarrow> P (f b c)) \<Longrightarrow> P c \<Longrightarrow> P (with_flag H key f c)"
  by (simp add: with_flag_def split: option.split)

lemmas keeps_config = with_int_keeps [where P = config_ok] with_flag_keeps [where P = config_ok]

lemma apply_to_all_ok: "config_ok c \<Longrightarrow> config_ok (apply_to_all_turns f c)"
  by (cases "cf_turn_servers c") (simp_all add: config_ok_def config_ok_defs apply_to_all_turns_def)

lemma servers_ok: "config_ok c \<Longrightarrow> config_ok (read_servers C d H c)"
  by (simp add: config_ok_def config_ok_defs read_servers_def Let_def)

lemma credentials_ok: "config_ok c \<Longrightarrow> config_ok (read_turn_credentials H c)"
  by (simp add: read_turn_credentials_def apply_to_all_ok split: option.split)

lemma session_limits_ok: "config_ok c \<Longrightarrow> config_ok (read_session_limits H c)"
  unfolding read_session_limits_def comp_def
  by (intro keeps_config) (simp_all add: config_ok_def config_ok_defs)

lemma modes_ok: "config_ok c \<Longrightarrow> config_ok (read_modes H c)"
  unfolding read_modes_def comp_def
  by (intro keeps_config) (simp_all add: config_ok_def config_ok_defs)

lemma filter_token_bits: "filter_token tok AND 0xFFFFFFF0 = 0"
  by (simp add: filter_token_def filter_consts)

lemma filters_ok: "config_ok c \<Longrightarrow> config_ok (read_candidate_filters H c)"
proof -
  have "fold (\<lambda>tok flags. flags OR filter_token tok) toks flags AND 0xFFFFFFF0 = 0" if "flags AND 0xFFFFFFF0 = 0" for toks flags
    using that
    by (induction toks arbitrary: flags) (simp_all add: filter_token_bits bit.conj_disj_distrib2)
  then show "config_ok c \<Longrightarrow> ?thesis"
    by (simp add: config_ok_def config_ok_defs read_candidate_filters_def split: option.split)
qed

lemma turn_timers_ok: "config_ok c \<Longrightarrow> config_ok (read_turn_timers H c)"
proof -
  have t: "config_ok (case hc_bool H ''ice.turn_tcp'' of None \<Rightarrow> c
      | Some b \<Rightarrow> apply_to_all_turns (\<lambda>t. t\<lparr>tcf_tcp_transport := b\<rparr>) c)" if "config_ok c" for c
    using that by (simp add: apply_to_all_ok split: option.split)
  show "config_ok c \<Longrightarrow> ?thesis"
    unfolding read_turn_timers_def comp_def
    by (intro keeps_config t) (simp_all add: config_ok_def config_ok_defs)
qed

lemma transports_ok: "config_ok c \<Longrightarrow> config_ok (read_transports H c)"
proof -
  have r: "config_ok (read_requested_transport H c)" if "config_ok c" for c
    using that by (simp add: read_requested_transport_def Let_def apply_to_all_ok split: option.split)
  show "config_ok c \<Longrightarrow> ?thesis"
    unfolding read_transports_def comp_def
    by (intro keeps_config r apply_to_all_ok) (simp_all add: config_ok_def config_ok_defs)
qed

lemma auto_restart_ok: "config_ok c \<Longrightarrow> config_ok (read_auto_restart H c)"
  unfolding read_auto_restart_def comp_def
  by (intro keeps_config) (simp_all add: config_ok_def config_ok_defs)

lemma pmtu_ok: "config_ok c \<Longrightarrow> config_ok (read_pmtu H c)"
proof -
  have s: "config_ok (read_search_steps H c)" if "config_ok c" for c
    using that
    by (simp add: read_search_steps_def Let_def config_ok_def config_ok_defs list_all_iff split: option.split)
  show "config_ok c \<Longrightarrow> ?thesis"
    unfolding read_pmtu_def comp_def
    by (intro s keeps_config) (simp_all add: config_ok_def config_ok_defs)
qed

lemma fresh_ok: "config_ok (default_ice_config\<lparr>cf_stun_servers := servers\<rparr>)"
  by (simp add: config_ok_def config_ok_defs default_ice_config_def)

lemma read_path_mtu_ok:
  assumes "read_path_mtu H (mtu, c) = (mtu', c')" and "config_ok c" and "576 \<le> uint mtu" and "uint mtu \<le> 65507"
  shows "config_ok c' \<and> mtu_ok mtu' c'"
proof -
  have c: "config_ok (c\<lparr>cf_path_mtu := v\<rparr>)" for v using assms(2) by (simp add: config_ok_def config_ok_defs)
  have m: "uint (word_of_int v :: u32) = v" if "576 \<le> v" "v \<le> 65507" for v
    using that by (simp add: uint_word_of_int)
  show ?thesis
    using assms(1,3,4) c m by (auto simp: read_path_mtu_def mtu_ok_def split: option.splits if_splits)
qed

lemma with_int_mtu:
  "(\<And>v c. cf_path_mtu (f v c) = cf_path_mtu c) \<Longrightarrow> cf_path_mtu (with_int H k lo hi f c) = cf_path_mtu (c :: IceConfig)"
  by (simp add: with_int_def split: option.split)

lemma with_flag_mtu:
  "(\<And>v c. cf_path_mtu (f v c) = cf_path_mtu c) \<Longrightarrow> cf_path_mtu (with_flag H k f c) = cf_path_mtu (c :: IceConfig)"
  by (simp add: with_flag_def split: option.split)

lemma apply_to_all_mtu: "cf_path_mtu (apply_to_all_turns f c) = cf_path_mtu c"
  by (simp add: apply_to_all_turns_def)

lemmas reads_mtu = with_int_mtu with_flag_mtu apply_to_all_mtu

lemma later_reads_mtu:
  "cf_path_mtu (read_modes H c) = cf_path_mtu c"
  "cf_path_mtu (read_candidate_filters H c) = cf_path_mtu c"
  "cf_path_mtu (read_turn_timers H c) = cf_path_mtu c"
  "cf_path_mtu (read_transports H c) = cf_path_mtu c"
  "cf_path_mtu (read_auto_restart H c) = cf_path_mtu c"
  "cf_path_mtu (read_pmtu H c) = cf_path_mtu c"
proof -
  have t: "cf_path_mtu (read_requested_transport H c) = cf_path_mtu c" "cf_path_mtu (read_search_steps H c) = cf_path_mtu c"
    for c by (simp_all add: read_requested_transport_def read_search_steps_def Let_def reads_mtu split: option.split)
  show "cf_path_mtu (read_modes H c) = cf_path_mtu c" by (simp add: read_modes_def reads_mtu)
  show "cf_path_mtu (read_candidate_filters H c) = cf_path_mtu c"
    by (simp add: read_candidate_filters_def split: option.split)
  show "cf_path_mtu (read_turn_timers H c) = cf_path_mtu c"
    by (cases "hc_bool H ''ice.turn_tcp''") (simp_all add: read_turn_timers_def reads_mtu)
  show "cf_path_mtu (read_transports H c) = cf_path_mtu c" by (simp add: read_transports_def reads_mtu t)
  show "cf_path_mtu (read_auto_restart H c) = cf_path_mtu c" by (simp add: read_auto_restart_def reads_mtu)
  show "cf_path_mtu (read_pmtu H c) = cf_path_mtu c" by (simp add: read_pmtu_def reads_mtu t)
qed

text \<open>C15: Whatever the host's configuration contains, the link ends up with a well-formed one: every limit and
  timer within the range the code documents, a non-empty list of search steps between 576 and 65507
  octets, the first TURN server mirrored in the singleton field, only known filter bits, and a path MTU
  between 576 and 65507 that equals the link's own MTU.\<close>

theorem config_well_formed:
  assumes "576 \<le> uint mtu" and "uint mtu \<le> 65507" and "apply_config C (Some H) (mtu, cfg) = (mtu', cfg')"
  shows "config_ok cfg' \<and> mtu_ok mtu' cfg'"
proof -
  let ?c0 = "read_session_limits H (read_turn_credentials H (read_servers C (dns_ext_query (ce_dns C) (ce_dns_ext C)) H
    (default_ice_config\<lparr>cf_stun_servers := kDefaultStunServers\<rparr>)))"
  obtain m1 c1 where p: "read_path_mtu H (mtu, ?c0) = (m1, c1)" by (cases "read_path_mtu H (mtu, ?c0)")
  have "config_ok ?c0" by (intro session_limits_ok credentials_ok servers_ok fresh_ok)
  from read_path_mtu_ok [OF p this assms(1,2)] have c1: "config_ok c1" "mtu_ok m1 c1" by simp_all
  have r: "mtu' = m1" "cfg' = read_pmtu H (read_auto_restart H (read_transports H (read_turn_timers H
      (read_candidate_filters H (read_modes H c1)))))"
    using assms(3) p by (simp_all add: apply_config_def Let_def)
  have "config_ok cfg'"
    unfolding r by (intro pmtu_ok auto_restart_ok transports_ok turn_timers_ok filters_ok modes_ok c1)
  moreover have "mtu_ok mtu' cfg'" using c1(2) unfolding r mtu_ok_def later_reads_mtu by simp
  ultimately show ?thesis ..
qed

definition sample_config_env :: config_env where
  "sample_config_env = \<lparr>ce_uri = \<lparr>ue_has_control_bytes = (\<lambda>_. False), ue_parse_uri = (\<lambda>_. None)\<rparr>,
     ce_dns = \<lparr>de_sizeof_api = 0, de_rr_srv = 33, de_sort = (\<lambda>rs. rs)\<rparr>, ce_dns_ext = None\<rparr>"

text \<open>A host that sets a huge timeout, a jumbo path MTU and one filter token, and nothing else.\<close>

definition sample_host_config :: host_config where
  "sample_host_config = \<lparr>
     hc_int64 = (\<lambda>k. if k = ''ice.session_timeout_s'' then Some 100000
                     else if k = ''ice.path_mtu'' then Some 9000 else None),
     hc_bool = (\<lambda>_. None), hc_string = (\<lambda>_. None),
     hc_array_size = (\<lambda>k. if k = ''ice.candidate_filters'' then Some 1 else None),
     hc_array_string = (\<lambda>_ _. Some ''relay-only''), hc_array_int64 = (\<lambda>_ _. None)\<rparr>"

theorem config_well_formed_witness:
  "config_ok (snd (apply_config sample_config_env (Some sample_host_config) (kDefaultMtu, default_ice_config)))"
  using config_well_formed [of kDefaultMtu sample_config_env sample_host_config default_ice_config, OF _ _ surjective_pairing]
  by (simp add: kDefaultMtu_def)

end
