(* ===== verification/Interface_Watcher.thy ===== *)
theory Interface_Watcher
  imports Ice_Prelude
begin

text \<open>
  \<open>InterfaceWatcher\<close> of \<open>src/interface_watcher.cpp\<close>, as built on Linux: the reader thread that
  listens for netlink messages and the debounce timer. One iteration of the reader, one posted task,
  the completion of a wait and one call of its handler are separate events; the outcome of the socket
  calls and the messages of a read come with the event. Of \<open>asio::steady_timer\<close> the model has what its
  documentation says: a wait completes at or after its deadline and its handler is then queued;
  \<open>expires_after\<close> and \<open>cancel\<close> abort a wait that has not completed, whose handler only returns, and leave
  a handler that is already queued. Times are milliseconds.
\<close>

section \<open>State\<close>

datatype NlMsgType = NLMSG_DONE | NLMSG_ERROR | RTM_NEWLINK | RTM_DELLINK | RTM_NEWADDR | RTM_DELADDR
  | NlOther nat

record InterfaceWatcher =
  iw_debounce :: int
  iw_callback :: bool
  iw_started :: bool
  iw_running :: bool
  iw_sock :: bool
  iw_posted :: nat
  iw_timer :: "int option"
  iw_ready :: nat

datatype WatchEffect = OnChange | Debounce int | Expired int | WatchClosed

definition new_interface_watcher :: "int \<Rightarrow> bool \<Rightarrow> InterfaceWatcher" where
  "new_interface_watcher debounce on_change = \<lparr>iw_debounce = debounce, iw_callback = on_change,
     iw_started = False, iw_running = False, iw_sock = False, iw_posted = 0, iw_timer = None, iw_ready = 0\<rparr>"

section \<open>Operations\<close>

definition watcher_start :: "bool \<Rightarrow> bool \<Rightarrow> InterfaceWatcher \<Rightarrow> InterfaceWatcher \<times> bool" where
  "watcher_start socket_ok bind_ok w =
     (if iw_started w then (w, True)
      else if \<not> socket_ok then (w\<lparr>iw_started := False\<rparr>, False)
      else if \<not> bind_ok then (w\<lparr>iw_sock := False, iw_started := False\<rparr>, False)
      else (w\<lparr>iw_started := True, iw_sock := True, iw_running := True\<rparr>, True))"

definition watcher_stop :: "InterfaceWatcher \<Rightarrow> InterfaceWatcher \<times> WatchEffect list" where
  "watcher_stop w =
     (if \<not> iw_started w then (w, [])
      else (w\<lparr>iw_running := False, iw_sock := False, iw_timer := None, iw_started := False\<rparr>,
            if iw_sock w then [WatchClosed] else []))"

text \<open>The messages of one read, up to \<open>NLMSG_DONE\<close>.\<close>

fun relevant_messages :: "NlMsgType list \<Rightarrow> bool \<Rightarrow> bool" where
  "relevant_messages [] relevant = relevant"
| "relevant_messages (t # ts) relevant =
     (if t = NLMSG_DONE then relevant
      else if t = NLMSG_ERROR then relevant_messages ts relevant
      else if t \<in> {RTM_NEWLINK, RTM_DELLINK, RTM_NEWADDR, RTM_DELADDR} then relevant_messages ts True
      else relevant_messages ts relevant)"

definition schedule_callback :: "InterfaceWatcher \<Rightarrow> InterfaceWatcher" where
  "schedule_callback w = w\<lparr>iw_posted := iw_posted w + 1\<rparr>"

text \<open>One iteration of the reader; \<open>got\<close> is \<open>None\<close> when the poll or the read yields nothing.\<close>

definition run_loop_once :: "NlMsgType list option \<Rightarrow> InterfaceWatcher \<Rightarrow> InterfaceWatcher" where
  "run_loop_once got w =
     (if \<not> iw_running w \<or> \<not> iw_sock w then w
      else case got of
        None \<Rightarrow> w
      | Some ts \<Rightarrow> if relevant_messages ts False then schedule_callback w else w)"

text \<open>The posted task: \<open>expires_after\<close> aborts the pending wait, and a new wait begins.\<close>

definition run_posted :: "int \<Rightarrow> InterfaceWatcher \<Rightarrow> InterfaceWatcher \<times> WatchEffect list" where
  "run_posted now w =
     (if iw_posted w = 0 then (w, [])
      else
        let w = w\<lparr>iw_posted := iw_posted w - 1\<rparr>
        in if \<not> iw_running w then (w, [])
           else (w\<lparr>iw_timer := Some (now + iw_debounce w)\<rparr>, [Debounce (now + iw_debounce w)]))"

text \<open>The pending wait completes: its handler joins the queue of the \<open>io_context\<close>.\<close>

definition expire_wait :: "int \<Rightarrow> InterfaceWatcher \<Rightarrow> InterfaceWatcher \<times> WatchEffect list" where
  "expire_wait now w =
     (case iw_timer w of
        None \<Rightarrow> (w, [])
      | Some deadline \<Rightarrow>
          if now < deadline then (w, [])
          else (w\<lparr>iw_timer := None, iw_ready := iw_ready w + 1\<rparr>, [Expired now]))"

text \<open>The handler of a wait that completed.\<close>

definition on_debounce :: "InterfaceWatcher \<Rightarrow> InterfaceWatcher \<times> WatchEffect list" where
  "on_debounce w =
     (if iw_ready w = 0 then (w, [])
      else
        let w = w\<lparr>iw_ready := iw_ready w - 1\<rparr>
        in if \<not> iw_running w then (w, [])
           else (w, if iw_callback w then [OnChange] else []))"

datatype WatchEvent = WatchStart bool bool | WatchStop | WatchRead "NlMsgType list option" | WatchTask
  | WatchExpire | WatchTimer

definition watcher_step :: "int \<times> WatchEvent \<Rightarrow> InterfaceWatcher \<Rightarrow> InterfaceWatcher \<times> WatchEffect list" where
  "watcher_step e w =
     (case snd e of
        WatchStart socket_ok bind_ok \<Rightarrow> (fst (watcher_start socket_ok bind_ok w), [])
      | WatchStop \<Rightarrow> watcher_stop w
      | WatchRead got \<Rightarrow> (run_loop_once got w, [])
      | WatchTask \<Rightarrow> run_posted (fst e) w
      | WatchExpire \<Rightarrow> expire_wait (fst e) w
      | WatchTimer \<Rightarrow> on_debounce w)"

lemmas watcher_defs = watcher_step_def watcher_start_def watcher_stop_def run_loop_once_def
  schedule_callback_def run_posted_def expire_wait_def on_debounce_def

section \<open>What a read reports\<close>

lemma relevant_messages_correct:
  "relevant_messages ts r \<longleftrightarrow>
     r \<or> (\<exists>t \<in> set (takeWhile (\<lambda>t. t \<noteq> NLMSG_DONE) ts). t \<in> {RTM_NEWLINK, RTM_DELLINK, RTM_NEWADDR, RTM_DELADDR})"
  by (induction ts r rule: relevant_messages.induct) auto

section \<open>Debouncing\<close>

text \<open>The deadlines that were set, the waits that completed and the reports, as the log of a run has them.\<close>

definition deadlines :: "WatchEffect list \<Rightarrow> int list" where
  "deadlines es = List.map_filter (\<lambda>e. case e of Debounce d \<Rightarrow> Some d | _ \<Rightarrow> None) es"

definition expiries :: "WatchEffect list \<Rightarrow> int list" where
  "expiries es = List.map_filter (\<lambda>e. case e of Expired t \<Rightarrow> Some t | _ \<Rightarrow> None) es"

definition reports :: "WatchEffect list \<Rightarrow> nat" where
  "reports es = length (filter (\<lambda>e. e = OnChange) es)"

lemmas log_defs = deadlines_def expiries_def reports_def List.map_filter_def

lemma log_append [simp]:
  "deadlines (xs @ ys) = deadlines xs @ deadlines ys" "expiries (xs @ ys) = expiries xs @ expiries ys"
  "reports (xs @ ys) = reports xs + reports ys"
  by (simp_all add: log_defs)

lemma log_single [simp]:
  "deadlines [] = []" "deadlines [Debounce d] = [d]" "deadlines [Expired t] = []" "deadlines [OnChange] = []"
  "deadlines [WatchClosed] = []"
  "expiries [] = []" "expiries [Debounce d] = []" "expiries [Expired t] = [t]" "expiries [OnChange] = []"
  "expiries [WatchClosed] = []"
  "reports [] = 0" "reports [Debounce d] = 0" "reports [Expired t] = 0" "reports [OnChange] = 1" "reports [WatchClosed] = 0"
  by (simp_all add: log_defs)











definition sample_burst :: "(int \<times> WatchEvent) list" where
  "sample_burst = [(0, WatchStart True True), (10, WatchRead (Some [NlOther 7, RTM_NEWADDR])),
     (10, WatchTask), (90, WatchRead (Some [RTM_DELLINK])), (90, WatchTask), (310, WatchExpire), (390, WatchExpire)]"


text \<open>
  A message that is handled between the completion of a wait and its handler does not hold the report back:
  the handler of the earlier wait is already queued, and nothing in it tells the two waits apart.
\<close>

lemma late_message_reported:
  "snd (run_machine watcher_step (sample_burst @ [(390, WatchRead (Some [RTM_NEWLINK])), (390, WatchTask), (390, WatchTimer)])
      (new_interface_watcher 300 True)) = [Debounce 310, Debounce 390, Expired 390, Debounce 690, OnChange]"
  by (simp add: sample_burst_def watcher_defs new_interface_watcher_def Let_def)

end
