(* ===== verification/Ice_Link.thy ===== *)
theory Ice_Link
  imports Session_Input Session_Orders Mdns_Manager Link_Config Interface_Watcher
begin

text \<open>
  \<open>IceLink\<close> of \<open>src/link_ice.cpp\<close>: the tables of sessions, the kernel and composer surfaces, signalling,
  the reaper and shutdown. A \<open>shared_ptr\<close> to a session is an index into \<open>lk_objects\<close>. Work that the
  code posts or dispatches to a strand (\<open>gather\<close>, \<open>restart\<close>, \<open>close\<close>, remote candidates, tasks of the
  session) waits in \<open>lk_queue\<close>, in order, and runs as an event of its own; \<open>close\<close> marks the session
  failed at once and \<open>send\<close> enters the session at once, as in the code. What the host does during an
  event (the results of its functions, the clock, the iteration order of \<open>std::unordered_map\<close>) is the
  argument \<open>link_host\<close>. Objects are kept after their last owner is gone: \<open>~IceSession\<close> is an operation
  of the session that the link never calls.
\<close>

section \<open>The host\<close>

text \<open>
  A slot of the API that may be null is an option, or a flag when only its presence matters.
  \<open>lh_notify_connect\<close> takes the key, the URI and whether this side is the initiator.
\<close>

record link_slots =
  lh_now :: u64
  lh_config :: "host_config option"
  lh_config_env :: config_env
  lh_notify_connect :: "(bytes \<Rightarrow> string \<Rightarrow> bool \<Rightarrow> gn_result \<times> conn_id) option"
  lh_notify_disconnect :: bool
  lh_notify_inbound :: bool
  lh_kick_handshake :: bool
  lh_unsubscribe :: bool
  lh_subscribe :: "(gn_result \<times> u64) option"

record link_host = link_slots +
  lh_carrier :: "CarrierKind \<Rightarrow> bool"
  lh_listen_port :: u16
  lh_portmap_query :: "PortmapMapping portmap_api extension_query"
  lh_portmap_api :: "PortmapMapping portmap_api"
  lh_portmap_size :: nat
  lh_portmap_udp :: u32
  lh_portmap_protocols :: u32
  lh_mdns :: mdns_env
  lh_session :: "nat \<Rightarrow> session_env"
  lh_tiebreaker :: u64
  lh_socket_ok :: bool
  lh_bind_ok :: bool
  lh_order :: "conn_id list \<Rightarrow> conn_id list"

section \<open>State\<close>

definition kReaperIntervalSeconds :: int where "kReaperIntervalSeconds = 30"
definition kIdleSessionLimitSeconds :: int where "kIdleSessionLimitSeconds = 60"
definition kComposerIdBit :: conn_id where "kComposerIdBit = push_bit 63 1"
definition GN_PUBLIC_KEY_BYTES :: nat where "GN_PUBLIC_KEY_BYTES = 32"

text \<open>The callbacks a session was built with: \<open>make_callbacks(id)\<close> or \<open>make_composer_callbacks(cid, uri)\<close>.\<close>

datatype LinkCallbacks = KernelCallbacks conn_id | ComposerCallbacks conn_id string

record LinkSession =
  lo_session :: Session
  lo_callbacks :: LinkCallbacks

record PeerEntry =
  pe_id :: conn_id
  pe_session :: nat
  pe_peer_pk_hex :: string

text \<open>Callbacks of the composer's client and their user data are opaque numbers.\<close>

record ComposerEntry =
  co_session :: nat
  co_peer_pk_hex :: string
  co_data_cb :: "nat option"
  co_data_user :: nat
  co_nominated :: bool
  co_canonical_uri :: string

record ComposerAcceptSub =
  as_token :: u64
  as_cb :: nat
  as_user :: nat

record OutboundSignal =
  os_kind :: u32
  os_blob :: bytes

type_synonym mdns_cb = "nat \<times> nat \<times> string"

datatype LinkEffect =
    NotifyConnect bytes string bool gn_result conn_id
  | NotifyDisconnect conn_id gn_result
  | NotifyInbound conn_id bytes
  | KickHandshake conn_id
  | SubscribeReload
  | Unsubscribe u64
  | AcceptCallback nat nat conn_id string
  | DataCallback nat nat conn_id bytes
  | ArmReaper int
  | CancelReaper
  | SessionEffect nat Effect
  | ManagerEffect "mdns_cb MdnsEffect"
  | WatcherEffect WatchEffect
  | StopWorker
  | Return gn_result

record LinkTables =
  lk_sessions :: "(conn_id \<times> PeerEntry) list"
  lk_peer_to_ids :: "string \<rightharpoonup> conn_id list"
  lk_published_ids :: "conn_id list"
  lk_composer_sessions :: "(conn_id \<times> ComposerEntry) list"
  lk_composer_peer_to_id :: "string \<rightharpoonup> conn_id"
  lk_accept_subs :: "ComposerAcceptSub list"
  lk_next_composer_id :: u64
  lk_next_accept_token :: u64
  lk_outbound_signals :: "string \<rightharpoonup> OutboundSignal list"

record LinkSettings = LinkTables +
  lk_shutdown :: bool
  lk_mtu :: u32
  lk_cfg :: IceConfig
  lk_bytes_in :: u64
  lk_bytes_out :: u64
  lk_frames_in :: u64
  lk_frames_out :: u64
  lk_reload_sub_id :: u64
  lk_reaper_started :: bool
  lk_api :: bool

record IceLink = LinkSettings +
  lk_carrier_udp :: bool
  lk_carrier_tcp :: bool
  lk_carrier_tls :: bool
  lk_portmap_ext :: bool
  lk_iface_watcher :: "InterfaceWatcher option"
  lk_mdns :: "mdns_cb MdnsManager option"
  lk_timer_ctx :: bool
  lk_objects :: "LinkSession list"
  lk_queue :: "(nat \<times> Event) list"
  lk_log :: "LinkEffect list"

type_synonym 'a link = "(IceLink, 'a) state"

definition new_ice_link :: IceLink where
  "new_ice_link = \<lparr>lk_sessions = [], lk_peer_to_ids = Map.empty, lk_published_ids = [],
     lk_composer_sessions = [], lk_composer_peer_to_id = Map.empty, lk_accept_subs = [],
     lk_next_composer_id = 1, lk_next_accept_token = 1, lk_outbound_signals = Map.empty,
     lk_shutdown = False, lk_mtu = kDefaultMtu,
     lk_cfg = default_ice_config\<lparr>cf_stun_servers := kDefaultStunServers\<rparr>,
     lk_bytes_in = 0, lk_bytes_out = 0, lk_frames_in = 0, lk_frames_out = 0, lk_reload_sub_id = 0,
     lk_reaper_started = False, lk_api = False, lk_carrier_udp = False, lk_carrier_tcp = False,
     lk_carrier_tls = False, lk_portmap_ext = False, lk_iface_watcher = None, lk_mdns = None,
     lk_timer_ctx = True, lk_objects = [], lk_queue = [], lk_log = []\<rparr>"

definition link_emit :: "LinkEffect \<Rightarrow> unit link" where
  "link_emit e = modify (\<lambda>l. l\<lparr>lk_log := lk_log l @ [e]\<rparr>)"

definition enqueue_job :: "nat \<Rightarrow> Event \<Rightarrow> unit link" where
  "enqueue_job ref e = modify (\<lambda>l. l\<lparr>lk_queue := lk_queue l @ [(ref, e)]\<rparr>)"

section \<open>Binding the host\<close>

definition link_apply_config :: "link_host \<Rightarrow> unit link" where
  "link_apply_config H = modify (\<lambda>l.
     let (mtu, cfg) = apply_config (lh_config_env H) (if lk_api l then lh_config H else None) (lk_mtu l, lk_cfg l)
     in l\<lparr>lk_mtu := mtu, lk_cfg := cfg\<rparr>)"

text \<open>The queries for the carriers and the port mapping extension, made only while one is missing.\<close>

definition resolve_carriers :: "link_host \<Rightarrow> unit link" where
  "resolve_carriers H = modify (\<lambda>l. l\<lparr>
     lk_carrier_udp := (lk_carrier_udp l \<or> lk_api l \<and> lh_carrier H CarrierUdp),
     lk_carrier_tcp := (lk_carrier_tcp l \<or> lk_api l \<and> lh_carrier H CarrierTcp),
     lk_carrier_tls := (lk_carrier_tls l \<or> lk_api l \<and> lh_carrier H CarrierTls),
     lk_portmap_ext := (lk_portmap_ext l \<or>
       lk_api l \<and> portmap_query (lh_portmap_size H) (lh_portmap_query H) \<noteq> None)\<rparr>)"

definition start_reaper :: "unit link" where
  "start_reaper = link_emit (ArmReaper kReaperIntervalSeconds)"

definition set_host_api :: "link_host \<Rightarrow> bool \<Rightarrow> unit link" where
  "set_host_api H api = do {
     bound \<leftarrow> gets lk_api;
     sub \<leftarrow> gets lk_reload_sub_id;
     whenM (bound \<and> lh_unsubscribe H \<and> sub \<noteq> 0) (do {
       link_emit (Unsubscribe sub);
       modify (\<lambda>l. l\<lparr>lk_reload_sub_id := 0\<rparr>)
     });
     modify (\<lambda>l. l\<lparr>lk_api := api\<rparr>);
     link_apply_config H;
     resolve_carriers H;
     reaping \<leftarrow> gets lk_reaper_started;
     whenM (\<not> reaping) (do {
       modify (\<lambda>l. l\<lparr>lk_reaper_started := True\<rparr>);
       start_reaper
     });
     want_iface_watcher \<leftarrow> gets (\<lambda>l. cf_reactive_interface_change (lk_cfg l) \<and> lk_iface_watcher l = None);
     whenM want_iface_watcher (modify (\<lambda>l. l\<lparr>lk_iface_watcher :=
       Some (fst (watcher_start (lh_socket_ok H) (lh_bind_ok H) (new_interface_watcher 300 True)))\<rparr>));
     (case lh_subscribe H of
        None \<Rightarrow> return ()
      | Some (rc, token) \<Rightarrow> whenM api (do {
          link_emit SubscribeReload;
          whenM (rc = GN_OK) (modify (\<lambda>l. l\<lparr>lk_reload_sub_id := token\<rparr>))
        }))
   }"

record LinkStats =
  ls_bytes_in :: u64
  ls_bytes_out :: u64
  ls_frames_in :: u64
  ls_frames_out :: u64
  ls_active_connections :: nat

definition session_count :: "IceLink \<Rightarrow> nat" where
  "session_count l = length (lk_sessions l)"

definition link_stats :: "IceLink \<Rightarrow> LinkStats" where
  "link_stats l = \<lparr>ls_bytes_in = lk_bytes_in l, ls_bytes_out = lk_bytes_out l, ls_frames_in = lk_frames_in l,
     ls_frames_out = lk_frames_out l, ls_active_connections = session_count l\<rparr>"

text \<open>The payload limit of \<open>capabilities()\<close>; the link is a datagram link.\<close>

definition capabilities_max_payload :: u32 where
  "capabilities_max_payload = kDefaultMtu"

definition mdns_effect :: "mdns_cb MdnsEffect \<Rightarrow> unit link" where
  "mdns_effect e =
     (case e of
        MdnsResolved cb r \<Rightarrow> (case cb of (ref, i, hostname) \<Rightarrow> enqueue_job ref (EvMdnsResolved i hostname r))
      | _ \<Rightarrow> link_emit (ManagerEffect e))"

definition with_mdns :: "(mdns_cb, 'a) mdns \<Rightarrow> unit link" where
  "with_mdns op = do {
     manager \<leftarrow> gets lk_mdns;
     case manager of
       None \<Rightarrow> return ()
     | Some m \<Rightarrow> do {
         let m' = exec op (m\<lparr>mm_log := []\<rparr>);
         modify (\<lambda>l. l\<lparr>lk_mdns := Some m'\<rparr>);
         for_each mdns_effect (mm_log m')
       }
   }"

definition ensure_mdns_manager :: "link_host \<Rightarrow> unit link" where
  "ensure_mdns_manager H = do {
     missing \<leftarrow> gets (\<lambda>l. lk_mdns l = None);
     whenM missing (do {
       modify (\<lambda>l. l\<lparr>lk_mdns := Some new_mdns_manager\<rparr>);
       with_mdns (mdns_start (lh_mdns H))
     })
   }"

section \<open>Keys and URIs\<close>

definition key_digit :: "char \<Rightarrow> nat option" where
  "key_digit c =
     (let n = of_char c :: nat
      in if of_char CHR ''0'' \<le> n \<and> n \<le> of_char CHR ''9'' then Some (n - of_char CHR ''0'')
         else if of_char CHR ''a'' \<le> n \<and> n \<le> of_char CHR ''f'' then Some (10 + n - of_char CHR ''a'')
         else if of_char CHR ''A'' \<le> n \<and> n \<le> of_char CHR ''F'' then Some (10 + n - of_char CHR ''A'')
         else None)"

fun hex_octets :: "string \<Rightarrow> bytes option" where
  "hex_octets (a # b # rest) =
     (case (key_digit a, key_digit b) of
        (Some hi, Some lo) \<Rightarrow> map_option (Cons (word_of_nat (hi * 16 + lo))) (hex_octets rest)
      | _ \<Rightarrow> None)"
| "hex_octets _ = Some []"

definition parse_peer_pk_hex :: "string \<Rightarrow> bytes option" where
  "parse_peer_pk_hex hex = (if length hex \<noteq> GN_PUBLIC_KEY_BYTES * 2 then None else hex_octets hex)"

definition key_hex_char :: "nat \<Rightarrow> char" where
  "key_hex_char n = ''0123456789abcdef'' ! n"

definition pk_to_hex :: "bytes \<Rightarrow> string" where
  "pk_to_hex pk = concat (map (\<lambda>b. [key_hex_char (unat (drop_bit 4 b)), key_hex_char (unat (b AND 0x0F))]) pk)"

text \<open>The key and the text that names it, from \<open>ice://<hex>\<close> with an optional slash at the end.\<close>

definition is_ice_uri :: "string \<Rightarrow> bool" where
  "is_ice_uri uri \<longleftrightarrow> take 6 uri = ''ice://''"

definition peer_of_uri :: "string \<Rightarrow> (bytes \<times> string) option" where
  "peer_of_uri uri =
     (let suffix = drop 6 uri;
          suffix = (if suffix \<noteq> [] \<and> last suffix = CHR ''/'' then butlast suffix else suffix)
      in map_option (\<lambda>pk. (pk, suffix)) (parse_peer_pk_hex suffix))"

section \<open>The session tables\<close>

definition link_session :: "nat \<Rightarrow> IceLink \<Rightarrow> Session" where
  "link_session ref l = lo_session (lk_objects l ! ref)"

definition find_session :: "conn_id \<Rightarrow> IceLink \<Rightarrow> nat option" where
  "find_session conn l = map_option pe_session (map_of (lk_sessions l) conn)"

definition find_composer :: "conn_id \<Rightarrow> IceLink \<Rightarrow> nat option" where
  "find_composer cid l = map_option co_session (map_of (lk_composer_sessions l) cid)"

definition is_composer_id :: "conn_id \<Rightarrow> bool" where
  "is_composer_id conn \<longleftrightarrow> conn AND kComposerIdBit \<noteq> 0"

definition any_session :: "conn_id \<Rightarrow> IceLink \<Rightarrow> nat option" where
  "any_session conn l = (if is_composer_id conn then find_composer conn l else find_session conn l)"

definition erase_id :: "string \<Rightarrow> conn_id \<Rightarrow> (string \<rightharpoonup> conn_id list) \<Rightarrow> (string \<rightharpoonup> conn_id list)" where
  "erase_id peer_hex conn m =
     (case m peer_hex of
        None \<Rightarrow> m
      | Some v \<Rightarrow> let v = filter (\<lambda>i. i \<noteq> conn) v in m(peer_hex := (if v = [] then None else Some v)))"

definition erase_peer_id :: "string \<Rightarrow> conn_id \<Rightarrow> unit link" where
  "erase_peer_id peer_hex conn = modify (\<lambda>l. l\<lparr>lk_peer_to_ids := erase_id peer_hex conn (lk_peer_to_ids l)\<rparr>)"

text \<open>The three writes after a session has been built: \<open>sessions_\<close>, \<open>peer_to_ids_\<close>, \<open>published_ids_\<close>.\<close>

definition publish_session :: "conn_id \<Rightarrow> nat \<Rightarrow> string \<Rightarrow> unit link" where
  "publish_session conn ref peer_hex = modify (\<lambda>l. l\<lparr>
     lk_sessions := AList.update conn \<lparr>pe_id = conn, pe_session = ref, pe_peer_pk_hex = peer_hex\<rparr> (lk_sessions l),
     lk_peer_to_ids := (lk_peer_to_ids l)(peer_hex \<mapsto>
       (case lk_peer_to_ids l peer_hex of None \<Rightarrow> [] | Some v \<Rightarrow> v) @ [conn]),
     lk_published_ids := lk_published_ids l @ [conn]\<rparr>)"

definition erase_session :: "conn_id \<Rightarrow> string \<Rightarrow> unit link" where
  "erase_session conn peer_hex = do {
     erase_peer_id peer_hex conn;
     modify (\<lambda>l. l\<lparr>lk_sessions := AList.delete conn (lk_sessions l)\<rparr>)
   }"

definition erase_composer :: "conn_id \<Rightarrow> string \<Rightarrow> unit link" where
  "erase_composer cid peer_hex = modify (\<lambda>l. l\<lparr>
     lk_composer_peer_to_id := (lk_composer_peer_to_id l)(peer_hex := None),
     lk_composer_sessions := AList.delete cid (lk_composer_sessions l)\<rparr>)"

definition claim_disconnect :: "conn_id \<Rightarrow> bool link" where
  "claim_disconnect conn = do {
     stopped \<leftarrow> gets lk_shutdown;
     entry \<leftarrow> gets (\<lambda>l. map_of (lk_sessions l) conn);
     if stopped then return False
     else case entry of
       None \<Rightarrow> return False
     | Some e \<Rightarrow> do {
         erase_session conn (pe_peer_pk_hex e);
         return True
       }
   }"

definition notify_disconnect :: "link_host \<Rightarrow> conn_id \<Rightarrow> gn_result \<Rightarrow> unit link" where
  "notify_disconnect H conn reason = do {
     api \<leftarrow> gets lk_api;
     whenM (api \<and> lh_notify_disconnect H) (link_emit (NotifyDisconnect conn reason))
   }"

section \<open>Signals\<close>

definition enqueue_local_signal :: "nat \<Rightarrow> LocalView \<Rightarrow> unit link" where
  "enqueue_local_signal ref v = modify (\<lambda>l.
     let blob = serialize_signal (lv_ufrag v) (lv_pwd v) (lv_candidates v) (lv_flags v);
         kind = (if lv_controlling v then ucast ICE_SIGNAL_OFFER_EOC else ucast ICE_SIGNAL_ANSWER_EOC);
         peer = ss_peer_id (link_session ref l)
     in l\<lparr>lk_outbound_signals := (lk_outbound_signals l)(peer \<mapsto>
          (case lk_outbound_signals l peer of None \<Rightarrow> [] | Some q \<Rightarrow> q) @ [\<lparr>os_kind = kind, os_blob = blob\<rparr>])\<rparr>)"

text \<open>
  The caller's pointers are flags; the results are the code, the length when it was written, and the
  kind and octets when they were.
\<close>

definition poll_local_signal ::
  "bytes option \<Rightarrow> bool \<Rightarrow> bool \<Rightarrow> nat \<Rightarrow> bool \<Rightarrow> (gn_result \<times> nat option \<times> (u32 \<times> bytes) option) link" where
  "poll_local_signal peer_pk kind_out blob_out blob_cap blob_len_out = do {
     stopped \<leftarrow> gets lk_shutdown;
     if stopped then return (GN_ERR_INVALID_STATE, None, None)
     else case peer_pk of
       None \<Rightarrow> return (GN_ERR_NULL_ARG, None, None)
     | Some pk \<Rightarrow>
         if \<not> kind_out \<or> \<not> blob_len_out then return (GN_ERR_NULL_ARG, None, None)
         else if blob_cap > 0 \<and> \<not> blob_out then return (GN_ERR_NULL_ARG, None, None)
         else do {
           queue \<leftarrow> gets (\<lambda>l. lk_outbound_signals l (pk_to_hex pk));
           case queue of
             Some (entry # rest) \<Rightarrow>
               if length (os_blob entry) > blob_cap
               then return (GN_ERR_OUT_OF_RANGE, Some (length (os_blob entry)), None)
               else do {
                 modify (\<lambda>l. l\<lparr>lk_outbound_signals :=
                   (lk_outbound_signals l)(pk_to_hex pk := (if rest = [] then None else Some rest))\<rparr>);
                 return (GN_OK, Some (length (os_blob entry)), Some (os_kind entry, os_blob entry))
               }
           | _ \<Rightarrow> return (GN_ERR_NOT_FOUND, None, None)
         }
   }"

section \<open>Callbacks of the sessions\<close>

text \<open>
  \<open>on_gathered\<close>: the session is looked up by its id; \<open>v\<close> is what the accessors of the calling session
  return at this moment.
\<close>

definition on_gathered :: "nat \<Rightarrow> LocalView \<Rightarrow> LinkCallbacks \<Rightarrow> unit link" where
  "on_gathered ref v cb = do {
     stopped \<leftarrow> gets lk_shutdown;
     found \<leftarrow> gets (\<lambda>l. case cb of KernelCallbacks conn \<Rightarrow> find_session conn l | ComposerCallbacks cid _ \<Rightarrow> find_composer cid l);
     if stopped then return ()
     else case found of
       None \<Rightarrow> return ()
     | Some r \<Rightarrow> do {
         view \<leftarrow> gets (\<lambda>l. if r = ref then v else local_view (link_session r l));
         enqueue_local_signal r view
       }
   }"

definition on_connected :: "LinkCallbacks \<Rightarrow> unit link" where
  "on_connected cb =
     (case cb of
        KernelCallbacks _ \<Rightarrow> return ()
      | ComposerCallbacks cid uri \<Rightarrow> do {
          stopped \<leftarrow> gets lk_shutdown;
          entry \<leftarrow> gets (\<lambda>l. map_of (lk_composer_sessions l) cid);
          subs \<leftarrow> gets lk_accept_subs;
          if stopped then return ()
          else if (case entry of None \<Rightarrow> False | Some e \<Rightarrow> co_nominated e) then return ()
          else do {
            (case entry of
               None \<Rightarrow> return ()
             | Some e \<Rightarrow> modify (\<lambda>l. l\<lparr>lk_composer_sessions :=
                 AList.update cid (e\<lparr>co_nominated := True\<rparr>) (lk_composer_sessions l)\<rparr>));
            for_each (\<lambda>sub. link_emit (AcceptCallback (as_cb sub) (as_user sub) cid uri)) subs
          }
        })"

definition on_failed :: "link_host \<Rightarrow> LinkCallbacks \<Rightarrow> unit link" where
  "on_failed H cb = do {
     stopped \<leftarrow> gets lk_shutdown;
     whenM (\<not> stopped)
       (case cb of
          KernelCallbacks conn \<Rightarrow> do {
            claimed \<leftarrow> claim_disconnect conn;
            whenM claimed (notify_disconnect H conn GN_ERR_NOT_FOUND)
          }
        | ComposerCallbacks cid _ \<Rightarrow> do {
            entry \<leftarrow> gets (\<lambda>l. map_of (lk_composer_sessions l) cid);
            case entry of None \<Rightarrow> return () | Some e \<Rightarrow> erase_composer cid (co_peer_pk_hex e)
          })
   }"

definition count_in :: "nat \<Rightarrow> unit link" where
  "count_in n = modify (\<lambda>l. l\<lparr>lk_bytes_in := lk_bytes_in l + word_of_nat n, lk_frames_in := lk_frames_in l + 1\<rparr>)"

definition on_data :: "link_host \<Rightarrow> bytes \<Rightarrow> LinkCallbacks \<Rightarrow> unit link" where
  "on_data H data cb = do {
     stopped \<leftarrow> gets lk_shutdown;
     api \<leftarrow> gets lk_api;
     whenM (\<not> stopped)
       (case cb of
          KernelCallbacks conn \<Rightarrow> whenM (api \<and> lh_notify_inbound H) (do {
            count_in (length data);
            link_emit (NotifyInbound conn data)
          })
        | ComposerCallbacks cid _ \<Rightarrow> do {
            entry \<leftarrow> gets (\<lambda>l. map_of (lk_composer_sessions l) cid);
            case entry of
              None \<Rightarrow> return ()
            | Some e \<Rightarrow>
                (case co_data_cb e of
                   None \<Rightarrow> return ()
                 | Some f \<Rightarrow> do {
                     count_in (length data);
                     link_emit (DataCallback f (co_data_user e) cid data)
                   })
          })
   }"

section \<open>Running a session\<close>

text \<open>What one effect of session \<open>ref\<close> does to the link.\<close>

definition route :: "link_host \<Rightarrow> nat \<Rightarrow> Effect \<Rightarrow> unit link" where
  "route H ref e = do {
     cb \<leftarrow> gets (\<lambda>l. lo_callbacks (lk_objects l ! ref));
     case e of
       Post t \<Rightarrow> enqueue_job ref (EvTask t)
     | OnGathered v \<Rightarrow> on_gathered ref v cb
     | OnConnected _ _ \<Rightarrow> on_connected cb
     | OnFailed \<Rightarrow> on_failed H cb
     | OnData data \<Rightarrow> on_data H data cb
     | MdnsRegister name \<Rightarrow> with_mdns (register_name name)
     | MdnsUnregister name \<Rightarrow> with_mdns (unregister_name name)
     | MdnsResolve i hostname timeout \<Rightarrow> with_mdns (resolve (lh_mdns H) hostname timeout (Some (ref, i, hostname)))
     | _ \<Rightarrow> link_emit (SessionEffect ref e)
   }"

text \<open>The session reaches the port mapping extension through the client of \<open>portmap_ext_client.cpp\<close>.\<close>

definition session_env_of :: "link_host \<Rightarrow> nat \<Rightarrow> IceLink \<Rightarrow> session_env" where
  "session_env_of H ref l =
     (let vt = (if lk_portmap_ext l then Some (lh_portmap_api H) else None)
      in (lh_session H ref)\<lparr>
           se_portmap_supported := (supported_protocols vt AND lh_portmap_protocols H \<noteq> 0),
           se_portmap_request := (\<lambda>port. portmap_request vt (lh_portmap_udp H) port 0 3600 True)\<rparr>)"

definition run_session :: "link_host \<Rightarrow> nat \<Rightarrow> Event \<Rightarrow> unit link" where
  "run_session H ref ev = do {
     known \<leftarrow> gets (\<lambda>l. ref < length (lk_objects l));
     whenM known (do {
       env \<leftarrow> gets (session_env_of H ref);
       obj \<leftarrow> gets (\<lambda>l. lk_objects l ! ref);
       let (s', effects) = session_step env (lh_now H, ev) (lo_session obj);
       modify (\<lambda>l. l\<lparr>lk_objects := (lk_objects l)[ref := obj\<lparr>lo_session := s'\<rparr>]\<rparr>);
       for_each (route H ref) effects
     })
   }"

text \<open>\<open>IceSession::close()\<close>: failed at once, the rest on the strand.\<close>

definition close_session :: "nat \<Rightarrow> unit link" where
  "close_session ref = do {
     modify (\<lambda>l. l\<lparr>lk_objects := (lk_objects l)[ref :=
       (lk_objects l ! ref)\<lparr>lo_session := (link_session ref l)\<lparr>ss_state := Failed\<rparr>\<rparr>]\<rparr>);
     enqueue_job ref EvClose
   }"

text \<open>A new session with a snapshot of the configuration; the result is its index.\<close>

definition make_session :: "link_host \<Rightarrow> string \<Rightarrow> bool \<Rightarrow> LinkCallbacks \<Rightarrow> bool \<Rightarrow> nat link" where
  "make_session H peer_hex controlling cb mdns = do {
     ref \<leftarrow> gets (\<lambda>l. length (lk_objects l));
     modify (\<lambda>l.
       let surroundings = blank_session\<lparr>ss_carrier := lk_carrier_udp l, ss_carrier_tcp := lk_carrier_tcp l,
             ss_carrier_tls := lk_carrier_tls l, ss_portmap_ext := lk_portmap_ext l, ss_mdns := mdns,
             ss_timer_ctx := lk_timer_ctx l, ss_now := lh_now H\<rparr>;
           s = new_session (session_env_of H ref l) (lk_cfg l) peer_hex controlling (lh_tiebreaker H) surroundings
       in l\<lparr>lk_objects := lk_objects l @ [\<lparr>lo_session = s, lo_callbacks = cb\<rparr>]\<rparr>);
     return ref
   }"

text \<open>The body of \<open>connect\<close> and of a first offer that builds a session of the kernel and publishes it.\<close>

definition open_session :: "link_host \<Rightarrow> conn_id \<Rightarrow> string \<Rightarrow> bool \<Rightarrow> bool \<Rightarrow> nat link" where
  "open_session H conn peer_hex controlling mdns = do {
     ref \<leftarrow> make_session H peer_hex controlling (KernelCallbacks conn) mdns;
     publish_session conn ref peer_hex;
     return ref
   }"

section \<open>The kernel surface\<close>

definition listen :: "string \<Rightarrow> gn_result" where
  "listen uri = (if \<not> is_ice_uri uri then GN_ERR_INVALID_ENVELOPE else GN_OK)"

text \<open>Results are the code and the conn id when \<open>*out_conn\<close> is written.\<close>

definition connect :: "link_host \<Rightarrow> string \<Rightarrow> (gn_result \<times> conn_id option) link" where
  "connect H uri = do {
     stopped \<leftarrow> gets lk_shutdown;
     api \<leftarrow> gets lk_api;
     if stopped then return (GN_ERR_NULL_ARG, None)
     else if \<not> is_ice_uri uri then return (GN_ERR_INVALID_ENVELOPE, None)
     else case peer_of_uri uri of
       None \<Rightarrow> return (GN_ERR_INVALID_ENVELOPE, None)
     | Some (peer_pk, peer_hex) \<Rightarrow>
         (case (if api then lh_notify_connect H else None) of
            None \<Rightarrow> return (GN_ERR_NOT_IMPLEMENTED, None)
          | Some notify \<Rightarrow> do {
              let (rc, conn) = notify peer_pk (''ice://'' @ peer_hex) True;
              link_emit (NotifyConnect peer_pk (''ice://'' @ peer_hex) True rc conn);
              if rc \<noteq> GN_OK \<or> conn = 0 then return (rc, None)
              else do {
                resolve_carriers H;
                ensure_mdns_manager H;
                ref \<leftarrow> open_session H conn peer_hex True True;
                enqueue_job ref EvGather;
                whenM (lh_kick_handshake H) (link_emit (KickHandshake conn));
                return (GN_OK, Some conn)
              }
            })
   }"

definition ice_send :: "link_host \<Rightarrow> conn_id \<Rightarrow> bytes \<Rightarrow> gn_result link" where
  "ice_send H conn bytes = do {
     stopped \<leftarrow> gets lk_shutdown;
     mtu \<leftarrow> gets lk_mtu;
     found \<leftarrow> gets (any_session conn);
     if stopped then return GN_ERR_NULL_ARG
     else if length bytes > unat mtu then return GN_ERR_PAYLOAD_TOO_LARGE
     else case found of
       None \<Rightarrow> return GN_ERR_NOT_FOUND
     | Some ref \<Rightarrow> do {
         run_session H ref (EvSend bytes);
         modify (\<lambda>l. l\<lparr>lk_bytes_out := lk_bytes_out l + word_of_nat (length bytes),
           lk_frames_out := lk_frames_out l + 1\<rparr>);
         return GN_OK
       }
   }"

fun send_frames :: "link_host \<Rightarrow> conn_id \<Rightarrow> bytes list \<Rightarrow> gn_result link" where
  "send_frames H conn [] = return GN_OK"
| "send_frames H conn (f # fs) = do {
     rc \<leftarrow> ice_send H conn f;
     if rc \<noteq> GN_OK then return rc else send_frames H conn fs
   }"

definition send_batch :: "link_host \<Rightarrow> conn_id \<Rightarrow> bytes list \<Rightarrow> gn_result link" where
  "send_batch H conn frames = do {
     cap \<leftarrow> gets lk_mtu;
     if list_ex (\<lambda>f. length f > unat cap) frames then return GN_ERR_PAYLOAD_TOO_LARGE
     else send_frames H conn frames
   }"

definition disconnect :: "link_host \<Rightarrow> conn_id \<Rightarrow> gn_result link" where
  "disconnect H conn =
     (if is_composer_id conn
      then do {
        entry \<leftarrow> gets (\<lambda>l. map_of (lk_composer_sessions l) conn);
        case entry of
          None \<Rightarrow> return GN_OK
        | Some e \<Rightarrow> do {
            erase_composer conn (co_peer_pk_hex e);
            close_session (co_session e);
            return GN_OK
          }
      }
      else do {
        entry \<leftarrow> gets (\<lambda>l. map_of (lk_sessions l) conn);
        case entry of
          None \<Rightarrow> return GN_OK
        | Some e \<Rightarrow> do {
            erase_session conn (pe_peer_pk_hex e);
            close_session (pe_session e);
            notify_disconnect H conn GN_OK;
            return GN_OK
          }
      })"

definition link_nomination_metrics :: "conn_id \<Rightarrow> IceLink \<Rightarrow> NominationMetrics" where
  "link_nomination_metrics conn l =
     (case find_session conn l of
        None \<Rightarrow> nomination_metrics blank_session
      | Some ref \<Rightarrow> nomination_metrics (link_session ref l))"

definition link_candidate_counts :: "conn_id \<Rightarrow> IceLink \<Rightarrow> CandidateCounts \<times> CandidateCounts" where
  "link_candidate_counts conn l =
     (case find_session conn l of
        None \<Rightarrow> (count_types [], count_types [])
      | Some ref \<Rightarrow> candidate_counts (link_session ref l))"

definition link_effective_path_mtu :: "conn_id \<Rightarrow> IceLink \<Rightarrow> u32" where
  "link_effective_path_mtu conn l =
     (case any_session conn l of
        None \<Rightarrow> lk_mtu l
      | Some ref \<Rightarrow> (let v = ss_effective_mtu (link_session ref l) in if v \<noteq> 0 then v else lk_mtu l))"

text \<open>The sessions of both tables, in the order the maps are iterated.\<close>

definition live_sessions :: "link_host \<Rightarrow> IceLink \<Rightarrow> nat list" where
  "live_sessions H l =
     List.map_filter (\<lambda>i. find_session i l) (lh_order H (map fst (lk_sessions l))) @
     List.map_filter (\<lambda>i. find_composer i l) (lh_order H (map fst (lk_composer_sessions l)))"

definition on_interface_change :: "link_host \<Rightarrow> unit link" where
  "on_interface_change H = do {
     live \<leftarrow> gets (live_sessions H);
     for_each (\<lambda>ref. do {
       st \<leftarrow> gets (\<lambda>l. ss_state (link_session ref l));
       whenM (st \<noteq> New \<and> st \<noteq> Failed) (enqueue_job ref EvRestart)
     }) live
   }"

definition restart_session :: "conn_id \<Rightarrow> gn_result link" where
  "restart_session conn = do {
     stopped \<leftarrow> gets lk_shutdown;
     found \<leftarrow> gets (find_session conn);
     if stopped then return GN_ERR_INVALID_STATE
     else case found of
       None \<Rightarrow> return GN_ERR_NOT_FOUND
     | Some ref \<Rightarrow> do {
         enqueue_job ref EvRestart;
         return GN_OK
       }
   }"

section \<open>Signals from the peer\<close>

definition is_eoc :: "byte \<Rightarrow> bool" where
  "is_eoc kind \<longleftrightarrow> kind = ICE_SIGNAL_OFFER_EOC \<or> kind = ICE_SIGNAL_ANSWER_EOC"

definition is_offer :: "byte \<Rightarrow> bool" where
  "is_offer kind \<longleftrightarrow> kind = ICE_SIGNAL_OFFER \<or> kind = ICE_SIGNAL_OFFER_EOC"

definition is_answer :: "byte \<Rightarrow> bool" where
  "is_answer kind \<longleftrightarrow> kind = ICE_SIGNAL_ANSWER \<or> kind = ICE_SIGNAL_ANSWER_EOC"

text \<open>A \<open>char\<close> array up to its first NUL.\<close>

definition array_string :: "bytes \<Rightarrow> string" where
  "array_string bs = c_str (string_of_bytes bs)"

definition composer_of_peer :: "string \<Rightarrow> IceLink \<Rightarrow> nat option" where
  "composer_of_peer peer_hex l =
     (case lk_composer_peer_to_id l peer_hex of None \<Rightarrow> None | Some cid \<Rightarrow> find_composer cid l)"

text \<open>The only kernel session of a peer, and its first one.\<close>

definition single_of_peer :: "string \<Rightarrow> IceLink \<Rightarrow> nat option" where
  "single_of_peer peer_hex l =
     (case lk_peer_to_ids l peer_hex of Some [i] \<Rightarrow> find_session i l | _ \<Rightarrow> None)"

definition first_of_peer :: "string \<Rightarrow> IceLink \<Rightarrow> nat option" where
  "first_of_peer peer_hex l =
     (case lk_peer_to_ids l peer_hex of Some (i # _) \<Rightarrow> find_session i l | _ \<Rightarrow> None)"

definition deliver_offer ::
  "link_host \<Rightarrow> bytes \<Rightarrow> u32 \<Rightarrow> string \<Rightarrow> string \<Rightarrow> Candidate list \<Rightarrow> bool \<Rightarrow> gn_result link" where
  "deliver_offer H peer_pk flags ufrag pwd cands eoc = do {
     let peer_hex = pk_to_hex peer_pk;
     api \<leftarrow> gets lk_api;
     composer \<leftarrow> gets (composer_of_peer peer_hex);
     single \<leftarrow> gets (single_of_peer peer_hex);
     case (if api then lh_notify_connect H else None) of
       None \<Rightarrow> return GN_ERR_NOT_IMPLEMENTED
     | Some notify \<Rightarrow>
         (case (case composer of Some ref \<Rightarrow> Some ref | None \<Rightarrow> single) of
            Some ref \<Rightarrow> do {
              enqueue_job ref (EvPeerFlags flags);
              enqueue_job ref (EvAddRemote ufrag pwd cands eoc);
              return GN_OK
            }
          | None \<Rightarrow> do {
              let (rc, conn) = notify peer_pk (''ice://'' @ peer_hex) False;
              link_emit (NotifyConnect peer_pk (''ice://'' @ peer_hex) False rc conn);
              if rc \<noteq> GN_OK \<or> conn = 0 then return rc
              else do {
                resolve_carriers H;
                obfuscate \<leftarrow> gets (\<lambda>l. cf_mdns_obfuscate_host_candidates (lk_cfg l));
                whenM obfuscate (ensure_mdns_manager H);
                ref \<leftarrow> open_session H conn peer_hex False obfuscate;
                enqueue_job ref (EvPeerFlags flags);
                enqueue_job ref EvGather;
                enqueue_job ref (EvAddRemote ufrag pwd cands eoc);
                return GN_OK
              }
            })
   }"

definition deliver_answer :: "bytes \<Rightarrow> u32 \<Rightarrow> string \<Rightarrow> string \<Rightarrow> Candidate list \<Rightarrow> bool \<Rightarrow> gn_result link" where
  "deliver_answer peer_pk flags ufrag pwd cands eoc = do {
     first \<leftarrow> gets (first_of_peer (pk_to_hex peer_pk));
     composer \<leftarrow> gets (composer_of_peer (pk_to_hex peer_pk));
     case (case first of Some ref \<Rightarrow> Some ref | None \<Rightarrow> composer) of
       None \<Rightarrow> return GN_ERR_NOT_FOUND
     | Some ref \<Rightarrow> do {
         enqueue_job ref (EvPeerFlags flags);
         enqueue_job ref (EvAddRemote ufrag pwd cands eoc);
         return GN_OK
       }
   }"

definition deliver_signal :: "link_host \<Rightarrow> bytes \<Rightarrow> byte \<Rightarrow> bytes \<Rightarrow> gn_result link" where
  "deliver_signal H peer_pk kind blob = do {
     stopped \<leftarrow> gets lk_shutdown;
     lite \<leftarrow> gets (\<lambda>l. cf_lite_mode (lk_cfg l));
     if stopped then return GN_ERR_NULL_ARG
     else if \<not> is_offer kind \<and> \<not> is_answer kind then return GN_ERR_INVALID_ENVELOPE
     else if length blob < 44 then return GN_ERR_INVALID_ENVELOPE
     else case parsed_value (deserialize_signal blob) of
       None \<Rightarrow> return GN_ERR_INVALID_ENVELOPE
     | Some (hdr, cands, flags) \<Rightarrow>
         let ufrag = array_string (sig_ufrag hdr);
             pwd = array_string (sig_pwd hdr)
         in if lite \<and> flags AND ICE_SIGNAL_FLAG_LITE \<noteq> 0 then return GN_ERR_INVALID_STATE
            else if is_offer kind then deliver_offer H peer_pk flags ufrag pwd cands (is_eoc kind)
            else deliver_answer peer_pk flags ufrag pwd cands (is_eoc kind)
   }"

section \<open>The reaper\<close>

definition idle_session :: "u64 \<Rightarrow> Session \<Rightarrow> bool" where
  "idle_session now s \<longleftrightarrow>
     ss_state s \<noteq> Connected \<and> uint now - uint (ss_last_activity s) > kIdleSessionLimitSeconds * 1000000"

definition to_drop :: "link_host \<Rightarrow> IceLink \<Rightarrow> conn_id list" where
  "to_drop H l = filter (\<lambda>i. case find_session i l of None \<Rightarrow> False
     | Some ref \<Rightarrow> idle_session (lh_now H) (link_session ref l)) (lh_order H (map fst (lk_sessions l)))"

definition reap_sessions :: "link_host \<Rightarrow> unit link" where
  "reap_sessions H = do {
     ids \<leftarrow> gets (to_drop H);
     for_each (\<lambda>conn. do { disconnect H conn; return () }) ids
   }"

definition on_reaper :: "link_host \<Rightarrow> unit link" where
  "on_reaper H = do {
     stopped \<leftarrow> gets lk_shutdown;
     whenM (\<not> stopped) (do {
       reap_sessions H;
       start_reaper
     })
   }"

section \<open>The composer surface\<close>

definition composer_listen :: "string \<Rightarrow> IceLink \<Rightarrow> gn_result" where
  "composer_listen uri l =
     (if lk_shutdown l then GN_ERR_NULL_ARG else if \<not> is_ice_uri uri then GN_ERR_INVALID_ENVELOPE else GN_OK)"

text \<open>\<open>next_composer_id_.fetch_add(1) | kComposerIdBit\<close>\<close>

definition next_composer_cid :: "conn_id link" where
  "next_composer_cid = do {
     n \<leftarrow> gets lk_next_composer_id;
     modify (\<lambda>l. l\<lparr>lk_next_composer_id := n + 1\<rparr>);
     return (n OR kComposerIdBit)
   }"

definition open_composer :: "link_host \<Rightarrow> conn_id \<Rightarrow> string \<Rightarrow> nat link" where
  "open_composer H cid peer_hex = do {
     ref \<leftarrow> make_session H peer_hex True (ComposerCallbacks cid (''ice://'' @ peer_hex)) True;
     modify (\<lambda>l. l\<lparr>
       lk_composer_sessions := AList.update cid \<lparr>co_session = ref, co_peer_pk_hex = peer_hex,
           co_data_cb = None, co_data_user = 0, co_nominated = False,
           co_canonical_uri = ''ice://'' @ peer_hex\<rparr> (lk_composer_sessions l),
       lk_composer_peer_to_id := (lk_composer_peer_to_id l)(peer_hex \<mapsto> cid)\<rparr>);
     return ref
   }"

definition composer_connect :: "link_host \<Rightarrow> string \<Rightarrow> bool \<Rightarrow> (gn_result \<times> conn_id option) link" where
  "composer_connect H uri out_conn = do {
     stopped \<leftarrow> gets lk_shutdown;
     if \<not> out_conn then return (GN_ERR_NULL_ARG, None)
     else if stopped then return (GN_ERR_NULL_ARG, None)
     else if \<not> is_ice_uri uri then return (GN_ERR_INVALID_ENVELOPE, None)
     else case peer_of_uri uri of
       None \<Rightarrow> return (GN_ERR_INVALID_ENVELOPE, None)
     | Some (peer_pk, peer_hex) \<Rightarrow> do {
         cid \<leftarrow> next_composer_cid;
         existing \<leftarrow> gets (\<lambda>l. lk_composer_peer_to_id l peer_hex);
         case existing of
           Some c \<Rightarrow> return (GN_OK, Some c)
         | None \<Rightarrow> do {
             resolve_carriers H;
             ensure_mdns_manager H;
             ref \<leftarrow> open_composer H cid peer_hex;
             enqueue_job ref EvGather;
             return (GN_OK, Some cid)
           }
       }
   }"

definition composer_subscribe_data :: "conn_id \<Rightarrow> nat option \<Rightarrow> nat \<Rightarrow> gn_result link" where
  "composer_subscribe_data conn cb user = do {
     entry \<leftarrow> gets (\<lambda>l. map_of (lk_composer_sessions l) conn);
     if \<not> is_composer_id conn then return GN_ERR_NOT_FOUND
     else case entry of
       None \<Rightarrow> return GN_ERR_NOT_FOUND
     | Some e \<Rightarrow> do {
         modify (\<lambda>l. l\<lparr>lk_composer_sessions :=
           AList.update conn (e\<lparr>co_data_cb := cb, co_data_user := user\<rparr>) (lk_composer_sessions l)\<rparr>);
         return GN_OK
       }
   }"

definition composer_unsubscribe_data :: "conn_id \<Rightarrow> gn_result link" where
  "composer_unsubscribe_data conn = do {
     entry \<leftarrow> gets (\<lambda>l. map_of (lk_composer_sessions l) conn);
     if \<not> is_composer_id conn then return GN_OK
     else case entry of
       None \<Rightarrow> return GN_OK
     | Some e \<Rightarrow> do {
         modify (\<lambda>l. l\<lparr>lk_composer_sessions :=
           AList.update conn (e\<lparr>co_data_cb := None, co_data_user := 0\<rparr>) (lk_composer_sessions l)\<rparr>);
         return GN_OK
       }
   }"

definition composer_subscribe_accept :: "nat option \<Rightarrow> nat \<Rightarrow> bool \<Rightarrow> (gn_result \<times> u64 option) link" where
  "composer_subscribe_accept cb user out_token =
     (case cb of
        None \<Rightarrow> return (GN_ERR_NULL_ARG, None)
      | Some f \<Rightarrow>
          if \<not> out_token then return (GN_ERR_NULL_ARG, None)
          else do {
            token \<leftarrow> gets lk_next_accept_token;
            modify (\<lambda>l. l\<lparr>lk_next_accept_token := token + 1,
              lk_accept_subs := lk_accept_subs l @ [\<lparr>as_token = token, as_cb = f, as_user = user\<rparr>]\<rparr>);
            return (GN_OK, Some token)
          })"

text \<open>The first subscription with the token is removed.\<close>

fun remove_sub :: "u64 \<Rightarrow> ComposerAcceptSub list \<Rightarrow> ComposerAcceptSub list" where
  "remove_sub token [] = []"
| "remove_sub token (x # xs) = (if as_token x = token then xs else x # remove_sub token xs)"

definition composer_unsubscribe_accept :: "u64 \<Rightarrow> gn_result link" where
  "composer_unsubscribe_accept token = do {
     modify (\<lambda>l. l\<lparr>lk_accept_subs := remove_sub token (lk_accept_subs l)\<rparr>);
     return GN_OK
   }"

definition composer_listen_port :: "link_host \<Rightarrow> bool \<Rightarrow> IceLink \<Rightarrow> gn_result \<times> u16 option" where
  "composer_listen_port H out_port l =
     (if \<not> out_port then (GN_ERR_NULL_ARG, None)
      else (GN_OK, Some (if lk_carrier_udp l then lh_listen_port H else 0)))"

section \<open>Shutdown\<close>

definition stop_watcher :: "unit link" where
  "stop_watcher = do {
     watcher \<leftarrow> gets lk_iface_watcher;
     case watcher of
       None \<Rightarrow> return ()
     | Some w \<Rightarrow> do {
         for_each (\<lambda>e. link_emit (WatcherEffect e)) (snd (watcher_stop w));
         modify (\<lambda>l. l\<lparr>lk_iface_watcher := None\<rparr>)
       }
   }"

definition shutdown :: "link_host \<Rightarrow> unit link" where
  "shutdown H = do {
     link_emit CancelReaper;
     stop_watcher;
     stopped \<leftarrow> gets lk_shutdown;
     modify (\<lambda>l. l\<lparr>lk_shutdown := True\<rparr>);
     whenM (\<not> stopped) (do {
       ids_to_emit \<leftarrow> gets lk_published_ids;
       live \<leftarrow> gets (live_sessions H);
       modify (\<lambda>l. l\<lparr>lk_published_ids := [], lk_sessions := [], lk_peer_to_ids := Map.empty,
         lk_composer_sessions := [], lk_composer_peer_to_id := Map.empty, lk_accept_subs := []\<rparr>);
       for_each close_session live;
       for_each (\<lambda>conn. notify_disconnect H conn GN_OK) ids_to_emit;
       modify (\<lambda>l. l\<lparr>lk_timer_ctx := False\<rparr>);
       link_emit StopWorker
     })
   }"

section \<open>Events\<close>

text \<open>
  Calls of the host, timers, and work of the worker thread: the next queued job, input of a session
  (bytes and timers), of the mDNS manager and of the watcher.
\<close>

datatype LinkEvent =
    LkSetHostApi bool
  | LkConfigReload
  | LkTopology bool int bool
  | LkListen string
  | LkConnect string
  | LkSend conn_id bytes
  | LkSendBatch conn_id "bytes list"
  | LkDisconnect conn_id
  | LkRestart conn_id
  | LkDeliver bytes byte bytes
  | LkPoll "bytes option" bool bool nat bool
  | LkComposerListen string
  | LkComposerConnect string bool
  | LkSubscribeData conn_id "nat option" nat
  | LkUnsubscribeData conn_id
  | LkSubscribeAccept "nat option" nat bool
  | LkUnsubscribeAccept u64
  | LkShutdown
  | LkReaper
  | LkJob
  | LkInput nat Event
  | LkMdns "mdns_cb MdnsEvent"
  | LkWatch WatchEvent

text \<open>What reaches a session from outside the link.\<close>

definition external_input :: "Event \<Rightarrow> bool" where
  "external_input e =
     (case e of
        EvCarrierData _ _ \<Rightarrow> True | EvTcpCarrierData _ _ \<Rightarrow> True | EvTurnStream _ \<Rightarrow> True
      | EvBackupStream _ \<Rightarrow> True | EvTurnRefresh \<Rightarrow> True | EvBackupRefresh \<Rightarrow> True
      | EvTcpConnectTimeout _ \<Rightarrow> True | EvTimer _ _ \<Rightarrow> True | _ \<Rightarrow> False)"

definition external_mdns :: "mdns_cb MdnsEvent \<Rightarrow> bool" where
  "external_mdns e = (case e of MdnsTimeout _ \<Rightarrow> True | MdnsDatagram _ _ _ \<Rightarrow> True | _ \<Rightarrow> False)"

definition run_job :: "link_host \<Rightarrow> unit link" where
  "run_job H = do {
     queue \<leftarrow> gets lk_queue;
     case queue of
       [] \<Rightarrow> return ()
     | job # rest \<Rightarrow> do {
         modify (\<lambda>l. l\<lparr>lk_queue := rest\<rparr>);
         run_session H (fst job) (snd job)
       }
   }"

definition run_watcher :: "link_host \<Rightarrow> WatchEvent \<Rightarrow> unit link" where
  "run_watcher H e = do {
     watcher \<leftarrow> gets lk_iface_watcher;
     case watcher of
       None \<Rightarrow> return ()
     | Some w \<Rightarrow> do {
         let (w', effects) = watcher_step (uint (lh_now H) div 1000, e) w;
         modify (\<lambda>l. l\<lparr>lk_iface_watcher := Some w'\<rparr>);
         for_each (\<lambda>e. if e = OnChange then on_interface_change H else link_emit (WatcherEffect e)) effects
       }
   }"

definition returning :: "gn_result link \<Rightarrow> unit link" where
  "returning m = do { rc \<leftarrow> m; link_emit (Return rc) }"

definition returning_fst :: "(gn_result \<times> 'a) link \<Rightarrow> unit link" where
  "returning_fst m = do { r \<leftarrow> m; link_emit (Return (fst r)) }"

definition set_topology :: "bool \<Rightarrow> int \<Rightarrow> bool \<Rightarrow> unit link" where
  "set_topology prefer_tcp overhead ordered = modify (\<lambda>l. l\<lparr>lk_cfg :=
     set_ordered_delivery ordered (set_security_overhead overhead (set_prefer_turn_tcp prefer_tcp (lk_cfg l)))\<rparr>)"

definition link_handle :: "link_host \<Rightarrow> LinkEvent \<Rightarrow> unit link" where
  "link_handle H e =
     (case e of
        LkSetHostApi api \<Rightarrow> set_host_api H api
      | LkConfigReload \<Rightarrow> link_apply_config H
      | LkTopology tcp overhead ordered \<Rightarrow> set_topology tcp overhead ordered
      | LkListen uri \<Rightarrow> link_emit (Return (listen uri))
      | LkConnect uri \<Rightarrow> returning_fst (connect H uri)
      | LkSend conn bytes \<Rightarrow> returning (ice_send H conn bytes)
      | LkSendBatch conn frames \<Rightarrow> returning (send_batch H conn frames)
      | LkDisconnect conn \<Rightarrow> returning (disconnect H conn)
      | LkRestart conn \<Rightarrow> returning (restart_session conn)
      | LkDeliver pk kind blob \<Rightarrow> returning (deliver_signal H pk kind blob)
      | LkPoll pk kind_out blob_out cap len_out \<Rightarrow> returning_fst (poll_local_signal pk kind_out blob_out cap len_out)
      | LkComposerListen uri \<Rightarrow> do { l \<leftarrow> gets id; link_emit (Return (composer_listen uri l)) }
      | LkComposerConnect uri out_conn \<Rightarrow> returning_fst (composer_connect H uri out_conn)
      | LkSubscribeData conn cb user \<Rightarrow> returning (composer_subscribe_data conn cb user)
      | LkUnsubscribeData conn \<Rightarrow> returning (composer_unsubscribe_data conn)
      | LkSubscribeAccept cb user out_token \<Rightarrow> returning_fst (composer_subscribe_accept cb user out_token)
      | LkUnsubscribeAccept token \<Rightarrow> returning (composer_unsubscribe_accept token)
      | LkShutdown \<Rightarrow> shutdown H
      | LkReaper \<Rightarrow> on_reaper H
      | LkJob \<Rightarrow> run_job H
      | LkInput ref ev \<Rightarrow> whenM (external_input ev) (run_session H ref ev)
      | LkMdns ev \<Rightarrow> whenM (external_mdns ev) (with_mdns (mdns_handle (lh_mdns H) ev))
      | LkWatch ev \<Rightarrow> run_watcher H ev)"

end
