(* ===== verification/Link_Tables.thy ===== *)
theory Link_Tables
  imports Ice_Link Session_Safety
begin

text \<open>
  The tables of the link: the index by peer is the inverse of the table of sessions, every session is
  the one its entry says, and the kernel hears of the end of a connection once. The operations that do
  not touch the tables are shown once, in a locale over a preorder of link states, to leave them alone.
\<close>

section \<open>What the tables hold\<close>

text \<open>The identity of a session object, the calls that tell the host something, and the conn ids whose end was told.\<close>

definition identity :: "LinkSession \<Rightarrow> LinkCallbacks \<times> string" where
  "identity obj = (lo_callbacks obj, ss_peer_id (lo_session obj))"

definition is_notification :: "LinkEffect \<Rightarrow> bool" where
  "is_notification e = (case e of NotifyConnect _ _ _ _ _ \<Rightarrow> True | NotifyDisconnect _ _ \<Rightarrow> True
     | NotifyInbound _ _ \<Rightarrow> True | AcceptCallback _ _ _ _ \<Rightarrow> True | DataCallback _ _ _ _ \<Rightarrow> True | _ \<Rightarrow> False)"

definition disconnected :: "LinkEffect list \<Rightarrow> conn_id list" where
  "disconnected es = List.map_filter (\<lambda>e. case e of NotifyDisconnect conn _ \<Rightarrow> Some conn | _ \<Rightarrow> None) es"

lemma is_notification_simps [simp]:
  "is_notification (NotifyConnect pk uri init rc conn)" "is_notification (NotifyDisconnect conn rc)"
  "is_notification (NotifyInbound conn data)" "is_notification (AcceptCallback f u conn uri)"
  "is_notification (DataCallback f u conn data)" "\<not> is_notification (KickHandshake conn)"
  "\<not> is_notification SubscribeReload" "\<not> is_notification (Unsubscribe token)" "\<not> is_notification (ArmReaper s)"
  "\<not> is_notification CancelReaper" "\<not> is_notification (SessionEffect ref e)" "\<not> is_notification (ManagerEffect me)"
  "\<not> is_notification (WatcherEffect we)" "\<not> is_notification StopWorker" "\<not> is_notification (Return rc)"
  by (simp_all add: is_notification_def)

lemma disconnected_simps [simp]:
  "disconnected [] = []" "disconnected (xs @ ys) = disconnected xs @ disconnected ys"
  "disconnected (NotifyDisconnect conn rc # es) = conn # disconnected es"
  by (simp_all add: disconnected_def List.map_filter_def)

lemma disconnected_other: "(\<And>conn rc. e \<noteq> NotifyDisconnect conn rc) \<Longrightarrow> disconnected (e # es) = disconnected es"
  by (cases e) (auto simp: disconnected_def List.map_filter_def)

lemma disconnected_filter: "disconnected (filter is_notification es) = disconnected es"
  by (induction es) (simp_all add: disconnected_def List.map_filter_def is_notification_def split: LinkEffect.splits)

definition composer_view :: "IceLink \<Rightarrow> (conn_id \<times> nat \<times> string) list" where
  "composer_view l = map (\<lambda>(cid, e). (cid, co_session e, co_peer_pk_hex e)) (lk_composer_sessions l)"

definition table_view :: "IceLink \<Rightarrow> (conn_id \<times> PeerEntry) list \<times> (string \<rightharpoonup> conn_id list) \<times> conn_id list \<times>
    (conn_id \<times> nat \<times> string) list \<times> (string \<rightharpoonup> conn_id) \<times> u64 \<times> bool \<times> (LinkCallbacks \<times> string) list \<times> LinkEffect list" where
  "table_view l = (lk_sessions l, lk_peer_to_ids l, lk_published_ids l, composer_view l, lk_composer_peer_to_id l,
     lk_next_composer_id l, lk_shutdown l, map identity (lk_objects l), filter is_notification (lk_log l))"

lemma composer_update_view:
  assumes "map_of xs k = Some e" and "co_session e' = co_session e" and "co_peer_pk_hex e' = co_peer_pk_hex e"
  shows "map (\<lambda>(cid, e). (cid, co_session e, co_peer_pk_hex e)) (AList.update k e' xs) =
    map (\<lambda>(cid, e). (cid, co_session e, co_peer_pk_hex e)) xs"
  using assms by (induction xs) (auto split: if_splits)

lemma map_identity_update: "identity obj = identity (xs ! i) \<Longrightarrow> map identity (xs[i := obj]) = map identity xs"
  by (cases "i < length xs") (simp_all add: map_update list_update_same_conv list_update_beyond)

lemmas view_defs = table_view_def composer_view_def

section \<open>Operations that leave the tables alone\<close>

locale table_order = step_order R for R :: "IceLink \<Rightarrow> IceLink \<Rightarrow> bool" +
  assumes frame: "table_view b = table_view a \<Longrightarrow> R a b"
begin

lemma still: "table_view (f l) = table_view l \<Longrightarrow> effect R (modify f) l"
  by (rule effect_modify) (rule frame)

lemma still_emit: "\<not> is_notification e \<Longrightarrow> effect R (link_emit e) l"
  unfolding link_emit_def by (rule still) (simp add: view_defs)

lemma still_job: "effect R (enqueue_job ref e) l"
  unfolding enqueue_job_def by (rule still) (simp add: view_defs)

lemma still_config: "effect R (link_apply_config H) l"
  unfolding link_apply_config_def by (rule still) (simp add: view_defs Let_def split_beta)

lemma still_carriers: "effect R (resolve_carriers H) l"
  unfolding resolve_carriers_def by (rule still) (simp add: view_defs)

lemma still_mdns: "effect R (with_mdns op) l"
  unfolding with_mdns_def mdns_effect_def
  by (intro rules still)
    (auto simp: view_defs split: MdnsEffect.split intro!: still_job still_emit)

lemma still_ensure_mdns: "effect R (ensure_mdns_manager H) l"
  unfolding ensure_mdns_manager_def by (intro rules still still_mdns) (simp_all add: view_defs)

lemma still_host_api: "effect R (set_host_api H api) l"
  unfolding set_host_api_def start_reaper_def
  by (intro rules still still_emit still_config still_carriers) (simp_all add: view_defs)

lemma still_signal: "effect R (enqueue_local_signal ref v) l"
  unfolding enqueue_local_signal_def by (rule still) (simp add: view_defs Let_def)

lemma still_gathered: "effect R (on_gathered ref v cb) l"
  unfolding on_gathered_def by (intro rules still_signal)

lemma still_count: "effect R (count_in n) l"
  unfolding count_in_def by (rule still) (simp add: view_defs)

lemma still_close: "effect R (close_session ref) l"
  unfolding close_session_def
  by (intro bind_all still_job still)
    (simp add: view_defs map_identity_update identity_def link_session_def)

lemma still_poll: "effect R (poll_local_signal pk k b cap n) l"
  unfolding poll_local_signal_def
  by (intro rules) (auto split: list.splits simp: view_defs intro!: rules still)

lemma still_interface: "effect R (on_interface_change H) l"
  unfolding on_interface_change_def by (intro rules still_job)

lemma still_restart: "effect R (restart_session conn) l"
  unfolding restart_session_def by (intro rules still_job)

lemma still_answer: "effect R (deliver_answer pk flags u p cands eoc) l"
  unfolding deliver_answer_def by (intro rules still_job)

lemma still_watcher: "effect R (run_watcher H e) l"
  unfolding run_watcher_def
  by (intro rules still still_interface still_emit) (simp_all add: view_defs)

lemma still_stop_watcher: "effect R stop_watcher l"
  unfolding stop_watcher_def by (intro rules still still_emit) (simp_all add: view_defs)

lemmas still_ops = still_emit still_job still_config still_carriers still_mdns still_ensure_mdns still_host_api
  still_signal still_gathered still_count still_close still_poll still_interface
  still_restart still_answer still_watcher still_stop_watcher

end

section \<open>Operations that end a session\<close>

definition end_session :: "link_host \<Rightarrow> conn_id \<Rightarrow> string \<Rightarrow> gn_result \<Rightarrow> unit link" where
  "end_session H conn peer rc = do { erase_session conn peer; notify_disconnect H conn rc }"

lemma disconnect_view:
  "table_view (exec (do { erase_session conn peer; close_session ref; notify_disconnect H conn rc }) l) =
   table_view (exec (end_session H conn peer rc) l)"
  by (simp add: end_session_def erase_session_def erase_peer_id_def close_session_def notify_disconnect_def
      enqueue_job_def link_emit_def view_defs map_identity_update identity_def link_session_def)

locale end_order = table_order +
  assumes ending: "map_of (lk_sessions l) conn = Some e \<Longrightarrow> effect R (end_session H conn (pe_peer_pk_hex e) rc) l"
    and ending_composer: "map_of (lk_composer_sessions l) cid = Some c \<Longrightarrow> effect R (erase_composer cid (co_peer_pk_hex c)) l"
    and accepting: "effect R (on_connected cb) l"
    and receiving: "effect R (on_data H data cb) l"
begin

lemma end_failed: "effect R (on_failed H cb) l"
proof (cases cb)
  case (KernelCallbacks conn)
  have "effect R (do { claimed \<leftarrow> claim_disconnect conn; whenM claimed (notify_disconnect H conn GN_ERR_NOT_FOUND) }) l"
  proof (cases "lk_shutdown l \<or> map_of (lk_sessions l) conn = None")
    case True
    then show ?thesis by (auto simp: effect_def claim_disconnect_def refl split: option.split)
  next
    case False
    then obtain e where e: "map_of (lk_sessions l) conn = Some e" by blast
    from ending [OF e, of H GN_ERR_NOT_FOUND] show ?thesis
      using False e by (simp add: effect_def claim_disconnect_def end_session_def split_beta)
  qed
  then show ?thesis unfolding on_failed_def KernelCallbacks by (intro effect_gets_bind whenM) simp
next
  case (ComposerCallbacks cid uri)
  then show ?thesis
    unfolding on_failed_def by (intro effect_gets_bind whenM) (auto intro!: effect_gets_bind effect_option return ending_composer)
qed

lemma end_route: "effect R (route H ref e) l"
  unfolding route_def
  by (intro effect_gets_bind) (cases e; simp add: still_ops accepting receiving end_failed)

lemma end_run: "effect R (run_session H ref ev) l"
proof -
  have "effect R (modify (\<lambda>l. l\<lparr>lk_objects := (lk_objects l)[ref := obj\<lparr>lo_session :=
      fst (session_step E (now, ev) (lo_session obj))\<rparr>]\<rparr>)) l" if "obj = lk_objects l ! ref" for obj E now l
    by (rule still) (simp add: view_defs that map_identity_update identity_def)
  then show ?thesis
    unfolding run_session_def split_beta
    by (intro effect_gets_bind whenM effect_Let bind_all for_each end_route) simp
qed

lemma end_send: "effect R (ice_send H conn bytes) l"
  unfolding ice_send_def by (intro rules end_run still) (simp_all add: view_defs)

lemma end_send_frames: "effect R (send_frames H conn fs) l"
proof (induction fs arbitrary: l)
  case (Cons f fs)
  show ?case unfolding send_frames.simps by (intro rules end_send Cons.IH)
qed (simp add: return)

lemma end_send_batch: "effect R (send_batch H conn fs) l"
  unfolding send_batch_def by (intro rules end_send_frames)

lemma end_disconnect: "effect R (disconnect H conn) l"
proof -
  have "effect R (do { erase_session conn (pe_peer_pk_hex e); close_session ref; notify_disconnect H conn GN_OK; return GN_OK }) l"
    if "map_of (lk_sessions l) conn = Some e" for e ref
  proof -
    let ?m = "do { erase_session conn (pe_peer_pk_hex e); close_session ref; notify_disconnect H conn GN_OK }"
    have "R l (exec (end_session H conn (pe_peer_pk_hex e) GN_OK) l)" by (rule effectD) (rule ending [OF that])
    from trans [OF this frame [OF disconnect_view]] show ?thesis by (simp add: effect_def split_beta)
  qed
  then show ?thesis
    unfolding disconnect_def
    by (intro effect_if effect_gets_bind effect_option return bind_all [OF ending_composer] bind_all [OF still_close])
qed

lemma end_reap: "effect R (reap_sessions H) l"
  unfolding reap_sessions_def by (intro rules end_disconnect)

lemma end_reaper: "effect R (on_reaper H) l"
  unfolding on_reaper_def start_reaper_def by (intro rules end_reap still_emit) simp

lemma end_job: "effect R (run_job H) l"
  unfolding run_job_def
  by (intro effect_gets_bind) (auto split: list.split simp: view_defs intro!: return bind_all still end_run)

lemmas end_ops = end_run end_send end_send_batch end_disconnect end_reaper end_job

end

section \<open>All events\<close>

locale call_order = end_order +
  fixes ok :: "link_host \<Rightarrow> IceLink \<Rightarrow> bool"
  assumes connecting: "ok H l \<Longrightarrow> effect R (connect H uri) l"
    and offering: "ok H l \<Longrightarrow> \<not> lk_shutdown l \<Longrightarrow> effect R (deliver_offer H pk flags u p cands eoc) l"
    and stopping: "effect R (shutdown H) l"
begin

lemma ev_deliver: "ok H l \<Longrightarrow> effect R (deliver_signal H pk kind blob) l"
  unfolding deliver_signal_def
  by (intro effect_gets_bind effect_if effect_option effect_prod effect_Let return offering still_ops) assumption+

lemma ev_subscribe: "effect R (composer_subscribe_data conn cb user) l"
  unfolding composer_subscribe_data_def
  by (intro effect_gets_bind effect_if effect_option return bind_all [OF still])
    (simp add: view_defs composer_update_view)

lemma ev_unsubscribe: "effect R (composer_unsubscribe_data conn) l"
  unfolding composer_unsubscribe_data_def
  by (intro effect_gets_bind effect_if effect_option return bind_all [OF still])
    (simp add: view_defs composer_update_view)

lemma ev_accept: "effect R (composer_subscribe_accept cb user out) l" "effect R (composer_unsubscribe_accept token) l"
  unfolding composer_subscribe_accept_def composer_unsubscribe_accept_def
  by (intro rules still; simp add: view_defs)+

lemma ev_topology: "effect R (set_topology a b c) l"
  unfolding set_topology_def by (rule still) (simp add: view_defs)

lemma ev_returning: "effect R m l \<Longrightarrow> effect R (returning m) l" "effect R n l \<Longrightarrow> effect R (returning_fst n) l"
  unfolding returning_def returning_fst_def by (intro bind_all still_emit; simp)+

lemma ev_call: "ok H l \<Longrightarrow> (\<And>uri out. e \<noteq> LkComposerConnect uri out) \<Longrightarrow> effect R (link_handle H e) l"
  unfolding link_handle_def
  by (cases e) (auto intro!: ev_returning connecting stopping ev_deliver ev_subscribe ev_unsubscribe
      ev_accept ev_topology end_ops still_ops whenM effect_gets_bind)

end

text \<open>With the one call that opens a session of the composer.\<close>

locale event_order = call_order +
  assumes composing: "ok H l \<Longrightarrow> effect R (composer_connect H uri out) l"
begin

lemma ev_handle:
  assumes "ok H l"
  shows "effect R (link_handle H e) l"
proof (cases "\<exists>uri out. e = LkComposerConnect uri out")
  case True
  then show ?thesis using assms by (auto simp: link_handle_def intro!: ev_returning composing)
qed (auto intro: ev_call assms)

lemma ev_run: "(\<And>H l. ok H l) \<Longrightarrow> effect R (for_each (\<lambda>(H, e). link_handle H e) es) l"
  by (intro for_each) (auto intro: ev_handle)

end

section \<open>The invariant\<close>

definition ids_of :: "(string \<rightharpoonup> conn_id list) \<Rightarrow> string \<Rightarrow> conn_id list" where
  "ids_of m p = (case m p of None \<Rightarrow> [] | Some ids \<Rightarrow> ids)"

definition index_ok :: "(conn_id \<rightharpoonup> PeerEntry) \<Rightarrow> (string \<rightharpoonup> conn_id list) \<Rightarrow> bool" where
  "index_ok S P \<longleftrightarrow> (\<forall>p. P p \<noteq> Some [] \<and> distinct (ids_of P p)) \<and>
     (\<forall>p conn. conn \<in> set (ids_of P p) \<longleftrightarrow> (\<exists>e. S conn = Some e \<and> pe_peer_pk_hex e = p))"

definition entries_ok :: "(conn_id \<rightharpoonup> PeerEntry) \<Rightarrow> (LinkCallbacks \<times> string) list \<Rightarrow> conn_id list \<Rightarrow> bool" where
  "entries_ok S objs pub \<longleftrightarrow> (\<forall>conn e. S conn = Some e \<longrightarrow>
     pe_id e = conn \<and> pe_session e < length objs \<and>
     objs ! pe_session e = (KernelCallbacks conn, pe_peer_pk_hex e) \<and> conn \<in> set pub \<and> \<not> is_composer_id conn)"

definition composer_ok :: "(conn_id \<rightharpoonup> nat \<times> string) \<Rightarrow> (string \<rightharpoonup> conn_id) \<Rightarrow> (LinkCallbacks \<times> string) list \<Rightarrow> u64 \<Rightarrow> bool" where
  "composer_ok C Q objs next \<longleftrightarrow>
     (\<forall>p cid. Q p = Some cid \<longleftrightarrow> (\<exists>ref. C cid = Some (ref, p))) \<and>
     (\<forall>cid ref p. C cid = Some (ref, p) \<longrightarrow> ref < length objs \<and>
        (\<exists>uri. objs ! ref = (ComposerCallbacks cid uri, p)) \<and> (\<exists>n < next. cid = n OR kComposerIdBit))"

definition ended_ok :: "(conn_id \<rightharpoonup> PeerEntry) \<Rightarrow> conn_id list \<Rightarrow> conn_id list \<Rightarrow> bool" where
  "ended_ok S pub ended \<longleftrightarrow> distinct pub \<and> distinct ended \<and> set ended \<subseteq> set pub \<and> (\<forall>conn \<in> set ended. S conn = None)"

definition link_ok :: "IceLink \<Rightarrow> bool" where
  "link_ok l \<longleftrightarrow>
     (if lk_shutdown l
      then lk_sessions l = [] \<and> lk_peer_to_ids l = Map.empty \<and> lk_published_ids l = [] \<and>
        composer_view l = [] \<and> lk_composer_peer_to_id l = Map.empty
      else distinct (map fst (lk_sessions l)) \<and> distinct (map fst (composer_view l)) \<and>
        index_ok (map_of (lk_sessions l)) (lk_peer_to_ids l) \<and>
        entries_ok (map_of (lk_sessions l)) (map identity (lk_objects l)) (lk_published_ids l) \<and>
        composer_ok (map_of (composer_view l)) (lk_composer_peer_to_id l) (map identity (lk_objects l)) (lk_next_composer_id l) \<and>
        ended_ok (map_of (lk_sessions l)) (lk_published_ids l) (disconnected (filter is_notification (lk_log l))))"

lemma link_ok_frame: "table_view b = table_view a \<Longrightarrow> link_ok a \<Longrightarrow> link_ok b"
  by (simp add: link_ok_def table_view_def)

lemma index_empty: "index_ok Map.empty Map.empty"
  by (simp add: index_ok_def ids_of_def)

lemma index_insert:
  assumes "index_ok S P" and "S conn = None"
  shows "index_ok (S(conn \<mapsto> e)) (P(pe_peer_pk_hex e \<mapsto> ids_of P (pe_peer_pk_hex e) @ [conn]))"
  using assms by (auto simp: index_ok_def ids_of_def split: if_splits)

lemma index_erase:
  assumes "index_ok S P" and "S conn = Some e"
  shows "index_ok (S(conn := None)) (erase_id (pe_peer_pk_hex e) conn P)"
proof -
  let ?p = "pe_peer_pk_hex e"
  have ids: "ids_of (erase_id ?p conn P) q = (if q = ?p then filter (\<lambda>i. i \<noteq> conn) (ids_of P q) else ids_of P q)" for q
    by (auto simp: erase_id_def ids_of_def Let_def split: option.split)
  moreover have "erase_id ?p conn P q \<noteq> Some []" for q
    using assms(1) by (auto simp: erase_id_def index_ok_def Let_def split: option.splits if_splits)
  ultimately show ?thesis using assms by (auto simp: index_ok_def)
qed

text \<open>
  The kernel gives a new connection an id it has not used before and without the composer's bit, and
  the counter of composer ids has not reached that bit.
\<close>

definition host_ok :: "link_host \<Rightarrow> IceLink \<Rightarrow> bool" where
  "host_ok H l \<longleftrightarrow> lk_next_composer_id l < 0x8000000000000000 \<and>
     (\<forall>f pk uri init conn. lh_notify_connect H = Some f \<longrightarrow> f pk uri init = (GN_OK, conn) \<longrightarrow>
        conn = 0 \<or> conn \<notin> set (lk_published_ids l) \<and> \<not> is_composer_id conn)"

lemma composer_bit: "x < 0x8000000000000000 \<Longrightarrow> \<not> bit x 63" for x :: u64
proof -
  assume "x < 0x8000000000000000"
  then have "uint x < 2 ^ 63" by (simp add: word_less_def)
  then have "uint x div 2 ^ 63 = 0" by (intro div_pos_pos_trivial) simp_all
  then have "\<not> bit (uint x) 63" by (simp add: bit_iff_odd)
  then show ?thesis by (simp add: bit_uint_iff)
qed

lemma composer_bit_iff: "bit kComposerIdBit n \<longleftrightarrow> n = 63"
  unfolding kComposerIdBit_def bit_push_bit_iff by (auto simp: bit_1_iff)

lemma is_composer_id_iff: "is_composer_id conn \<longleftrightarrow> bit conn 63"
  unfolding is_composer_id_def bit_eq_iff [of "conn AND kComposerIdBit" 0]
  by (simp add: bit_and_iff composer_bit_iff)

lemma composer_cid: "is_composer_id (n OR kComposerIdBit)"
  by (simp add: is_composer_id_iff bit_simps composer_bit_iff)

lemma composer_cid_inj:
  assumes "n < 0x8000000000000000" and "m < 0x8000000000000000" and "n OR kComposerIdBit = m OR kComposerIdBit"
  shows "n = m"
proof (rule bit_word_eqI)
  fix i :: nat
  show "bit n i = bit m i"
    using arg_cong [OF assms(3), of "\<lambda>x. bit x i"] composer_bit [OF assms(1)] composer_bit [OF assms(2)]
    by (cases "i = 63") (simp_all add: bit_simps composer_bit_iff)
qed

section \<open>The operations keep the invariant\<close>

lemma entries_okD:
  "entries_ok S objs pub \<Longrightarrow> S conn = Some e \<Longrightarrow> pe_id e = conn \<and> pe_session e < length objs \<and>
     objs ! pe_session e = (KernelCallbacks conn, pe_peer_pk_hex e) \<and> conn \<in> set pub \<and> \<not> is_composer_id conn"
  unfolding entries_ok_def by blast

lemma entries_erase: "entries_ok S objs pub \<Longrightarrow> entries_ok (S(conn := None)) objs pub"
  by (simp add: entries_ok_def)

lemma composer_okI:
  assumes "\<And>p cid. Q p = Some cid \<longleftrightarrow> (\<exists>ref. C cid = Some (ref, p))"
    and "\<And>cid ref p. C cid = Some (ref, p) \<Longrightarrow> ref < length objs \<and>
      (\<exists>uri. objs ! ref = (ComposerCallbacks cid uri, p)) \<and> (\<exists>n < next. cid = n OR kComposerIdBit)"
  shows "composer_ok C Q objs next"
  unfolding composer_ok_def using assms by blast

lemma composer_okD:
  assumes "composer_ok C Q objs next"
  shows "Q p = Some cid \<longleftrightarrow> (\<exists>ref. C cid = Some (ref, p))"
    and "C cid = Some (ref, p) \<Longrightarrow> ref < length objs \<and>
      (\<exists>uri. objs ! ref = (ComposerCallbacks cid uri, p)) \<and> (\<exists>n < next. cid = n OR kComposerIdBit)"
  using assms unfolding composer_ok_def by blast+

lemma composer_erase:
  assumes ok: "composer_ok C Q objs n" and cid: "C cid = Some (ref, p)"
  shows "composer_ok (C(cid := None)) (Q(p := None)) objs n"
proof (rule composer_okI)
  fix q c
  have "Q p = Some cid" using composer_okD(1) [OF ok] cid by blast
  then have "c \<noteq> cid \<Longrightarrow> C c \<noteq> Some (r, p)" for r using composer_okD(1) [OF ok, of p c] by auto
  then show "(Q(p := None)) q = Some c \<longleftrightarrow> (\<exists>ref. (C(cid := None)) c = Some (ref, q))"
    using composer_okD(1) [OF ok, of q c] cid by (cases "c = cid"; cases "q = p") auto
next
  fix c r q
  assume "(C(cid := None)) c = Some (r, q)"
  then have "C c = Some (r, q)" by (simp split: if_splits)
  then show "r < length objs \<and> (\<exists>uri. objs ! r = (ComposerCallbacks c uri, q)) \<and> (\<exists>m < n. c = m OR kComposerIdBit)"
    by (rule composer_okD(2) [OF ok])
qed

lemma composer_insert:
  assumes ok: "composer_ok C Q objs n" and n: "n < 0x8000000000000000" and p: "Q p = None"
  shows "composer_ok (C(n OR kComposerIdBit \<mapsto> (length objs, p))) (Q(p \<mapsto> n OR kComposerIdBit))
    (objs @ [(ComposerCallbacks (n OR kComposerIdBit) uri, p)]) (n + 1)"
proof -
  let ?cid = "n OR kComposerIdBit"
  have up: "m < n + 1" if "m \<le> n" for m
    using that n by (auto simp: word_less_nat_alt word_le_nat_alt unat_word_ariths)
  have fresh: "C ?cid = None"
  proof (rule ccontr)
    assume "C ?cid \<noteq> None"
    then obtain r q where "C ?cid = Some (r, q)" by auto
    from composer_okD(2) [OF ok this] obtain m where m: "m < n" "?cid = m OR kComposerIdBit" by blast
    have "m < 0x8000000000000000" using m(1) n by (rule less_trans)
    from composer_cid_inj [OF n this m(2)] m(1) show False by simp
  qed
  show ?thesis
  proof (rule composer_okI)
    fix q c
    show "(Q(p \<mapsto> ?cid)) q = Some c \<longleftrightarrow> (\<exists>ref. (C(?cid \<mapsto> (length objs, p))) c = Some (ref, q))"
      using composer_okD(1) [OF ok, of q c] p fresh by (cases "c = ?cid"; cases "q = p") auto
  next
    fix c r q
    assume c: "(C(?cid \<mapsto> (length objs, p))) c = Some (r, q)"
    show "r < length (objs @ [(ComposerCallbacks ?cid uri, p)]) \<and>
        (\<exists>uri'. (objs @ [(ComposerCallbacks ?cid uri, p)]) ! r = (ComposerCallbacks c uri', q)) \<and>
        (\<exists>m < n + 1. c = m OR kComposerIdBit)"
    proof (cases "c = ?cid")
      case True
      then show ?thesis using c up [of n] by auto
    next
      case False
      then have "C c = Some (r, q)" using c by simp
      from composer_okD(2) [OF ok this] show ?thesis using up by (auto simp: nth_append less_le)
    qed
  qed
qed

lemma composer_grow: "composer_ok C Q objs n \<Longrightarrow> composer_ok C Q (objs @ [x]) n"
  by (rule composer_okI, rule composer_okD(1), assumption, drule (1) composer_okD(2), auto simp: nth_append)

lemma composer_next:
  assumes ok: "composer_ok C Q objs n" and n: "n < 0x8000000000000000"
  shows "composer_ok C Q objs (n + 1)"
proof (rule composer_okI)
  show "Q p = Some cid \<longleftrightarrow> (\<exists>ref. C cid = Some (ref, p))" for p cid by (rule composer_okD(1) [OF ok])
next
  fix c r q
  assume "C c = Some (r, q)"
  moreover have "m < n + 1" if "m < n" for m
    using that n by (auto simp: word_less_nat_alt unat_word_ariths)
  ultimately show "r < length objs \<and> (\<exists>uri. objs ! r = (ComposerCallbacks c uri, q)) \<and> (\<exists>m < n + 1. c = m OR kComposerIdBit)"
    using composer_okD(2) [OF ok] by blast
qed

lemma entries_insert:
  assumes "entries_ok S objs pub" and "\<not> is_composer_id conn"
  shows "entries_ok (S(conn \<mapsto> \<lparr>pe_id = conn, pe_session = length objs, pe_peer_pk_hex = p\<rparr>))
    (objs @ [(KernelCallbacks conn, p)]) (pub @ [conn])"
  using assms by (fastforce simp: entries_ok_def nth_append less_Suc_eq)

lemma entries_grow: "entries_ok S objs pub \<Longrightarrow> entries_ok S (objs @ [x]) pub"
  by (fastforce simp: entries_ok_def nth_append less_Suc_eq)

lemma ok_end_session:
  assumes "map_of (lk_sessions l) conn = Some e" and "link_ok l"
  shows "link_ok (exec (end_session H conn (pe_peer_pk_hex e) rc) l)"
proof -
  have run: "\<not> lk_shutdown l" using assms by (auto simp: link_ok_def)
  let ?S = "map_of (lk_sessions l)"
  have S: "map_of (AList.delete conn (lk_sessions l)) = ?S(conn := None)" by (rule AList.delete_conv')
  have ok: "distinct (map fst (lk_sessions l))" "distinct (map fst (composer_view l))" "index_ok ?S (lk_peer_to_ids l)"
    "entries_ok ?S (map identity (lk_objects l)) (lk_published_ids l)"
    "composer_ok (map_of (composer_view l)) (lk_composer_peer_to_id l) (map identity (lk_objects l)) (lk_next_composer_id l)"
    "ended_ok ?S (lk_published_ids l) (disconnected (filter is_notification (lk_log l)))"
    using assms(2) run by (simp_all add: link_ok_def)
  have "entries_ok (?S(conn := None)) (map identity (lk_objects l)) (lk_published_ids l)"
    using ok(4) by (rule entries_erase)
  moreover have "conn \<in> set (lk_published_ids l)" using ok(4) assms(1) by (simp add: entries_ok_def)
  then have "ended_ok (?S(conn := None)) (lk_published_ids l) (disconnected (filter is_notification (lk_log l)) @ [conn])"
    "ended_ok (?S(conn := None)) (lk_published_ids l) (disconnected (filter is_notification (lk_log l)))"
    using ok(6) assms(1) by (auto simp: ended_ok_def)
  ultimately show ?thesis
    using ok(1,2,5) index_erase [OF ok(3) assms(1)] run
    by (simp add: end_session_def erase_session_def erase_peer_id_def notify_disconnect_def link_emit_def
        link_ok_def S composer_view_def AList.distinct_delete)
qed

lemma ok_erase_composer:
  assumes "map_of (lk_composer_sessions l) cid = Some c" and "link_ok l"
  shows "link_ok (exec (erase_composer cid (co_peer_pk_hex c)) l)"
proof -
  let ?C = "map_of (composer_view l)"
  let ?v = "map (\<lambda>(cid, e). (cid, co_session e, co_peer_pk_hex e)) :: _ \<Rightarrow> (conn_id \<times> nat \<times> string) list"
  have v: "?v (AList.delete cid xs) = AList.delete cid (?v xs)" for xs by (induction xs) auto
  have C: "?C cid = Some (co_session c, co_peer_pk_hex c)"
    using assms(1) by (simp add: composer_view_def map_of_map)
  have "\<not> lk_shutdown l" using assms by (auto simp: link_ok_def composer_view_def)
  moreover have "composer_ok (?C(cid := None)) ((lk_composer_peer_to_id l)(co_peer_pk_hex c := None)) objs n"
    if "composer_ok ?C (lk_composer_peer_to_id l) objs n" for objs n
    using that C by (rule composer_erase)
  ultimately show ?thesis
    using assms(2)
    by (simp add: erase_composer_def link_ok_def composer_view_def v AList.delete_conv' AList.distinct_delete)
qed

interpretation frame: table_order "same table_view"
  by unfold_locales (simp add: same_def)

lemma new_session_peer [simp]: "ss_peer_id (new_session E cfg peer c tb s) = peer"
  by (simp add: new_session_def generate_ufrag_def generate_pwd_def random_string_def)

lemma ok_open_session:
  assumes "link_ok l" and "\<not> lk_shutdown l" and "conn \<notin> set (lk_published_ids l)" and "\<not> is_composer_id conn"
  shows "link_ok (exec (open_session H conn peer c m) l)"
proof -
  let ?S = "map_of (lk_sessions l)" let ?objs = "map identity (lk_objects l)"
  let ?e = "\<lparr>pe_id = conn, pe_session = length (lk_objects l), pe_peer_pk_hex = peer\<rparr>"
  have ok: "distinct (map fst (lk_sessions l))" "distinct (map fst (composer_view l))" "index_ok ?S (lk_peer_to_ids l)"
    "entries_ok ?S ?objs (lk_published_ids l)"
    "composer_ok (map_of (composer_view l)) (lk_composer_peer_to_id l) ?objs (lk_next_composer_id l)"
    "ended_ok ?S (lk_published_ids l) (disconnected (filter is_notification (lk_log l)))"
    using assms(1,2) by (simp_all add: link_ok_def)
  have S: "map_of (AList.update conn ?e (lk_sessions l)) = ?S(conn \<mapsto> ?e)" by (rule AList.update_conv')
  have none: "?S conn = None" using ok(4) assms(3) by (cases "?S conn") (auto simp: entries_ok_def)
  have "entries_ok (?S(conn \<mapsto> ?e)) (?objs @ [(KernelCallbacks conn, peer)]) (lk_published_ids l @ [conn])"
    using entries_insert [OF ok(4) assms(4), of peer] by simp
  moreover have "index_ok (?S(conn \<mapsto> ?e)) ((lk_peer_to_ids l)(peer \<mapsto> ids_of (lk_peer_to_ids l) peer @ [conn]))"
    using index_insert [OF ok(3) none, of ?e] by simp
  moreover have "ended_ok (?S(conn \<mapsto> ?e)) (lk_published_ids l @ [conn]) (disconnected (filter is_notification (lk_log l)))"
    using ok(6) assms(3) by (auto simp: ended_ok_def)
  ultimately show ?thesis
    using ok(1,2) composer_grow [OF ok(5)] assms(2)
    by (simp add: open_session_def make_session_def publish_session_def link_ok_def S Let_def identity_def
        composer_view_def ids_of_def AList.distinct_update)
qed

text \<open>A connection id the kernel has just handed out.\<close>

definition fresh_id :: "conn_id \<Rightarrow> IceLink \<Rightarrow> bool" where
  "fresh_id conn l \<longleftrightarrow> \<not> lk_shutdown l \<and> conn \<notin> set (lk_published_ids l) \<and> \<not> is_composer_id conn"

interpretation fresh: table_order "keeps (\<lambda>l. link_ok l \<and> fresh_id conn l)" for conn
proof unfold_locales
  fix a b :: IceLink
  assume v: "table_view b = table_view a"
  then have "fresh_id conn b = fresh_id conn a" by (simp add: fresh_id_def table_view_def)
  with link_ok_frame [OF v] show "keeps (\<lambda>l. link_ok l \<and> fresh_id conn l) a b" by (simp add: keeps_def)
qed

interpretation linked: end_order "keeps link_ok"
proof unfold_locales
  show "keeps link_ok a b" if "table_view b = table_view a" for a b
    using link_ok_frame [OF that] by (simp add: keeps_def)
  show "effect (keeps link_ok) (end_session H conn (pe_peer_pk_hex e) rc) l"
    if "map_of (lk_sessions l) conn = Some e" for H conn e rc l
    using ok_end_session [OF that] by (simp add: effect_def keeps_def)
  show "effect (keeps link_ok) (erase_composer cid (co_peer_pk_hex c)) l"
    if "map_of (lk_composer_sessions l) cid = Some c" for cid c l
    using ok_erase_composer [OF that] by (simp add: effect_def keeps_def)
  have emit: "effect (keeps link_ok) (link_emit e) l" if "\<And>conn rc. e \<noteq> NotifyDisconnect conn rc" for e l
    using disconnected_other [OF that] by (simp add: effect_def keeps_def link_emit_def link_ok_def composer_view_def)
  show "effect (keeps link_ok) (on_data H data cb) l" for H data cb l
    unfolding on_data_def count_in_def
    by (cases cb) (auto simp: keeps_def link_ok_def composer_view_def intro!: keeps.rules emit)
  have nominate: "effect (keeps link_ok) (modify (\<lambda>l. l\<lparr>lk_composer_sessions :=
      AList.update cid (e\<lparr>co_nominated := True\<rparr>) (lk_composer_sessions l)\<rparr>)) l"
    if "map_of (lk_composer_sessions l) cid = Some e" for cid e l
    using that by (auto simp: effect_def keeps_def link_ok_def composer_view_def composer_update_view [OF that])
  show "effect (keeps link_ok) (on_connected cb) l" for cb l
    unfolding on_connected_def
    by (cases cb) (auto intro!: keeps.return effect_gets_bind effect_if keeps.bind_all [OF effect_option] keeps.for_each
        emit nominate)
qed

lemma effect_keepsI: "(P l \<Longrightarrow> P (exec m l)) \<Longrightarrow> effect (keeps P) m l"
  by (simp add: effect_def keeps_def)

lemma keeps_then: "effect (keeps P) m l \<Longrightarrow> P l \<Longrightarrow> (\<And>x t. P t \<Longrightarrow> Q (exec (f x) t)) \<Longrightarrow> Q (exec (m \<bind> f) l)"
  by (simp add: effect_def keeps_def split_beta)

lemma keeps_tail: "P (exec m l) \<Longrightarrow> (\<And>x t. effect (keeps P) (f x) t) \<Longrightarrow> P (exec (m \<bind> f) l)"
  by (simp add: effect_def keeps_def split_beta)

lemma linked_emit: "(\<And>conn rc. e \<noteq> NotifyDisconnect conn rc) \<Longrightarrow> effect (keeps link_ok) (link_emit e) l"
  using disconnected_other [of e]
  by (simp add: effect_def keeps_def link_emit_def link_ok_def composer_view_def)

text \<open>The part of \<open>connect\<close> and of a first offer that follows the kernel's answer.\<close>

lemma ok_accepted:
  assumes l: "link_ok l \<and> fresh_id conn l"
    and prep: "\<And>t. effect (keeps (\<lambda>l. link_ok l \<and> fresh_id conn l)) prep t"
    and rest: "\<And>x t. effect (keeps link_ok) (rest x) t"
  shows "link_ok (exec (do { resolve_carriers H; m \<leftarrow> prep; ref \<leftarrow> open_session H conn peer c (g m); rest ref }) l)"
proof -
  have open': "link_ok (exec (do { ref \<leftarrow> open_session H conn peer c (g x); rest ref }) t)"
    if t: "link_ok t \<and> fresh_id conn t" for x t
  proof (rule keeps_tail)
    show "link_ok (exec (open_session H conn peer c (g x)) t)"
      using t unfolding fresh_id_def by (intro ok_open_session) simp_all
  qed (rule rest)
  have "link_ok (exec (do { m \<leftarrow> prep; ref \<leftarrow> open_session H conn peer c (g m); rest ref }) t)"
    if t: "link_ok t \<and> fresh_id conn t" for t
    by (rule keeps_then [OF prep t]) (rule open')
  then show ?thesis by (rule keeps_then [OF fresh.still_carriers l])
qed

lemma fresh_after_emit:
  assumes "link_ok l" and "fresh_id conn l" and "\<And>conn rc. e \<noteq> NotifyDisconnect conn rc"
  shows "link_ok (exec (link_emit e) l)" and "fresh_id conn (exec (link_emit e) l)"
  using effectD [OF linked_emit [of e l]] assms by (simp_all add: keeps_def link_emit_def fresh_id_def)

lemma ok_block:
  assumes "\<not> (rc \<noteq> GN_OK \<or> conn = 0) \<Longrightarrow> fresh_id conn l" and "\<And>conn' rc'. e \<noteq> NotifyDisconnect conn' rc'"
    and "\<And>t. effect (keeps (\<lambda>l. link_ok l \<and> fresh_id conn l)) prep t"
    and "\<And>x t. effect (keeps link_ok) (rest x) t"
  shows "effect (keeps link_ok) (do { link_emit e; if rc \<noteq> GN_OK \<or> conn = 0 then return v
    else do { resolve_carriers H; m \<leftarrow> prep; ref \<leftarrow> open_session H conn peer c (g m); rest ref } }) l"
proof (rule effect_keepsI)
  assume l: "link_ok l"
  let ?l = "exec (link_emit e) l"
  show "link_ok (exec (do { link_emit e; if rc \<noteq> GN_OK \<or> conn = 0 then return v
    else do { resolve_carriers H; m \<leftarrow> prep; ref \<leftarrow> open_session H conn peer c (g m); rest ref } }) l)"
  proof (cases "rc \<noteq> GN_OK \<or> conn = 0")
    case True
    then show ?thesis using effectD [OF linked_emit [OF assms(2)], of l] l by (auto simp: keeps_def split_beta)
  next
    case False
    note f = fresh_after_emit [OF l assms(1) [OF False] assms(2)]
    have "link_ok (exec (do { resolve_carriers H; m \<leftarrow> prep; ref \<leftarrow> open_session H conn peer c (g m); rest ref }) ?l)"
      by (rule ok_accepted [OF conjI [OF f] assms(3,4)])
    then show ?thesis unfolding run_bind [of "link_emit e"] using False by (simp only: if_False simp_thms)
  qed
qed

lemma host_fresh:
  assumes "host_ok H l" and "(if api then lh_notify_connect H else None) = Some f" and "\<not> lk_shutdown l"
    and "f pk uri init = (rc, conn)" and "\<not> (rc \<noteq> GN_OK \<or> conn = 0)"
  shows "fresh_id conn l"
proof -
  have "lh_notify_connect H = Some f" using assms(2) by (simp split: if_splits)
  then show ?thesis using assms(1,3-5) by (auto simp: host_ok_def fresh_id_def)
qed

lemma ok_connect:
  assumes "host_ok H l"
  shows "effect (keeps link_ok) (connect H uri) l"
proof -
  have "effect (keeps link_ok) (do {
      link_emit (NotifyConnect pk (''ice://'' @ peer) True rc conn);
      if rc \<noteq> GN_OK \<or> conn = 0 then return (rc, None)
      else do {
        resolve_carriers H;
        ensure_mdns_manager H;
        ref \<leftarrow> open_session H conn peer True True;
        enqueue_job ref EvGather;
        whenM (lh_kick_handshake H) (link_emit (KickHandshake conn));
        return (GN_OK, Some conn)
      } }) l" if "\<not> (rc \<noteq> GN_OK \<or> conn = 0) \<Longrightarrow> fresh_id conn l" for pk peer rc conn
    by (rule ok_block [where g = "\<lambda>_. True"], rule that)
      (simp_all add: fresh.still_ops linked.still_ops keeps.return keeps.bind_all keeps.whenM)
  note that = this
  show ?thesis
    unfolding connect_def
    by (intro effect_gets_bind effect_if effect_option effect_prod effect_Let keeps.return)
      (rule that, rule host_fresh [OF assms], assumption+)
qed

lemma ok_offer:
  assumes "host_ok H l" and "\<not> lk_shutdown l"
  shows "effect (keeps link_ok) (deliver_offer H pk flags u p cands eoc) l"
proof -
  have "effect (keeps link_ok) (do {
      link_emit (NotifyConnect pk (''ice://'' @ peer) False rc conn);
      if rc \<noteq> GN_OK \<or> conn = 0 then return rc
      else do {
        resolve_carriers H;
        obfuscate \<leftarrow> do { obfuscate \<leftarrow> gets (\<lambda>l. cf_mdns_obfuscate_host_candidates (lk_cfg l));
          whenM obfuscate (ensure_mdns_manager H); return obfuscate };
        ref \<leftarrow> open_session H conn peer False obfuscate;
        enqueue_job ref (EvPeerFlags flags);
        enqueue_job ref EvGather;
        enqueue_job ref (EvAddRemote u p cands eoc);
        return GN_OK
      } }) l" if "\<not> (rc \<noteq> GN_OK \<or> conn = 0) \<Longrightarrow> fresh_id conn l" for peer rc conn
    by (rule ok_block [where g = "\<lambda>m. m"], rule that)
      (simp_all add: fresh.still_ops linked.still_ops keeps.return keeps.bind_all keeps.whenM effect_gets_bind)
  note block = this [unfolded State_Monad.bind_assoc State_Monad.bind_left_identity]
  have fold: "effect (keeps link_ok) (do {
      enqueue_job ref (EvPeerFlags flags);
      enqueue_job ref (EvAddRemote u p cands eoc);
      return GN_OK }) l" for ref
    by (intro keeps.rules linked.still_ops)
  show ?thesis
    unfolding deliver_offer_def
    by (intro effect_gets_bind effect_option effect_prod effect_Let keeps.return fold block)
      (rule host_fresh [OF assms(1)], (rule assms | assumption)+)
qed

lemma composer_view_next [simp]: "composer_view (l\<lparr>lk_next_composer_id := n\<rparr>) = composer_view l"
  by (simp add: composer_view_def)

text \<open>A peer without a composer session, when the id \<open>n\<close> has been drawn for it.\<close>

definition fresh_cid :: "u64 \<Rightarrow> string \<Rightarrow> IceLink \<Rightarrow> bool" where
  "fresh_cid n peer l \<longleftrightarrow> link_ok (l\<lparr>lk_next_composer_id := n\<rparr>) \<and> \<not> lk_shutdown l \<and>
     lk_next_composer_id l = n + 1 \<and> n < 0x8000000000000000 \<and> lk_composer_peer_to_id l peer = None"

interpretation fresh_cid: table_order "keeps (fresh_cid n peer)" for n peer
proof unfold_locales
  fix a b :: IceLink
  assume v: "table_view b = table_view a"
  then have "table_view (b\<lparr>lk_next_composer_id := n\<rparr>) = table_view (a\<lparr>lk_next_composer_id := n\<rparr>)"
    by (simp add: view_defs)
  note link_ok_frame [OF this]
  then show "keeps (fresh_cid n peer) a b"
    using v by (simp add: keeps_def fresh_cid_def table_view_def)
qed

lemma ok_open_composer:
  assumes "fresh_cid n peer l"
  shows "link_ok (exec (open_composer H (n OR kComposerIdBit) peer) l)"
proof -
  let ?S = "map_of (lk_sessions l)" let ?objs = "map identity (lk_objects l)" let ?cid = "n OR kComposerIdBit"
  let ?v = "map (\<lambda>(cid, e). (cid, co_session e, co_peer_pk_hex e)) :: _ \<Rightarrow> (conn_id \<times> nat \<times> string) list"
  have v: "?v (AList.update cid e xs) = AList.update cid (co_session e, co_peer_pk_hex e) (?v xs)" for cid e xs
    by (induction xs) auto
  have n: "\<not> lk_shutdown l" "lk_next_composer_id l = n + 1" "n < 0x8000000000000000" "lk_composer_peer_to_id l peer = None"
    using assms by (simp_all add: fresh_cid_def)
  then have ok: "distinct (map fst (lk_sessions l))" "distinct (map fst (composer_view l))" "index_ok ?S (lk_peer_to_ids l)"
    "entries_ok ?S ?objs (lk_published_ids l)"
    "composer_ok (map_of (composer_view l)) (lk_composer_peer_to_id l) ?objs n"
    "ended_ok ?S (lk_published_ids l) (disconnected (filter is_notification (lk_log l)))"
    using assms by (simp_all add: fresh_cid_def link_ok_def)
  show ?thesis
    using ok(1,3,6) entries_grow [OF ok(4)] n(1,2) ok(2) [unfolded composer_view_def]
      composer_insert [OF ok(5) n(3,4), of "''ice://'' @ peer", unfolded composer_view_def]
    by (simp add: open_composer_def make_session_def link_ok_def Let_def identity_def
        composer_view_def v AList.update_conv' AList.distinct_update)
qed

lemma ok_composer_connect:
  assumes "host_ok H l"
  shows "effect (keeps link_ok) (composer_connect H uri out) l"
proof -
  let ?n = "lk_next_composer_id l" let ?l = "l\<lparr>lk_next_composer_id := ?n + 1\<rparr>"
  have n: "?n < 0x8000000000000000" using assms by (simp add: host_ok_def)
  have up: "link_ok ?l" if "link_ok l"
    using that composer_next [OF _ n] by (cases "lk_shutdown l") (simp_all add: link_ok_def)
  have new: "link_ok (exec (do { resolve_carriers H; ensure_mdns_manager H; ref \<leftarrow> open_composer H (?n OR kComposerIdBit) peer;
      enqueue_job ref EvGather; return (GN_OK, Some (?n OR kComposerIdBit)) }) ?l)"
    if "link_ok l" "\<not> lk_shutdown l" "lk_composer_peer_to_id l peer = None" for peer
  proof -
    have "fresh_cid ?n peer ?l" using that n by (simp add: fresh_cid_def)
    moreover have "link_ok (exec (do { ref \<leftarrow> open_composer H (?n OR kComposerIdBit) peer;
        enqueue_job ref EvGather; return (GN_OK, Some (?n OR kComposerIdBit)) }) t)" if "fresh_cid ?n peer t" for t
      by (rule keeps_tail, rule ok_open_composer [OF that]) (intro keeps.rules linked.still_ops)
    then have "link_ok (exec (do { ensure_mdns_manager H; ref \<leftarrow> open_composer H (?n OR kComposerIdBit) peer;
        enqueue_job ref EvGather; return (GN_OK, Some (?n OR kComposerIdBit)) }) t)" if "fresh_cid ?n peer t" for t
      by (rule keeps_then [OF fresh_cid.still_ensure_mdns that])
    ultimately show ?thesis by (rule keeps_then [OF fresh_cid.still_carriers])
  qed
  show ?thesis
    unfolding composer_connect_def
    by (intro effect_gets_bind effect_if effect_option effect_prod keeps.return; rule effect_keepsI)
      (auto simp: next_composer_cid_def up simp del: run_state_bind split: option.split
        simp: run_bind [of "gets f" for f] run_bind [of "modify f" for f] intro!: new)
qed

section \<open>After shutdown\<close>

text \<open>No session is left in the tables of the kernel surface and of the composer, and no id is left to report.\<close>

definition stopped_link :: "IceLink \<Rightarrow> bool" where
  "stopped_link l \<longleftrightarrow> lk_shutdown l \<and> lk_sessions l = [] \<and> lk_peer_to_ids l = Map.empty \<and> lk_published_ids l = [] \<and>
     composer_view l = [] \<and> lk_composer_peer_to_id l = Map.empty"

lemma link_ok_stopped: "lk_shutdown l \<Longrightarrow> link_ok l \<longleftrightarrow> stopped_link l"
  by (simp add: link_ok_def stopped_link_def)

interpretation halted: table_order "keeps stopped_link"
  by unfold_locales (auto simp: keeps_def stopped_link_def table_view_def)

lemma halted_notify: "effect (keeps stopped_link) (notify_disconnect H conn rc) l"
  by (simp add: effect_def keeps_def notify_disconnect_def link_emit_def stopped_link_def composer_view_def)

lemma shutdown_stops:
  assumes "lk_shutdown l \<Longrightarrow> stopped_link l"
  shows "stopped_link (exec (shutdown H) l)"
proof -
  have "effect (same table_view) (do { link_emit CancelReaper; stop_watcher }) l"
    by (intro same.rules frame.still_ops) simp
  then obtain l' where l': "exec (do { link_emit CancelReaper; stop_watcher }) l = l'" "table_view l' = table_view l"
    by (simp add: effect_def same_def)
  have stopped: "lk_shutdown l' \<Longrightarrow> stopped_link l'"
    using assms l'(2) by (simp add: stopped_link_def table_view_def)
  have "effect (keeps stopped_link) (do {
       for_each close_session live;
       for_each (\<lambda>conn. notify_disconnect H conn GN_OK) ids;
       modify (\<lambda>l. l\<lparr>lk_timer_ctx := False\<rparr>);
       link_emit StopWorker }) t" for live ids t
    by (intro keeps.rules halted.still_ops halted_notify) (simp_all add: keeps_def stopped_link_def composer_view_def)
  note tail = effectD [OF this, unfolded keeps_def, rule_format]
  show ?thesis
  proof (cases "lk_shutdown l'")
    case True
    then show ?thesis
      using stopped l'(1) by (simp add: shutdown_def split_beta stopped_link_def composer_view_def)
  next
    case False
    let ?t = "l'\<lparr>lk_shutdown := True, lk_published_ids := [], lk_sessions := [], lk_peer_to_ids := Map.empty,
         lk_composer_sessions := [], lk_composer_peer_to_id := Map.empty, lk_accept_subs := []\<rparr>"
    have "stopped_link ?t" by (simp add: stopped_link_def composer_view_def)
    from tail [OF this] show ?thesis
      using l'(1) False by (simp add: shutdown_def split_beta)
  qed
qed

lemma ok_shutdown: "effect (keeps link_ok) (shutdown H) l"
proof (rule effect_keepsI)
  assume "link_ok l"
  then have "stopped_link (exec (shutdown H) l)" by (intro shutdown_stops) (simp add: link_ok_stopped)
  then show "link_ok (exec (shutdown H) l)" using link_ok_stopped by (auto simp: stopped_link_def)
qed

interpretation links: event_order "keeps link_ok" host_ok
  by unfold_locales (rule ok_connect ok_offer ok_composer_connect ok_shutdown; assumption)+

definition muted :: "IceLink \<Rightarrow> IceLink \<Rightarrow> bool" where
  "muted a b \<longleftrightarrow> (stopped_link a \<longrightarrow> stopped_link b \<and> table_view b = table_view a)"

lemma muted_trivial: "\<not> stopped_link l \<Longrightarrow> effect muted m l"
  by (simp add: effect_def muted_def)

lemma stopped_linkD: "stopped_link l \<Longrightarrow> lk_shutdown l" "stopped_link l \<Longrightarrow> map_of (lk_sessions l) conn = None"
  "stopped_link l \<Longrightarrow> map_of (lk_composer_sessions l) cid = None"
  by (auto simp: stopped_link_def composer_view_def)

interpretation muted: event_order muted "\<lambda>_ _. True"
proof unfold_locales
  show "muted l l" for l by (simp add: muted_def)
  show "muted a b \<Longrightarrow> muted b c \<Longrightarrow> muted a c" for a b c by (simp add: muted_def)
  show "muted a b" if "table_view b = table_view a" for a b
    using that by (auto simp: muted_def stopped_link_def table_view_def)
  show "effect muted (shutdown H) l" for H l
  proof (cases "stopped_link l")
    case True
    have f: "effect (same table_view) (do { link_emit CancelReaper; stop_watcher }) l"
      by (intro same.rules frame.still_ops) simp
    show ?thesis
      using True f shutdown_stops [of l H]
      by (simp add: effect_def muted_def same_def shutdown_def split_beta stopped_link_def table_view_def)
  qed (rule muted_trivial)
next
  have m: "effect muted m l" if "stopped_link l \<Longrightarrow> exec m l = l" for m :: "'x link" and l
    using that by (auto simp: effect_def muted_def)
  show "effect muted (end_session H conn (pe_peer_pk_hex e) rc) l" if "map_of (lk_sessions l) conn = Some e" for H conn e rc l
    using that by (intro muted_trivial) (auto simp: stopped_link_def)
  show "effect muted (erase_composer cid (co_peer_pk_hex c)) l" if "map_of (lk_composer_sessions l) cid = Some c" for cid c l
    using that by (intro muted_trivial) (auto simp: stopped_link_def composer_view_def)
  show "effect muted (on_connected cb) l" for cb l
    by (rule m) (cases cb, simp_all add: on_connected_def stopped_linkD)
  show "effect muted (on_data H data cb) l" for H data cb l
    by (rule m) (cases cb, simp_all add: on_data_def stopped_linkD)
  show "effect muted (connect H uri) l" for H uri l
    by (rule m) (simp add: connect_def stopped_linkD)
  show "effect muted (deliver_offer H pk flags u p cands eoc) l" if "\<not> lk_shutdown l" for H pk flags u p cands eoc l
    using that by (intro muted_trivial) (auto dest: stopped_linkD)
  show "effect muted (composer_connect H uri out) l" for H uri out l
    by (rule m) (simp add: composer_connect_def stopped_linkD)
qed

section \<open>Reachable links\<close>

text \<open>Any sequence of events, with a host that behaves as documented at every step. The log is the whole history.\<close>

inductive reachable :: "IceLink \<Rightarrow> bool" where
  start: "reachable new_ice_link"
| step: "reachable l \<Longrightarrow> host_ok H l \<Longrightarrow> reachable (exec (link_handle H e) l)"

lemma reachable_ok: "reachable l \<Longrightarrow> link_ok l"
proof (induction rule: reachable.induct)
  case start
  show ?case
    by (simp add: link_ok_def new_ice_link_def index_empty entries_ok_def composer_ok_def ended_ok_def composer_view_def)
next
  case (step l H e)
  from effectD [OF links.ev_handle [OF step.hyps(2), of e]] step.IH show ?case by (simp add: keeps_def)
qed

section \<open>What a connection adds\<close>

text \<open>The state in which \<open>connect\<close> builds the session.\<close>

definition prepared :: "link_host \<Rightarrow> LinkEffect \<Rightarrow> bool \<Rightarrow> IceLink \<Rightarrow> IceLink" where
  "prepared H e mdns l = exec (do { link_emit e; resolve_carriers H; whenM mdns (ensure_mdns_manager H) }) l"

lemma prepared_tables:
  "lk_sessions (prepared H e m l) = lk_sessions l" "lk_peer_to_ids (prepared H e m l) = lk_peer_to_ids l"
  "lk_published_ids (prepared H e m l) = lk_published_ids l" "length (lk_objects (prepared H e m l)) = length (lk_objects l)"
  "lk_composer_peer_to_id (prepared H e m l) = lk_composer_peer_to_id l" "lk_shutdown (prepared H e m l) = lk_shutdown l"
  "composer_view (prepared H e m l) = composer_view l" "lk_next_composer_id (prepared H e m l) = lk_next_composer_id l"
proof -
  have "effect (same table_view) (do { resolve_carriers H; whenM m (ensure_mdns_manager H) }) (exec (link_emit e) l)"
    by (intro same.rules frame.still_ops)
  then have "table_view (prepared H e m l) = table_view (l\<lparr>lk_log := lk_log l @ [e]\<rparr>)"
    by (simp add: effect_def same_def prepared_def link_emit_def split_beta)
  then show "lk_sessions (prepared H e m l) = lk_sessions l" "lk_peer_to_ids (prepared H e m l) = lk_peer_to_ids l"
    "lk_published_ids (prepared H e m l) = lk_published_ids l" "length (lk_objects (prepared H e m l)) = length (lk_objects l)"
    "lk_composer_peer_to_id (prepared H e m l) = lk_composer_peer_to_id l" "lk_shutdown (prepared H e m l) = lk_shutdown l"
    "composer_view (prepared H e m l) = composer_view l" "lk_next_composer_id (prepared H e m l) = lk_next_composer_id l"
    by (auto simp: table_view_def composer_view_def dest: map_eq_imp_length_eq)
qed

lemma prepared_log: "disconnected (lk_log (prepared H (NotifyConnect pk uri init rc conn) m l)) = disconnected (lk_log l)"
proof -
  have "effect (same table_view) (do { resolve_carriers H; whenM m (ensure_mdns_manager H) })
      (exec (link_emit (NotifyConnect pk uri init rc conn)) l)"
    by (intro same.rules frame.still_ops)
  then have "disconnected (filter is_notification (lk_log (prepared H (NotifyConnect pk uri init rc conn) m l))) =
      disconnected (filter is_notification (lk_log l @ [NotifyConnect pk uri init rc conn]))"
    by (simp add: effect_def same_def prepared_def link_emit_def split_beta table_view_def)
  then show ?thesis unfolding disconnected_filter by (simp add: disconnected_other)
qed

lemma prepared_api: "lk_api (prepared H e m l) = lk_api l" "lk_cfg (prepared H e m l) = lk_cfg l"
proof -
  have "effect (same (\<lambda>l. (lk_api l, lk_cfg l))) (do { link_emit e; resolve_carriers H; whenM m (ensure_mdns_manager H) }) l"
    unfolding link_emit_def resolve_carriers_def ensure_mdns_manager_def with_mdns_def mdns_effect_def enqueue_job_def
    by (intro same.rules) (auto simp: same_def effect_def split: MdnsEffect.split)
  then show "lk_api (prepared H e m l) = lk_api l" "lk_cfg (prepared H e m l) = lk_cfg l"
    by (simp_all add: effect_def same_def prepared_def)
qed

text \<open>The host accepts a connection.\<close>

definition accepts :: "link_host \<Rightarrow> bytes \<Rightarrow> string \<Rightarrow> bool \<Rightarrow> conn_id \<Rightarrow> bool" where
  "accepts H pk peer init conn \<longleftrightarrow> conn \<noteq> 0 \<and>
     (case lh_notify_connect H of None \<Rightarrow> False | Some f \<Rightarrow> f pk (''ice://'' @ peer) init = (GN_OK, conn))"

lemma acceptsD:
  assumes "accepts H pk peer init conn"
  obtains f where "lh_notify_connect H = Some f" "f pk (''ice://'' @ peer) init = (GN_OK, conn)" "conn \<noteq> 0"
  using assms by (auto simp: accepts_def split: option.splits)

lemma run_connect:
  assumes "\<not> lk_shutdown l" and "lk_api l" and "is_ice_uri uri" and "peer_of_uri uri = Some (pk, peer)"
    and "accepts H pk peer True conn"
  shows "run_state (connect H uri) l = run_state (do {
      ref \<leftarrow> open_session H conn peer True True;
      enqueue_job ref EvGather;
      whenM (lh_kick_handshake H) (link_emit (KickHandshake conn));
      return (GN_OK, Some conn) }) (prepared H (NotifyConnect pk (''ice://'' @ peer) True GN_OK conn) True l)"
proof -
  from assms(5) obtain f where "lh_notify_connect H = Some f" "f pk (''ice://'' @ peer) True = (GN_OK, conn)" "conn \<noteq> 0"
    by (rule acceptsD)
  then show ?thesis using assms(1-4) by (simp add: connect_def prepared_def split_beta)
qed

lemma connect_opens:
  assumes "\<not> lk_shutdown l" and "lk_api l" and "is_ice_uri uri" and "peer_of_uri uri = Some (pk, peer)"
    and "accepts H pk peer True conn"
  shows "eval (connect H uri) l = (GN_OK, Some conn)"
    and "lk_sessions (exec (connect H uri) l) =
      AList.update conn \<lparr>pe_id = conn, pe_session = length (lk_objects l), pe_peer_pk_hex = peer\<rparr> (lk_sessions l)"
    and "lk_peer_to_ids (exec (connect H uri) l) = (lk_peer_to_ids l)(peer \<mapsto> ids_of (lk_peer_to_ids l) peer @ [conn])"
    and "lk_published_ids (exec (connect H uri) l) = lk_published_ids l @ [conn]"
    and "lk_composer_peer_to_id (exec (connect H uri) l) = lk_composer_peer_to_id l"
    and "lk_shutdown (exec (connect H uri) l) = lk_shutdown l"
    and "lk_api (exec (connect H uri) l) = lk_api l"
    and "disconnected (lk_log (exec (connect H uri) l)) = disconnected (lk_log l)"
    and "lk_next_composer_id (exec (connect H uri) l) = lk_next_composer_id l"
  by (simp_all add: run_connect [OF assms] prepared_tables prepared_log prepared_api disconnected_other open_session_def make_session_def publish_session_def
      enqueue_job_def link_emit_def ids_of_def Let_def split_beta)

section \<open>Properties\<close>

text \<open>C11: The tables of the link agree, whatever the host and the peers do. A conn id is listed under a peer, once, exactly
  when the table of sessions has an entry for that peer under this id; the entry leads to a session that was
  built for this peer and reports to this conn id. The composer's tables are inverse to each other in the same
  way, and an id of one surface never names a session of the other.\<close>

theorem link_tables_agree:
  assumes "reachable l"
  shows "(conn \<in> set (ids_of (lk_peer_to_ids l) p) \<longleftrightarrow>
            (\<exists>e. map_of (lk_sessions l) conn = Some e \<and> pe_peer_pk_hex e = p)) \<and>
         distinct (ids_of (lk_peer_to_ids l) p) \<and>
         (case map_of (lk_sessions l) conn of None \<Rightarrow> True
          | Some e \<Rightarrow> identity (lk_objects l ! pe_session e) = (KernelCallbacks conn, pe_peer_pk_hex e) \<and>
              pe_session e < length (lk_objects l) \<and> any_session conn l = Some (pe_session e)) \<and>
         (lk_composer_peer_to_id l p = Some cid \<longleftrightarrow>
            (\<exists>c. map_of (lk_composer_sessions l) cid = Some c \<and> co_peer_pk_hex c = p)) \<and>
         (case map_of (lk_composer_sessions l) cid of None \<Rightarrow> True
          | Some c \<Rightarrow> (\<exists>uri. identity (lk_objects l ! co_session c) = (ComposerCallbacks cid uri, co_peer_pk_hex c)) \<and>
              co_session c < length (lk_objects l) \<and> any_session cid l = Some (co_session c))"
proof (cases "lk_shutdown l")
  case True
  with reachable_ok [OF assms] have "stopped_link l" by (simp add: link_ok_stopped)
  then show ?thesis by (auto simp: stopped_link_def composer_view_def ids_of_def)
next
  case False
  let ?objs = "map identity (lk_objects l)"
  have ok: "index_ok (map_of (lk_sessions l)) (lk_peer_to_ids l)"
    "entries_ok (map_of (lk_sessions l)) ?objs (lk_published_ids l)"
    "composer_ok (map_of (composer_view l)) (lk_composer_peer_to_id l) ?objs (lk_next_composer_id l)"
    using reachable_ok [OF assms] False by (simp_all add: link_ok_def)
  have view: "map_of (composer_view l) cid = map_option (\<lambda>c. (co_session c, co_peer_pk_hex c)) (map_of (lk_composer_sessions l) cid)"
    by (simp add: composer_view_def map_of_map)
  have 1: "conn \<in> set (ids_of (lk_peer_to_ids l) p) \<longleftrightarrow> (\<exists>e. map_of (lk_sessions l) conn = Some e \<and> pe_peer_pk_hex e = p)"
    and 2: "distinct (ids_of (lk_peer_to_ids l) p)" using ok(1) by (simp_all add: index_ok_def)
  have 3: "identity (lk_objects l ! pe_session e) = (KernelCallbacks conn, pe_peer_pk_hex e) \<and>
      pe_session e < length (lk_objects l) \<and> any_session conn l = Some (pe_session e)"
    if "map_of (lk_sessions l) conn = Some e" for e
    using entries_okD [OF ok(2) that] that by (auto simp: any_session_def find_session_def)
  have 4: "lk_composer_peer_to_id l p = Some cid \<longleftrightarrow>
      (\<exists>c. map_of (lk_composer_sessions l) cid = Some c \<and> co_peer_pk_hex c = p)"
    using composer_okD(1) [OF ok(3), of p cid] view by auto
  have 5: "(\<exists>uri. identity (lk_objects l ! co_session c) = (ComposerCallbacks cid uri, co_peer_pk_hex c)) \<and>
      co_session c < length (lk_objects l) \<and> any_session cid l = Some (co_session c)"
    if "map_of (lk_composer_sessions l) cid = Some c" for c
    using composer_okD(2) [OF ok(3), of cid "co_session c" "co_peer_pk_hex c"] view that
    by (auto simp: any_session_def find_composer_def composer_cid)
  show ?thesis using 1 2 3 4 5 by (auto split: option.split)
qed

text \<open>C12: The kernel hears of the end of a connection at most once, and never while the session is still in the table,
  as long as the link has not been shut down.\<close>

theorem disconnect_notified_once:
  assumes "reachable l" and "\<not> lk_shutdown l"
  shows "distinct (disconnected (lk_log l)) \<and>
    (conn \<in> set (disconnected (lk_log l)) \<longrightarrow> map_of (lk_sessions l) conn = None \<and> conn \<in> set (lk_published_ids l))"
  using reachable_ok [OF assms(1)] assms(2) by (auto simp: link_ok_def ended_ok_def disconnected_filter)

lemma stopped_run_muted: "effect muted (for_each (\<lambda>(H, e). link_handle H e) es) l"
  by (rule muted.ev_run) simp

text \<open>C18: Shutdown is final for sessions. It empties the table of sessions, its index by peer, the list of published ids
  and the composer's table with its index. Whatever events follow, of the host or of the network, these five stay
  empty, no session object is built, and the log gains no notification of a connection, a disconnection or
  inbound data and no accept or data callback of the composer. Other state is not part of the claim: queued
  outbound signals are kept, accept subscriptions and the configuration subscription can still be made.\<close>

theorem shutdown_is_final:
  assumes "reachable l" and "l0 = exec (shutdown H) l" and "l1 = exec (for_each (\<lambda>(H, e). link_handle H e) es) l0"
  shows "lk_sessions l1 = [] \<and> lk_peer_to_ids l1 = Map.empty \<and> lk_published_ids l1 = [] \<and>
    lk_composer_sessions l1 = [] \<and> lk_composer_peer_to_id l1 = Map.empty \<and>
    length (lk_objects l1) = length (lk_objects l0) \<and>
    filter is_notification (lk_log l1) = filter is_notification (lk_log l0)"
proof -
  have "stopped_link l0"
    unfolding assms(2) using reachable_ok [OF assms(1)] by (intro shutdown_stops) (simp add: link_ok_stopped)
  with effectD [OF stopped_run_muted [of es l0]] have "stopped_link l1" "table_view l1 = table_view l0"
    by (simp_all add: muted_def assms(3))
  then show ?thesis
    by (auto simp: stopped_link_def view_defs dest: map_eq_imp_length_eq)
qed

lemma count_once: "distinct xs \<Longrightarrow> x \<in> set xs \<Longrightarrow> count_list xs x = 1"
  by (induction xs) auto

lemma notify_each:
  "lk_api l \<Longrightarrow> lh_notify_disconnect H \<Longrightarrow>
   exec (for_each (\<lambda>conn. notify_disconnect H conn rc) ids) l = l\<lparr>lk_log := lk_log l @ map (\<lambda>conn. NotifyDisconnect conn rc) ids\<rparr>"
  by (induction ids arbitrary: l) (simp_all add: notify_disconnect_def link_emit_def)

text \<open>C36: Shutdown tells the kernel of the end of every connection that was ever published, also of those whose end it has
  been told before: a conn id that was disconnected earlier is reported a second time.\<close>

theorem shutdown_repeats_disconnects:
  assumes "reachable l" and "\<not> lk_shutdown l" and "lk_api l" and "lh_notify_disconnect H"
  shows "disconnected (lk_log (exec (shutdown H) l)) = disconnected (lk_log l) @ lk_published_ids l \<and>
    (conn \<in> set (disconnected (lk_log l)) \<longrightarrow> count_list (disconnected (lk_log (exec (shutdown H) l))) conn = 2)"
proof -
  let ?view = "\<lambda>l. (lk_api l, lk_published_ids l, lk_shutdown l, disconnected (lk_log l))"
  have "effect (same ?view) (do { link_emit CancelReaper; stop_watcher }) l"
    unfolding link_emit_def stop_watcher_def
    by (intro same.rules) (simp_all add: same_def disconnected_other)
  then obtain l1 where l1: "exec (do { link_emit CancelReaper; stop_watcher }) l = l1" "?view l1 = ?view l"
    by (simp add: effect_def same_def)
  have closed: "?view (exec (for_each close_session refs) t) = ?view t" for refs t
  proof -
    have "effect (same ?view) (for_each close_session refs) t"
      unfolding close_session_def enqueue_job_def by (intro same.rules) (simp_all add: same_def)
    then show ?thesis by (simp add: effect_def same_def)
  qed
  let ?t = "l1\<lparr>lk_shutdown := True, lk_published_ids := [], lk_sessions := [], lk_peer_to_ids := Map.empty,
         lk_composer_sessions := [], lk_composer_peer_to_id := Map.empty, lk_accept_subs := []\<rparr>"
  let ?c = "exec (for_each close_session (live_sessions H (l1\<lparr>lk_shutdown := True\<rparr>))) ?t"
  have c: "lk_api ?c" "disconnected (lk_log ?c) = disconnected (lk_log l)"
    using closed [of _ ?t] l1(2) assms(3) by simp_all
  have "exec (shutdown H) l = exec (do { for_each (\<lambda>conn. notify_disconnect H conn GN_OK) (lk_published_ids l);
      modify (\<lambda>l. l\<lparr>lk_timer_ctx := False\<rparr>); link_emit StopWorker }) ?c"
    using l1 assms(2) by (simp add: shutdown_def split_beta)
  also have "disconnected (lk_log \<dots>) = disconnected (lk_log l) @ lk_published_ids l"
    using c by (simp add: split_beta notify_each [OF c(1) assms(4)] link_emit_def disconnected_other
        disconnected_def List.map_filter_def comp_def)
  finally have eq: "disconnected (lk_log (exec (shutdown H) l)) = disconnected (lk_log l) @ lk_published_ids l" .
  have "distinct (disconnected (lk_log l))" "distinct (lk_published_ids l)"
    "set (disconnected (lk_log l)) \<subseteq> set (lk_published_ids l)"
    using reachable_ok [OF assms(1)] assms(2) by (auto simp: link_ok_def ended_ok_def disconnected_filter)
  then show ?thesis using eq by (auto simp: count_once)
qed

section \<open>A link with a connection\<close>

definition sample_key :: bytes where "sample_key = replicate 32 0xAB"
definition sample_hex :: string where "sample_hex = concat (replicate 32 ''ab'')"

definition sample_host :: "conn_id \<Rightarrow> link_host" where
  "sample_host conn = \<lparr>lh_now = 0, lh_config = None, lh_config_env = sample_config_env,
     lh_notify_connect = Some (\<lambda>_ _ _. (GN_OK, conn)), lh_notify_disconnect = True, lh_notify_inbound = True,
     lh_kick_handshake = True, lh_unsubscribe = False, lh_subscribe = None, lh_carrier = (\<lambda>_. True),
     lh_listen_port = 4000, lh_portmap_query = None,
     lh_portmap_api = \<lparr>pa_api_size = 0, pa_supported = None, pa_request = None, pa_release = None\<rparr>,
     lh_portmap_size = 0, lh_portmap_udp = 0, lh_portmap_protocols = 0, lh_mdns = sample_mdns_env,
     lh_session = (\<lambda>_. sample_session_env), lh_tiebreaker = 0, lh_socket_ok = True, lh_bind_ok = True,
     lh_order = (\<lambda>ids. ids)\<rparr>"

definition bound_link :: IceLink where
  "bound_link = exec (link_handle (sample_host 7) (LkSetHostApi True)) new_ice_link"

definition sample_link :: IceLink where
  "sample_link = exec (link_handle (sample_host 7) (LkConnect (''ice://'' @ sample_hex))) bound_link"

definition closed_link :: IceLink where
  "closed_link = exec (link_handle (sample_host 8) (LkDisconnect 7)) sample_link"

lemma small_not_composer: "\<not> is_composer_id 7" "\<not> is_composer_id 8"
  by (simp_all add: is_composer_id_def kComposerIdBit_def)

lemma bound_link_simps:
  "lk_api bound_link" "\<not> lk_shutdown bound_link" "lk_sessions bound_link = []" "lk_peer_to_ids bound_link = Map.empty"
  "lk_published_ids bound_link = []" "lk_next_composer_id bound_link = 1" "lk_objects bound_link = []"
  "disconnected (lk_log bound_link) = []"
  by (simp_all add: bound_link_def link_handle_def set_host_api_def link_apply_config_def resolve_carriers_def
      start_reaper_def link_emit_def sample_host_def apply_config_def new_ice_link_def Let_def disconnected_def
      List.map_filter_def)

lemma sample_uri:
  "is_ice_uri (''ice://'' @ sample_hex)" "peer_of_uri (''ice://'' @ sample_hex) = Some (sample_key, sample_hex)"
  by (simp_all add: is_ice_uri_def peer_of_uri_def parse_peer_pk_hex_def sample_hex_def sample_key_def
      GN_PUBLIC_KEY_BYTES_def key_digit_def Let_def eval_nat_numeral)

lemma reachable_bound: "reachable bound_link"
  unfolding bound_link_def
  by (intro reachable.intros) (simp add: host_ok_def sample_host_def new_ice_link_def small_not_composer)

lemma reachable_sample: "reachable sample_link"
  unfolding sample_link_def
  by (intro reachable.step reachable_bound) (simp add: host_ok_def sample_host_def bound_link_simps small_not_composer)

lemma sample_link_simps:
  "map_of (lk_sessions sample_link) 7 = Some \<lparr>pe_id = 7, pe_session = 0, pe_peer_pk_hex = sample_hex\<rparr>"
  "lk_published_ids sample_link = [7]" "lk_shutdown sample_link = False" "lk_api sample_link"
  "disconnected (lk_log sample_link) = []" "lk_next_composer_id sample_link = 1"
proof -
  have acc: "accepts (sample_host 7) sample_key sample_hex True 7" by (simp add: accepts_def sample_host_def)
  note c = connect_opens [OF bound_link_simps(2,1) sample_uri acc]
  show "map_of (lk_sessions sample_link) 7 = Some \<lparr>pe_id = 7, pe_session = 0, pe_peer_pk_hex = sample_hex\<rparr>"
    "lk_published_ids sample_link = [7]" "lk_shutdown sample_link = False" "lk_api sample_link"
    "disconnected (lk_log sample_link) = []" "lk_next_composer_id sample_link = 1"
    using c disconnected_other [of "Return GN_OK" "[]"] 
    by (simp_all add: sample_link_def link_handle_def returning_fst_def link_emit_def bound_link_simps split_beta)
qed

lemma reachable_closed: "reachable closed_link"
  unfolding closed_link_def
  by (intro reachable.step reachable_sample)
    (simp add: host_ok_def sample_host_def sample_link_simps small_not_composer)

lemma closed_link_simps:
  "disconnected (lk_log closed_link) = [7]" "lk_published_ids closed_link = [7]" "\<not> lk_shutdown closed_link"
  "lk_api closed_link"
  using sample_link_simps disconnected_other [of "Return GN_OK" "[]"]
  by (simp_all add: closed_link_def link_handle_def returning_def disconnect_def small_not_composer erase_session_def
      erase_peer_id_def close_session_def enqueue_job_def notify_disconnect_def link_emit_def split_beta sample_host_def)

theorem link_tables_agree_witness:
  "7 \<in> set (ids_of (lk_peer_to_ids sample_link) sample_hex) \<and>
   identity (lk_objects sample_link ! 0) = (KernelCallbacks 7, sample_hex) \<and> any_session 7 sample_link = Some 0"
  using link_tables_agree [OF reachable_sample, of 7 sample_hex 0] sample_link_simps(1) by simp

theorem disconnect_notified_once_witness:
  "disconnected (lk_log closed_link) = [7] \<and> map_of (lk_sessions closed_link) 7 = None"
  using disconnect_notified_once [OF reachable_closed closed_link_simps(3), of 7] closed_link_simps(1) by simp

theorem shutdown_is_final_witness:
  "lk_sessions (exec (for_each (\<lambda>(H, e). link_handle H e) [(sample_host 8, LkConnect (''ice://'' @ sample_hex)),
     (sample_host 8, LkJob)]) (exec (shutdown (sample_host 7)) sample_link)) = []"
  using shutdown_is_final [OF reachable_sample refl refl] by blast

theorem shutdown_repeats_disconnects_witness:
  "count_list (disconnected (lk_log (exec (shutdown (sample_host 7)) closed_link))) 7 = 2"
proof -
  have "lh_notify_disconnect (sample_host 7)" by (simp add: sample_host_def)
  from shutdown_repeats_disconnects [OF reachable_closed closed_link_simps(3,4) this, of 7]
  show ?thesis by (simp add: closed_link_simps)
qed

end
