(* ===== verification/Link_Signals.thy ===== *)
theory Link_Signals
  imports Link_Tables
begin

text \<open>
  Signalling between two links, the keys and URIs that name peers, the reaper, batches, and what a call
  that fails leaves behind.
\<close>

section \<open>Keys\<close>

lemma key_digit_char: "n < 16 \<Longrightarrow> key_digit (key_hex_char n) = Some n"
proof -
  assume "n < 16"
  then have "n \<in> set [0..<16]" by simp
  then show ?thesis by (auto simp: upt_conv_Cons key_digit_def key_hex_char_def Let_def)
qed

lemma octet_parts: "unat (drop_bit 4 b) = unat b div 16" "unat (b AND 0x0F) = unat b mod 16" for b :: byte
proof -
  have "b AND 0x0F = take_bit 4 b" by (simp add: take_bit_eq_mask mask_eq_exp_minus_1)
  then show "unat (b AND 0x0F) = unat b mod 16" by (simp only: unsigned_take_bit_eq) (simp add: take_bit_eq_mod)
  have "unat b < 256" using unsigned_less [of b, where 'a = nat] by simp
  then show "unat (drop_bit 4 b) = unat b div 16"
    by (simp only: unsigned_drop_bit_eq) (simp add: drop_bit_eq_div take_bit_nat_eq_self)
qed

lemma octet_halves: "unat (drop_bit 4 b) < 16" "unat (b AND 0x0F) < 16"
  "word_of_nat (unat (drop_bit 4 b) * 16 + unat (b AND 0x0F)) = b" for b :: byte
  using unsigned_less [of b, where 'a = nat] unfolding octet_parts by (simp_all add: div_mult_mod_eq)

lemma hex_octets_pk: "hex_octets (pk_to_hex pk) = Some pk"
  by (induction pk)
    (simp_all add: pk_to_hex_def key_digit_char octet_halves del: of_nat_add of_nat_mult)

lemma length_pk_to_hex [simp]: "length (pk_to_hex pk) = 2 * length pk"
  by (induction pk) (simp_all add: pk_to_hex_def)

lemma hex_octets_length: "hex_octets h = Some pk \<Longrightarrow> even (length h) \<Longrightarrow> length h = 2 * length pk"
  by (induction h arbitrary: pk rule: hex_octets.induct) (auto split: option.splits)

lemma parse_pk_to_hex: "length pk = 32 \<Longrightarrow> parse_peer_pk_hex (pk_to_hex pk) = Some pk"
  by (simp add: parse_peer_pk_hex_def GN_PUBLIC_KEY_BYTES_def hex_octets_pk)

lemma key_digits: "list_all (\<lambda>c. case key_digit c of None \<Rightarrow> True | Some n \<Rightarrow> n < 16 \<and> key_hex_char n = tolower c) Enum.enum"
  by code_simp

lemma key_digit_lower: "key_digit c = Some n \<Longrightarrow> n < 16 \<and> key_hex_char n = tolower c"
  using key_digits by (auto simp: list_all_iff UNIV_enum [symmetric] split: option.splits)

lemma octet_digits:
  assumes "hi < 16" and "lo < 16"
  shows "unat (drop_bit 4 (word_of_nat (hi * 16 + lo) :: byte)) = hi" and "unat ((word_of_nat (hi * 16 + lo) :: byte) AND 0x0F) = lo"
proof -
  have "unat (word_of_nat (hi * 16 + lo) :: byte) = hi * 16 + lo"
    using assms by (simp add: unat_of_nat del: of_nat_add of_nat_mult)
  then show "unat (drop_bit 4 (word_of_nat (hi * 16 + lo) :: byte)) = hi" "unat ((word_of_nat (hi * 16 + lo) :: byte) AND 0x0F) = lo"
    unfolding octet_parts using assms by simp_all
qed

lemma pk_to_hex_lower: "hex_octets h = Some pk \<Longrightarrow> even (length h) \<Longrightarrow> pk_to_hex pk = to_lower h"
proof (induction h arbitrary: pk rule: hex_octets.induct)
  case (1 a b rest)
  from "1.prems"(1) obtain hi lo ps where d: "key_digit a = Some hi" "key_digit b = Some lo"
    "hex_octets rest = Some ps" "pk = word_of_nat (hi * 16 + lo) # ps"
    by (auto split: option.splits)
  then have "pk_to_hex ps = to_lower rest" using "1.IH" [OF refl d(1,2,3)] "1.prems"(2) by simp
  moreover note key_digit_lower [OF d(1)] key_digit_lower [OF d(2)]
  ultimately show ?case unfolding d(4)
    by (simp add: pk_to_hex_def to_lower_def octet_digits del: of_nat_add of_nat_mult)
qed (simp_all add: pk_to_hex_def to_lower_def)

lemma peer_of_uri_lower: "peer_of_uri uri = Some (pk, h) \<Longrightarrow> length pk = 32 \<and> pk_to_hex pk = to_lower h"
  using hex_octets_length [of h pk] pk_to_hex_lower [of h pk]
  by (auto simp: peer_of_uri_def parse_peer_pk_hex_def GN_PUBLIC_KEY_BYTES_def Let_def split: if_splits)

section \<open>Signals\<close>

lemma char_of_byte_zero: "char_of_byte 0 = CHR 0x00"
  by (simp add: char_of_byte_def char_of_def)

lemma array_string_char_array:
  assumes "length s \<le> n" and "CHR 0x00 \<notin> set s"
  shows "array_string (char_array n s) = s"
proof -
  have z: "string_of_bytes (bytes_of_string s @ replicate k 0) = s @ replicate k (CHR 0x00)" for k
    using char_of_byte_zero by (simp add: string_of_bytes_def bytes_of_string_def comp_def)
  have t: "c_str (s @ replicate k (CHR 0x00)) = s" for k
    using assms(2) unfolding c_str_def by (subst takeWhile_append2) (auto simp: takeWhile_eq_Nil_iff)
  have "char_array n s = bytes_of_string s @ replicate (n - length s) 0"
    using assms by (simp add: char_array_def c_str_id Let_def)
  then show ?thesis by (simp only: array_string_def z t)
qed

text \<open>A view that fits in a signal.\<close>

definition signal_view :: "LocalView \<Rightarrow> bool" where
  "signal_view v \<longleftrightarrow> list_all signal_candidate (lv_candidates v) \<and> length (lv_candidates v) \<le> 256 \<and>
     length (lv_ufrag v) \<le> 8 \<and> CHR 0x00 \<notin> set (lv_ufrag v) \<and> length (lv_pwd v) \<le> 32 \<and> CHR 0x00 \<notin> set (lv_pwd v)"

definition signal_blob :: "LocalView \<Rightarrow> bytes" where
  "signal_blob v = serialize_signal (lv_ufrag v) (lv_pwd v) (lv_candidates v) (lv_flags v)"

definition signal_kind :: "LocalView \<Rightarrow> byte" where
  "signal_kind v = (if lv_controlling v then ICE_SIGNAL_OFFER_EOC else ICE_SIGNAL_ANSWER_EOC)"

lemma poll_enqueued:
  assumes "\<not> lk_shutdown A" and "ss_peer_id (link_session ref A) = pk_to_hex pk"
    and "lk_outbound_signals A (pk_to_hex pk) = None" and "length (signal_blob v) \<le> cap"
  shows "eval (poll_local_signal (Some pk) True True cap True) (exec (enqueue_local_signal ref v) A) =
    (GN_OK, Some (length (signal_blob v)), Some (ucast (signal_kind v), signal_blob v))"
  using assms by (simp add: poll_local_signal_def enqueue_local_signal_def signal_blob_def signal_kind_def Let_def)

lemma deliver_blob:
  assumes "signal_view v" and "\<not> lk_shutdown B"
    and "\<not> (cf_lite_mode (lk_cfg B) \<and> lv_flags v AND ICE_SIGNAL_FLAG_LITE \<noteq> 0)"
  shows "run_state (deliver_signal H pk (signal_kind v) (signal_blob v)) B =
    run_state (if lv_controlling v
      then deliver_offer H pk (lv_flags v AND ICE_SIGNAL_FLAG_MASK) (lv_ufrag v) (lv_pwd v) (map wire_view (lv_candidates v)) True
      else deliver_answer pk (lv_flags v AND ICE_SIGNAL_FLAG_MASK) (lv_ufrag v) (lv_pwd v) (map wire_view (lv_candidates v)) True) B"
proof -
  have d: "deserialize_signal (signal_blob v) =
      accept (\<lparr>sig_ufrag = char_array 8 (lv_ufrag v), sig_pwd = char_array 32 (lv_pwd v),
          sig_candidate_count = word_of_nat (length (lv_candidates v))\<rparr>,
        map wire_view (lv_candidates v), lv_flags v AND ICE_SIGNAL_FLAG_MASK)"
    unfolding signal_blob_def
    by (rule deserialize_serialize) (use assms(1) in \<open>auto simp: signal_view_def list_all_iff\<close>)
  then have len: "\<not> length (signal_blob v) < 44" by (auto simp: deserialize_signal_def)
  have "ICE_SIGNAL_FLAG_MASK AND ICE_SIGNAL_FLAG_LITE = ICE_SIGNAL_FLAG_LITE"
    by (simp add: signal_consts ICE_SIGNAL_FLAG_LITE_def)
  then have lite: "(lv_flags v AND ICE_SIGNAL_FLAG_MASK) AND ICE_SIGNAL_FLAG_LITE = lv_flags v AND ICE_SIGNAL_FLAG_LITE"
    by (simp only: and.assoc)
  have s: "array_string (char_array 8 (lv_ufrag v)) = lv_ufrag v" "array_string (char_array 32 (lv_pwd v)) = lv_pwd v"
    using assms(1) by (simp_all add: signal_view_def array_string_char_array)
  have k: "is_offer (signal_kind v) = lv_controlling v" "is_answer (signal_kind v) = (\<not> lv_controlling v)"
    "is_eoc (signal_kind v)"
    by (simp_all add: signal_kind_def is_offer_def is_answer_def is_eoc_def
        ICE_SIGNAL_OFFER_def ICE_SIGNAL_ANSWER_def ICE_SIGNAL_OFFER_EOC_def ICE_SIGNAL_ANSWER_EOC_def)
  show ?thesis
    using assms(2,3) len by (cases "cf_lite_mode (lk_cfg B)") (simp_all add: deliver_signal_def d parsed_value_def k lite s Let_def)
qed

text \<open>The session \<open>r\<close> of the link was built for this peer.\<close>

definition session_of :: "IceLink \<Rightarrow> nat \<Rightarrow> string \<Rightarrow> bool" where
  "session_of l r peer \<longleftrightarrow> r < length (lk_objects l) \<and> ss_peer_id (link_session r l) = peer"

lemma ok_find:
  assumes "link_ok l"
  shows "first_of_peer p l = Some r \<Longrightarrow> session_of l r p" and "single_of_peer p l = Some r \<Longrightarrow> session_of l r p"
    and "composer_of_peer p l = Some r \<Longrightarrow> session_of l r p"
proof -
  let ?objs = "map identity (lk_objects l)"
  have id: "session_of l r p" if "r < length ?objs" "?objs ! r = (cb, p)" for r cb
    using that by (auto simp: session_of_def link_session_def identity_def)
  have kernel: "session_of l r p" if "i \<in> set (ids_of (lk_peer_to_ids l) p)" "find_session i l = Some r" for i r
  proof (cases "lk_shutdown l")
    case True
    then show ?thesis using that assms by (simp add: link_ok_def ids_of_def)
  next
    case False
    then have ok: "index_ok (map_of (lk_sessions l)) (lk_peer_to_ids l)"
      "entries_ok (map_of (lk_sessions l)) ?objs (lk_published_ids l)"
      using assms by (simp_all add: link_ok_def)
    from ok(1) that(1) obtain e where e: "map_of (lk_sessions l) i = Some e" "pe_peer_pk_hex e = p"
      by (auto simp: index_ok_def)
    from entries_okD [OF ok(2) e(1)] show ?thesis
      using that(2) e by (intro id [of _ "KernelCallbacks i"]) (auto simp: find_session_def)
  qed
  show "session_of l r p" if "first_of_peer p l = Some r"
    using that by (auto simp: first_of_peer_def ids_of_def split: option.splits list.splits intro: kernel)
  show "session_of l r p" if "single_of_peer p l = Some r"
    using that by (auto simp: single_of_peer_def ids_of_def split: option.splits list.splits intro: kernel)
  show "session_of l r p" if c: "composer_of_peer p l = Some r"
  proof (cases "lk_shutdown l")
    case True
    then show ?thesis using c assms by (simp add: link_ok_def composer_of_peer_def)
  next
    case False
    then have ok: "composer_ok (map_of (composer_view l)) (lk_composer_peer_to_id l) ?objs (lk_next_composer_id l)"
      using assms by (simp add: link_ok_def)
    from c obtain cid e where q: "lk_composer_peer_to_id l p = Some cid" "map_of (lk_composer_sessions l) cid = Some e"
      "co_session e = r"
      by (auto simp: composer_of_peer_def find_composer_def split: option.splits)
    have view: "map_of (composer_view l) cid = Some (r, co_peer_pk_hex e)"
      using q by (simp add: composer_view_def map_of_map)
    with composer_okD(1) [OF ok, of p cid] q(1) have "map_of (composer_view l) cid = Some (r, p)" by auto
    from composer_okD(2) [OF ok this] show ?thesis by (auto intro: id)
  qed
qed

lemma enqueue_simps [simp]:
  "lk_queue (exec (enqueue_job r e) l) = lk_queue l @ [(r, e)]" "lk_objects (exec (enqueue_job r e) l) = lk_objects l"
  "eval (enqueue_job r e) l = ()"
  by (simp_all add: enqueue_job_def)

lemma answer_jobs:
  assumes "first_of_peer (pk_to_hex pk) l = Some r"
  shows "eval (deliver_answer pk f u p cs eoc) l = GN_OK \<and>
    last (lk_queue (exec (deliver_answer pk f u p cs eoc) l)) = (r, EvAddRemote u p cs eoc) \<and>
    lk_objects (exec (deliver_answer pk f u p cs eoc) l) = lk_objects l"
  using assms by (simp add: deliver_answer_def split_beta)

lemma open_session_run:
  "eval (open_session H conn peer c m) l = length (lk_objects l)"
  "session_of (exec (open_session H conn peer c m) l) (length (lk_objects l)) peer"
  by (simp_all add: open_session_def make_session_def publish_session_def session_of_def link_session_def Let_def split_beta)

lemma session_of_objects: "lk_objects b = lk_objects a \<Longrightarrow> session_of b r p = session_of a r p"
  by (simp add: session_of_def link_session_def)

text \<open>The session that an offer of the peer goes to when there is one.\<close>

definition offered_session :: "string \<Rightarrow> IceLink \<Rightarrow> nat option" where
  "offered_session peer l =
     (case composer_of_peer peer l of Some ref \<Rightarrow> Some ref | None \<Rightarrow> single_of_peer peer l)"

lemma offer_found:
  assumes "offered_session (pk_to_hex pk) l = Some r" and "lk_api l" and "lh_notify_connect H = Some g"
  shows "run_state (deliver_offer H pk f u p cs eoc) l = run_state (do {
    enqueue_job r (EvPeerFlags f); enqueue_job r (EvAddRemote u p cs eoc); return GN_OK }) l"
  using assms
  by (cases "composer_of_peer (pk_to_hex pk) l") (simp_all add: offered_session_def deliver_offer_def Let_def split_beta)

lemma offer_opens:
  fixes pk l
  defines "obfuscate \<equiv> cf_mdns_obfuscate_host_candidates (lk_cfg l)"
  assumes "offered_session (pk_to_hex pk) l = None" and "lk_api l" and acc: "accepts H pk (pk_to_hex pk) False conn"
  shows "run_state (deliver_offer H pk f u p cs eoc) l = run_state (do {
    ref \<leftarrow> open_session H conn (pk_to_hex pk) False obfuscate;
    enqueue_job ref (EvPeerFlags f); enqueue_job ref EvGather; enqueue_job ref (EvAddRemote u p cs eoc);
    return GN_OK }) (prepared H (NotifyConnect pk (''ice://'' @ pk_to_hex pk) False GN_OK conn) obfuscate l)"
proof -
  from acc obtain g where g: "lh_notify_connect H = Some g" "g pk (''ice://'' @ pk_to_hex pk) False = (GN_OK, conn)" "conn \<noteq> 0"
    by (rule acceptsD)
  have cfg: "cf_mdns_obfuscate_host_candidates (lk_cfg (exec (resolve_carriers H) (exec (link_emit e) l))) = obfuscate" for e
    by (simp add: resolve_carriers_def link_emit_def obfuscate_def)
  from assms(2) have "composer_of_peer (pk_to_hex pk) l = None" "single_of_peer (pk_to_hex pk) l = None"
    by (simp_all add: offered_session_def split: option.splits)
  then show ?thesis using g assms(3) by (simp add: deliver_offer_def prepared_def split_beta cfg Let_def)
qed

lemma offer_jobs:
  assumes "link_ok l" and "lk_api l" and acc: "accepts H pk (pk_to_hex pk) False conn"
  shows "\<exists>r. eval (deliver_offer H pk f u p cs eoc) l = GN_OK \<and>
    last (lk_queue (exec (deliver_offer H pk f u p cs eoc) l)) = (r, EvAddRemote u p cs eoc) \<and>
    session_of (exec (deliver_offer H pk f u p cs eoc) l) r (pk_to_hex pk)"
proof (cases "offered_session (pk_to_hex pk) l")
  case (Some r)
  then have s: "session_of l r (pk_to_hex pk)"
    using ok_find [OF assms(1)] by (auto simp: offered_session_def split: option.splits)
  from acc obtain g where "lh_notify_connect H = Some g" by (rule acceptsD)
  note run = offer_found [OF Some assms(2) this, of f u p cs eoc]
  show ?thesis using s by (intro exI [of _ r]) (simp add: run split_beta session_of_def link_session_def)
next
  case None
  note run = offer_opens [OF None assms(2) acc, of f u p cs eoc]
  let ?l = "prepared H (NotifyConnect pk (''ice://'' @ pk_to_hex pk) False GN_OK conn)
    (cf_mdns_obfuscate_host_candidates (lk_cfg l)) l"
  note o = open_session_run(2) [of H conn "pk_to_hex pk" False "cf_mdns_obfuscate_host_candidates (lk_cfg l)" ?l]
  show ?thesis
    using o by (intro exI [of _ "length (lk_objects ?l)"])
      (simp add: run split_beta session_of_def link_session_def open_session_run(1))
qed

text \<open>C13: Signalling from end to end: when a session of one link publishes its local view, polling that link yields a blob
  that the other link, fed with it, hands on unchanged. The job that waits there for the session of the sending
  peer merges exactly the credentials and candidates of the view, marked as complete. An offer finds or opens
  that session; an answer finds it.\<close>

theorem signal_reaches_session:
  assumes "signal_view v" and "\<not> lk_shutdown A" and "ss_peer_id (link_session ref A) = pk_to_hex pk_b"
    and "lk_outbound_signals A (pk_to_hex pk_b) = None" and "length (signal_blob v) \<le> cap"
    and "reachable B" and "\<not> lk_shutdown B"
    and "\<not> (cf_lite_mode (lk_cfg B) \<and> lv_flags v AND ICE_SIGNAL_FLAG_LITE \<noteq> 0)"
    and "if lv_controlling v then lk_api B \<and> accepts H pk_a (pk_to_hex pk_a) False conn
         else first_of_peer (pk_to_hex pk_a) B \<noteq> None"
  shows "\<exists>kind blob r.
    eval (poll_local_signal (Some pk_b) True True cap True) (exec (enqueue_local_signal ref v) A) =
      (GN_OK, Some (length blob), Some (ucast kind, blob)) \<and>
    eval (deliver_signal H pk_a kind blob) B = GN_OK \<and>
    last (lk_queue (exec (deliver_signal H pk_a kind blob) B)) =
      (r, EvAddRemote (lv_ufrag v) (lv_pwd v) (map wire_view (lv_candidates v)) True) \<and>
    session_of (exec (deliver_signal H pk_a kind blob) B) r (pk_to_hex pk_a)"
proof -
  note ok = reachable_ok [OF assms(6)]
  have "\<exists>r. eval (deliver_signal H pk_a (signal_kind v) (signal_blob v)) B = GN_OK \<and>
    last (lk_queue (exec (deliver_signal H pk_a (signal_kind v) (signal_blob v)) B)) =
      (r, EvAddRemote (lv_ufrag v) (lv_pwd v) (map wire_view (lv_candidates v)) True) \<and>
    session_of (exec (deliver_signal H pk_a (signal_kind v) (signal_blob v)) B) r (pk_to_hex pk_a)"
  proof (cases "lv_controlling v")
    case True
    then have a: "lk_api B" "accepts H pk_a (pk_to_hex pk_a) False conn" using assms(9) by simp_all
    show ?thesis unfolding deliver_blob [OF assms(1,7,8)] if_P [OF True] by (rule offer_jobs [OF ok a])
  next
    case False
    then obtain r where r: "first_of_peer (pk_to_hex pk_a) B = Some r" using assms(9) by auto
    show ?thesis unfolding deliver_blob [OF assms(1,7,8)] if_not_P [OF False]
    proof (intro exI [of _ r] conjI)
      show "session_of (exec (deliver_answer pk_a (lv_flags v AND ICE_SIGNAL_FLAG_MASK) (lv_ufrag v) (lv_pwd v)
          (map wire_view (lv_candidates v)) True) B) r (pk_to_hex pk_a)"
        unfolding session_of_objects [OF conjunct2 [OF conjunct2 [OF answer_jobs [OF r]]]] by (rule ok_find(1) [OF ok r])
    qed (simp_all only: answer_jobs [OF r])
  qed
  then obtain r where "eval (deliver_signal H pk_a (signal_kind v) (signal_blob v)) B = GN_OK \<and>
    last (lk_queue (exec (deliver_signal H pk_a (signal_kind v) (signal_blob v)) B)) =
      (r, EvAddRemote (lv_ufrag v) (lv_pwd v) (map wire_view (lv_candidates v)) True) \<and>
    session_of (exec (deliver_signal H pk_a (signal_kind v) (signal_blob v)) B) r (pk_to_hex pk_a)" ..
  with poll_enqueued [OF assms(2-5)] show ?thesis by (intro exI) (rule conjI; assumption)
qed


definition sample_view :: LocalView where
  "sample_view = \<lparr>lv_candidates =
      [empty_candidate\<lparr>cand_type := HostMdns, cand_family := IPv4, cand_hostname := ''x.local''\<rparr>,
       empty_candidate\<lparr>cand_type := Srflx, cand_family := IPv6, cand_port := 9\<rparr>],
     lv_ufrag = ''abcd1234'', lv_pwd = ''secret'', lv_flags = ICE_SIGNAL_FLAG_SYMMETRIC, lv_controlling = True\<rparr>"

lemma pk_to_hex_sample: "pk_to_hex sample_key = sample_hex"
  by (simp add: pk_to_hex_def sample_key_def sample_hex_def key_hex_char_def)

lemma sample_link_session: "ss_peer_id (link_session 0 sample_link) = sample_hex"
  using entries_okD [of "map_of (lk_sessions sample_link)"] reachable_ok [OF reachable_sample] sample_link_simps(1,3)
  by (fastforce simp: link_ok_def link_session_def identity_def)

lemma connect_outbound:
  assumes "\<not> lk_shutdown l" and "lk_api l" and "is_ice_uri uri" and "peer_of_uri uri = Some (pk, peer)"
    and "accepts H pk peer True conn"
  shows "lk_outbound_signals (exec (connect H uri) l) = lk_outbound_signals l"
proof -
  have e: "effect (same lk_outbound_signals) (do { resolve_carriers H; ensure_mdns_manager H }) l" for H l
    unfolding resolve_carriers_def ensure_mdns_manager_def with_mdns_def mdns_effect_def link_emit_def enqueue_job_def
    by (intro same.rules) (auto simp: same_def effect_def split: MdnsEffect.splits)
  have p: "lk_outbound_signals (prepared H x True l) = lk_outbound_signals l" for H x l
    using e [of H "exec (link_emit x) l"] by (simp add: effect_def same_def prepared_def link_emit_def split_beta)
  show ?thesis
    by (simp add: run_connect [OF assms] open_session_def make_session_def publish_session_def enqueue_job_def
        link_emit_def Let_def split_beta p)
qed

lemma sample_link_outbound: "lk_outbound_signals sample_link = Map.empty"
proof -
  have "accepts (sample_host 7) sample_key sample_hex True 7" by (simp add: accepts_def sample_host_def)
  note c = connect_outbound [OF bound_link_simps(2,1) sample_uri this]
  have "lk_outbound_signals bound_link = Map.empty"
    by (simp add: bound_link_def link_handle_def set_host_api_def link_apply_config_def resolve_carriers_def
      start_reaper_def link_emit_def sample_host_def apply_config_def new_ice_link_def Let_def)
  then show ?thesis using c by (simp add: sample_link_def link_handle_def returning_fst_def link_emit_def split_beta)
qed

lemma sample_signal:
  "signal_view sample_view" "length (signal_blob sample_view) \<le> 200"
  "accepts (sample_host 9) sample_key (pk_to_hex sample_key) False 9"
proof -
  show "signal_view sample_view"
    by (simp add: signal_view_def sample_view_def signal_candidate_def wf_candidate_def named_type_def named_family_def
      empty_candidate_def kMaxMdnsHostnameLen_def)
  show "accepts (sample_host 9) sample_key (pk_to_hex sample_key) False 9" by (simp add: accepts_def sample_host_def)
  show "length (signal_blob sample_view) \<le> 200" by code_simp
qed


theorem signal_reaches_session_witness:
  "\<exists>kind blob r.
    eval (poll_local_signal (Some sample_key) True True 200 True) (exec (enqueue_local_signal 0 sample_view) sample_link) =
      (GN_OK, Some (length blob), Some (ucast kind, blob)) \<and>
    eval (deliver_signal (sample_host 9) sample_key kind blob) bound_link = GN_OK \<and>
    last (lk_queue (exec (deliver_signal (sample_host 9) sample_key kind blob) bound_link)) =
      (r, EvAddRemote ''abcd1234'' ''secret'' (map wire_view (lv_candidates sample_view)) True) \<and>
    session_of (exec (deliver_signal (sample_host 9) sample_key kind blob) bound_link) r sample_hex"
  using signal_reaches_session [OF sample_signal(1), of sample_link 0 sample_key 200 bound_link "sample_host 9" sample_key 9]
    sample_signal(2,3) sample_link_session sample_link_outbound sample_link_simps(3) reachable_bound bound_link_simps(1,2)
  unfolding pk_to_hex_sample
  by (simp add: sample_view_def ICE_SIGNAL_FLAG_SYMMETRIC_def ICE_SIGNAL_FLAG_LITE_def)

end
