(* ===== verification/Link_Calls.thy ===== *)
theory Link_Calls
  imports Link_Signals
begin

text \<open>
  What single calls of the link do: a failed call changes nothing but the log, the reaper ends exactly
  the idle sessions, and an answer finds the session that a call of \<open>connect\<close> opened.
\<close>

section \<open>Failed calls\<close>

text \<open>The calls of the host that return a result, apart from \<open>send_batch\<close>.\<close>

definition single_call :: "LinkEvent \<Rightarrow> bool" where
  "single_call e =
     (case e of LkListen _ \<Rightarrow> True | LkConnect _ \<Rightarrow> True | LkSend _ _ \<Rightarrow> True | LkDisconnect _ \<Rightarrow> True
      | LkRestart _ \<Rightarrow> True | LkDeliver _ _ _ \<Rightarrow> True | LkPoll _ _ _ _ _ \<Rightarrow> True | LkComposerListen _ \<Rightarrow> True
      | LkComposerConnect _ _ \<Rightarrow> True | LkSubscribeData _ _ _ \<Rightarrow> True | LkUnsubscribeData _ \<Rightarrow> True
      | LkSubscribeAccept _ _ _ \<Rightarrow> True | LkUnsubscribeAccept _ \<Rightarrow> True | _ \<Rightarrow> False)"

lemma log_only: "l\<lparr>lk_log := lk_log l\<rparr> = l" for l :: IceLink
  by simp

lemma connect_error:
  assumes "fst (eval (connect H uri) l) \<noteq> GN_OK"
  shows "\<exists>log. exec (connect H uri) l = l\<lparr>lk_log := log\<rparr>"
proof (cases "lk_shutdown l \<or> \<not> is_ice_uri uri \<or> peer_of_uri uri = None \<or> \<not> lk_api l \<or> lh_notify_connect H = None")
  case True
  then have "exec (connect H uri) l = l" by (elim disjE; cases "peer_of_uri uri"; simp add: connect_def split_beta)
  then show ?thesis using log_only [of l] by metis
next
  case False
  then obtain pk hex f rc conn where k: "peer_of_uri uri = Some (pk, hex)" "lh_notify_connect H = Some f"
    "f pk (''ice://'' @ hex) True = (rc, conn)"
    by (metis not_None_eq surj_pair)
  have g: "\<not> lk_shutdown l" "lk_api l" "is_ice_uri uri" using False by simp_all
  have "fst (eval (connect H uri) l) = GN_OK" if "accepts H pk hex True conn"
    by (simp add: connect_opens(1) [OF g k(1) that])
  then have "\<not> accepts H pk hex True conn" using assms by blast
  then have refused: "(rc \<noteq> GN_OK \<or> conn = 0) = True" using k by (cases "rc = GN_OK") (simp_all add: accepts_def)
  have "exec (connect H uri) l = l\<lparr>lk_log := lk_log l @ [NotifyConnect pk (''ice://'' @ hex) True rc conn]\<rparr>"
    using g k refused by (simp add: connect_def link_emit_def)
  then show ?thesis by blast
qed

lemma send_error: "eval (ice_send H conn bs) l \<noteq> GN_OK \<Longrightarrow> exec (ice_send H conn bs) l = l"
  by (simp add: ice_send_def split_beta split: if_splits option.splits)

lemma restart_error: "eval (restart_session conn) l \<noteq> GN_OK \<Longrightarrow> exec (restart_session conn) l = l"
  by (simp add: restart_session_def split_beta split: if_splits option.splits)

lemma disconnect_returns: "eval (disconnect H conn) l = GN_OK"
  by (simp add: disconnect_def split_beta split: option.splits)

lemma answer_error: "eval (deliver_answer pk f u p cs eoc) l \<noteq> GN_OK \<Longrightarrow> exec (deliver_answer pk f u p cs eoc) l = l"
  by (simp add: deliver_answer_def split_beta split: option.splits)

lemma offer_error:
  assumes "eval (deliver_offer H pk f u p cs eoc) l \<noteq> GN_OK"
  shows "\<exists>log. exec (deliver_offer H pk f u p cs eoc) l = l\<lparr>lk_log := log\<rparr>"
proof (cases "lk_api l \<and> lh_notify_connect H \<noteq> None")
  case False
  then have "exec (deliver_offer H pk f u p cs eoc) l = l" by (cases "lk_api l") (simp_all add: deliver_offer_def Let_def)
  then show ?thesis using log_only [of l] by metis
next
  case True
  then obtain g rc conn where k: "lk_api l" "lh_notify_connect H = Some g" "g pk (''ice://'' @ pk_to_hex pk) False = (rc, conn)"
    by (metis not_None_eq surj_pair)
  have "eval (deliver_offer H pk f u p cs eoc) l = GN_OK" if "offered_session (pk_to_hex pk) l = Some r" for r
    by (simp add: offer_found [OF that k(1,2)] split_beta)
  then have none: "offered_session (pk_to_hex pk) l = None" using assms by (intro not_Some_eq [THEN iffD1] allI notI) blast
  have "eval (deliver_offer H pk f u p cs eoc) l = GN_OK" if "accepts H pk (pk_to_hex pk) False conn"
    by (simp add: offer_opens [OF none k(1) that] split_beta)
  then have "\<not> accepts H pk (pk_to_hex pk) False conn" using assms by blast
  then have refused: "(rc \<noteq> GN_OK \<or> conn = 0) = True" using k by (cases "rc = GN_OK") (simp_all add: accepts_def)
  from none have free: "composer_of_peer (pk_to_hex pk) l = None" "single_of_peer (pk_to_hex pk) l = None"
    by (simp_all add: offered_session_def split: option.splits)
  have "exec (deliver_offer H pk f u p cs eoc) l =
      l\<lparr>lk_log := lk_log l @ [NotifyConnect pk (''ice://'' @ pk_to_hex pk) False rc conn]\<rparr>"
    unfolding deliver_offer_def link_emit_def Let_def
    by (simp only: run_bind run_gets run_modify run_state_return fst_conv snd_conv k free refused if_True option.case prod.case)
  then show ?thesis by blast
qed

lemma signal_error:
  assumes "eval (deliver_signal H pk kind blob) l \<noteq> GN_OK"
  shows "\<exists>log. exec (deliver_signal H pk kind blob) l = l\<lparr>lk_log := log\<rparr>"
proof -
  have id: "\<exists>log. l = l\<lparr>lk_log := log\<rparr>" using log_only [of l] by metis
  show ?thesis
  proof (cases "parsed_value (deserialize_signal blob)")
    case None
    then show ?thesis using id by (simp add: deliver_signal_def)
  next
    case (Some x)
    obtain hdr cs f where x: "x = (hdr, cs, f)" by (cases x)
    let ?bad = "lk_shutdown l \<or> \<not> is_offer kind \<and> \<not> is_answer kind \<or> length blob < 44 \<or>
      cf_lite_mode (lk_cfg l) \<and> f AND ICE_SIGNAL_FLAG_LITE \<noteq> 0"
    let ?u = "array_string (sig_ufrag hdr)" and ?p = "array_string (sig_pwd hdr)"
    have run: "run_state (deliver_signal H pk kind blob) l = run_state (if is_offer kind
        then deliver_offer H pk f ?u ?p cs (is_eoc kind) else deliver_answer pk f ?u ?p cs (is_eoc kind)) l" if "\<not> ?bad"
      using that Some x by (auto simp: deliver_signal_def)
    show ?thesis
    proof (cases ?bad)
      case True
      then have "exec (deliver_signal H pk kind blob) l = l" using Some x by (auto simp: deliver_signal_def)
      then show ?thesis using id by simp
    next
      case False
      show ?thesis
        using assms offer_error [of H pk f ?u ?p cs "is_eoc kind" l] answer_error [of pk f ?u ?p cs "is_eoc kind" l] id
        unfolding run [OF False] by (cases "is_offer kind") simp_all
    qed
  qed
qed

lemma poll_error:
  assumes "fst (eval (poll_local_signal pk k b cap len) l) \<noteq> GN_OK"
  shows "exec (poll_local_signal pk k b cap len) l = l"
proof (cases "lk_shutdown l \<or> pk = None \<or> \<not> k \<or> \<not> len \<or> 0 < cap \<and> \<not> b")
  case True
  then show ?thesis
    by (cases "lk_shutdown l"; cases pk; cases "\<not> k \<or> \<not> len"; cases "0 < cap \<and> \<not> b")
      (simp_all add: poll_local_signal_def)
next
  case False
  then obtain key where g: "pk = Some key" "(\<not> k \<or> \<not> len) = False" "(0 < cap \<and> \<not> b) = False" "lk_shutdown l = False"
    by (cases pk) auto
  note run = poll_local_signal_def run_bind run_gets run_modify run_state_return fst_conv snd_conv if_False if_True option.case list.case
  show ?thesis
  proof (cases "lk_outbound_signals l (pk_to_hex key)")
    case None
    show ?thesis by (simp only: run g None)
  next
    case (Some q)
    show ?thesis
    proof (cases q)
      case Nil
      show ?thesis by (simp only: run g Some Nil)
    next
      case (Cons e rest)
      show ?thesis
      proof (cases "cap < length (os_blob e)")
        case True
        then have "(cap < length (os_blob e)) = True" by simp
        then show ?thesis by (simp only: run g Some Cons)
      next
        case False
        then have "(cap < length (os_blob e)) = False" by simp
        with assms show ?thesis by (simp only: run g Some Cons) simp
      qed
    qed
  qed
qed

lemma composer_error:
  "fst (eval (composer_connect H uri out) l) \<noteq> GN_OK \<Longrightarrow> exec (composer_connect H uri out) l = l"
  "eval (composer_subscribe_data conn cb user) l \<noteq> GN_OK \<Longrightarrow> exec (composer_subscribe_data conn cb user) l = l"
  "fst (eval (composer_subscribe_accept cb user out) l) \<noteq> GN_OK \<Longrightarrow> exec (composer_subscribe_accept cb user out) l = l"
  "eval (composer_unsubscribe_data conn) l = GN_OK" "eval (composer_unsubscribe_accept token) l = GN_OK"
proof -
  show "exec (composer_connect H uri out) l = l" if "fst (eval (composer_connect H uri out) l) \<noteq> GN_OK"
  proof (cases "out \<and> \<not> lk_shutdown l \<and> is_ice_uri uri \<and> peer_of_uri uri \<noteq> None")
    case True
    then obtain pk hex where u: "peer_of_uri uri = Some (pk, hex)" by auto
    show ?thesis
      using that True u
      by (cases "lk_composer_peer_to_id (exec next_composer_cid l) hex") (simp_all add: composer_connect_def split_beta)
  next
    case False
    then show ?thesis by (cases out; cases "lk_shutdown l"; cases "is_ice_uri uri"; cases "peer_of_uri uri") (simp_all add: composer_connect_def)
  qed
  show "exec (composer_subscribe_data conn cb user) l = l" if "eval (composer_subscribe_data conn cb user) l \<noteq> GN_OK"
    using that by (cases "map_of (lk_composer_sessions l) conn"; cases "is_composer_id conn")
      (simp_all add: composer_subscribe_data_def)
  show "exec (composer_subscribe_accept cb user out) l = l" if "fst (eval (composer_subscribe_accept cb user out) l) \<noteq> GN_OK"
    using that by (cases cb; cases out) (simp_all add: composer_subscribe_accept_def)
  show "eval (composer_unsubscribe_data conn) l = GN_OK" "eval (composer_unsubscribe_accept token) l = GN_OK"
    by (cases "map_of (lk_composer_sessions l) conn") (simp_all add: composer_unsubscribe_data_def composer_unsubscribe_accept_def)
qed

text \<open>The result of a call that changes nothing but the log when it fails is the last effect of the event.\<close>

lemma returning_error:
  assumes "eval m l \<noteq> GN_OK \<Longrightarrow> \<exists>log. exec m l = l\<lparr>lk_log := log\<rparr>"
    and "last (lk_log (exec (returning m) l)) = Return rc" and "rc \<noteq> GN_OK"
  shows "exec (returning m) l = l\<lparr>lk_log := lk_log (exec (returning m) l)\<rparr>"
  using assms by (auto simp: returning_def link_emit_def split_beta)

lemma returning_fst_error:
  assumes "fst (eval m l) \<noteq> GN_OK \<Longrightarrow> \<exists>log. exec m l = l\<lparr>lk_log := log\<rparr>"
    and "last (lk_log (exec (returning_fst m) l)) = Return rc" and "rc \<noteq> GN_OK"
  shows "exec (returning_fst m) l = l\<lparr>lk_log := lk_log (exec (returning_fst m) l)\<rparr>"
  using assms by (auto simp: returning_fst_def link_emit_def split_beta)

lemma unchanged: "exec m l = l \<Longrightarrow> \<exists>log. exec m l = l\<lparr>lk_log := log\<rparr>" for m :: "'x link"
  by (rule exI [of _ "lk_log l"]) simp

text \<open>C20: A call that fails leaves the link as it was. When \<open>listen\<close>, \<open>connect\<close>, \<open>send\<close>, \<open>restart_session\<close>,
  \<open>deliver_signal\<close>, \<open>poll_local_signal\<close> or a call of the composer returns an error, no table, session, queue,
  counter, carrier, identifier or pending signal has changed: only the log of effects has. So a poll with a
  buffer that is too small loses nothing, and a refused connection leaves no trace.\<close>

theorem failed_call_changes_nothing:
  assumes "single_call e" and "last (lk_log (exec (link_handle H e) l)) = Return rc" and "rc \<noteq> GN_OK"
  shows "exec (link_handle H e) l = l\<lparr>lk_log := lk_log (exec (link_handle H e) l)\<rparr>"
proof -
  note single = returning_error [OF _ _ assms(3)] and double = returning_fst_error [OF _ _ assms(3)]
  show ?thesis
    using assms(1,2)
  proof (cases e)
    case (LkConnect a)
    show ?thesis using assms(2) unfolding LkConnect link_handle_def LinkEvent.case by (rule double [rotated]) (rule connect_error)
  next
    case (LkSend a b)
    show ?thesis using assms(2) unfolding LkSend link_handle_def LinkEvent.case by (rule single [rotated]) (rule unchanged [OF send_error])
  next
    case (LkDisconnect a)
    show ?thesis using assms(2) unfolding LkDisconnect link_handle_def LinkEvent.case by (rule single [rotated]) (rule notE [OF _ disconnect_returns])
  next
    case (LkRestart a)
    show ?thesis using assms(2) unfolding LkRestart link_handle_def LinkEvent.case by (rule single [rotated]) (rule unchanged [OF restart_error])
  next
    case (LkDeliver a b c)
    show ?thesis using assms(2) unfolding LkDeliver link_handle_def LinkEvent.case by (rule single [rotated]) (rule signal_error)
  next
    case (LkPoll a b c d e)
    show ?thesis using assms(2) unfolding LkPoll link_handle_def LinkEvent.case by (rule double [rotated]) (rule unchanged [OF poll_error])
  next
    case (LkComposerConnect a b)
    show ?thesis using assms(2) unfolding LkComposerConnect link_handle_def LinkEvent.case by (rule double [rotated]) (rule unchanged [OF composer_error(1)])
  next
    case (LkSubscribeData a b c)
    show ?thesis using assms(2) unfolding LkSubscribeData link_handle_def LinkEvent.case by (rule single [rotated]) (rule unchanged [OF composer_error(2)])
  next
    case (LkSubscribeAccept a b c)
    show ?thesis using assms(2) unfolding LkSubscribeAccept link_handle_def LinkEvent.case by (rule double [rotated]) (rule unchanged [OF composer_error(3)])
  next
    case (LkUnsubscribeData a)
    show ?thesis using assms(2) unfolding LkUnsubscribeData link_handle_def LinkEvent.case by (rule single [rotated]) (rule notE [OF _ composer_error(4)])
  next
    case (LkUnsubscribeAccept a)
    show ?thesis using assms(2) unfolding LkUnsubscribeAccept link_handle_def LinkEvent.case by (rule single [rotated]) (rule notE [OF _ composer_error(5)])
  qed (simp_all add: single_call_def link_handle_def link_emit_def)
qed

lemma send_unknown:
  assumes "\<not> lk_shutdown l" and "lk_sessions l = []" and "\<not> is_composer_id conn"
  shows "\<exists>rc. last (lk_log (exec (link_handle H (LkSend conn bs)) l)) = Return rc \<and> rc \<noteq> GN_OK"
proof -
  have "any_session conn l = None" using assms by (simp add: any_session_def find_session_def)
  then have "eval (ice_send H conn bs) l \<noteq> GN_OK"
    using assms(1) by (cases "unat (lk_mtu l) < length bs") (simp_all add: ice_send_def)
  then show ?thesis by (simp add: link_handle_def returning_def link_emit_def split_beta)
qed

theorem failed_call_changes_nothing_witness:
  "exec (link_handle (sample_host 9) (LkSend 8 [1, 2])) bound_link =
   bound_link\<lparr>lk_log := lk_log (exec (link_handle (sample_host 9) (LkSend 8 [1, 2])) bound_link)\<rparr>"
proof -
  obtain rc where "last (lk_log (exec (link_handle (sample_host 9) (LkSend 8 [1, 2])) bound_link)) = Return rc" "rc \<noteq> GN_OK"
    using send_unknown [OF bound_link_simps(2,3) small_not_composer(2)] by force
  then show ?thesis by (intro failed_call_changes_nothing) (simp_all add: single_call_def)
qed

section \<open>The reaper\<close>

lemma disconnect_one:
  assumes "\<not> is_composer_id conn"
  shows "map_of (lk_sessions (exec (disconnect H conn) l)) = (map_of (lk_sessions l))(conn := None)"
    and "disconnected (lk_log (exec (disconnect H conn) l)) = disconnected (lk_log l) @
      (if lk_api l \<and> lh_notify_disconnect H \<and> map_of (lk_sessions l) conn \<noteq> None then [conn] else [])"
    and "lk_api (exec (disconnect H conn) l) = lk_api l"
    and "lk_composer_sessions (exec (disconnect H conn) l) = lk_composer_sessions l"
proof -
  note run = disconnect_def erase_session_def erase_peer_id_def close_session_def enqueue_job_def notify_disconnect_def link_emit_def
  have "map_of (lk_sessions (exec (disconnect H conn) l)) = (map_of (lk_sessions l))(conn := None) \<and>
    disconnected (lk_log (exec (disconnect H conn) l)) = disconnected (lk_log l) @
      (if lk_api l \<and> lh_notify_disconnect H \<and> map_of (lk_sessions l) conn \<noteq> None then [conn] else []) \<and>
    lk_api (exec (disconnect H conn) l) = lk_api l \<and>
    lk_composer_sessions (exec (disconnect H conn) l) = lk_composer_sessions l"
  proof (cases "map_of (lk_sessions l) conn")
    case None
    then have "exec (disconnect H conn) l = l" using assms by (simp add: disconnect_def)
    with None show ?thesis by (simp add: fun_upd_idem)
  next
    case (Some e)
    then show ?thesis using assms by (simp add: run delete_conv')
  qed
  then show "map_of (lk_sessions (exec (disconnect H conn) l)) = (map_of (lk_sessions l))(conn := None)"
    "disconnected (lk_log (exec (disconnect H conn) l)) = disconnected (lk_log l) @
      (if lk_api l \<and> lh_notify_disconnect H \<and> map_of (lk_sessions l) conn \<noteq> None then [conn] else [])"
    "lk_api (exec (disconnect H conn) l) = lk_api l"
    "lk_composer_sessions (exec (disconnect H conn) l) = lk_composer_sessions l"
    by blast+
qed

lemma disconnect_all:
  assumes "\<forall>i \<in> set ids. \<not> is_composer_id i"
  shows "map_of (lk_sessions (exec (for_each (\<lambda>conn. do { disconnect H conn; return () }) ids) l)) conn =
    (if conn \<in> set ids then None else map_of (lk_sessions l) conn)"
    and "lk_composer_sessions (exec (for_each (\<lambda>conn. do { disconnect H conn; return () }) ids) l) = lk_composer_sessions l"
  using assms by (induction ids arbitrary: l) (simp_all add: split_beta disconnect_one(1,4))

lemma disconnect_all_told:
  assumes "\<forall>i \<in> set ids. \<not> is_composer_id i \<and> map_of (lk_sessions l) i \<noteq> None" and "distinct ids" and "lk_api l" and "lh_notify_disconnect H"
  shows "disconnected (lk_log (exec (for_each (\<lambda>conn. do { disconnect H conn; return () }) ids) l)) = disconnected (lk_log l) @ ids"
  using assms
proof (induction ids arbitrary: l)
  case (Cons a ids)
  have "\<forall>i \<in> set ids. \<not> is_composer_id i \<and> map_of (lk_sessions (exec (disconnect H a) l)) i \<noteq> None"
    using Cons.prems by (auto simp: disconnect_one(1))
  then show ?case using Cons.prems Cons.IH [of "exec (disconnect H a) l"] by (simp add: split_beta disconnect_one)
qed simp

text \<open>C19: The reaper, on its timer: of the sessions of the kernel, exactly those that are in any state but connected,
  gathering and checking included, and have had no activity for more than sixty seconds leave the table. Every other
  session of the kernel keeps its entry, the composer's sessions are not looked at, and the kernel is told of the
  end of each session that left, once, in the order of the sweep. The timer is armed again.\<close>

theorem reaper_drops_idle:
  assumes "reachable l" and "\<not> lk_shutdown l" and "lk_api l" and "lh_notify_disconnect H"
    and order: "distinct (lh_order H (map fst (lk_sessions l)))"
      "set (lh_order H (map fst (lk_sessions l))) = set (map fst (lk_sessions l))"
  shows "map_of (lk_sessions (exec (on_reaper H) l)) conn =
      (case map_of (lk_sessions l) conn of None \<Rightarrow> None
       | Some e \<Rightarrow> if idle_session (lh_now H) (link_session (pe_session e) l) then None else Some e) \<and>
    lk_composer_sessions (exec (on_reaper H) l) = lk_composer_sessions l \<and>
    disconnected (lk_log (exec (on_reaper H) l)) = disconnected (lk_log l) @ to_drop H l \<and>
    last (lk_log (exec (on_reaper H) l)) = ArmReaper kReaperIntervalSeconds"
proof -
  have ok: "entries_ok (map_of (lk_sessions l)) (map identity (lk_objects l)) (lk_published_ids l)"
    using reachable_ok [OF assms(1)] assms(2) by (simp add: link_ok_def)
  have "i \<in> set (lh_order H (map fst (lk_sessions l))) \<longleftrightarrow> (\<exists>e. map_of (lk_sessions l) i = Some e)" for i
    unfolding order(2) by (simp add: dom_map_of_conv_image_fst [symmetric] dom_def)
  then have drop: "i \<in> set (to_drop H l) \<longleftrightarrow>
      (\<exists>e. map_of (lk_sessions l) i = Some e \<and> idle_session (lh_now H) (link_session (pe_session e) l))" for i
    by (auto simp: to_drop_def find_session_def)
  then have valid: "\<forall>i \<in> set (to_drop H l). \<not> is_composer_id i \<and> map_of (lk_sessions l) i \<noteq> None"
    using entries_okD [OF ok] by blast
  have "distinct (to_drop H l)" using order(1) by (simp add: to_drop_def)
  note told = disconnect_all_told [OF valid this assms(3,4)]
  have gone: "map_of (lk_sessions (exec (reap_sessions H) l)) conn = (if conn \<in> set (to_drop H l) then None else map_of (lk_sessions l) conn)"
    using disconnect_all(1) [of "to_drop H l" H l conn] valid by (simp add: reap_sessions_def)
  have composers: "lk_composer_sessions (exec (reap_sessions H) l) = lk_composer_sessions l"
    using disconnect_all(2) [of "to_drop H l" H l] valid by (simp add: reap_sessions_def)
  show ?thesis
    using gone composers told drop [of conn] assms(2)
    by (auto simp: on_reaper_def reap_sessions_def start_reaper_def link_emit_def split_beta disconnected_other split: option.splits)
qed

lemma connect_session:
  assumes "\<not> lk_shutdown l" and "lk_api l" and "is_ice_uri uri" and "peer_of_uri uri = Some (pk, peer)"
    and "accepts H pk peer True conn"
  shows "ss_last_activity (link_session (length (lk_objects l)) (exec (connect H uri) l)) = lh_now H"
    and "ss_state (link_session (length (lk_objects l)) (exec (connect H uri) l)) = New"
  by (simp_all add: run_connect [OF assms] prepared_tables(4) nth_append open_session_def make_session_def publish_session_def
      enqueue_job_def link_emit_def link_session_def Let_def split_beta new_session_def
      generate_ufrag_def generate_pwd_def random_string_def blank_session_def)

lemma sample_clock: "ss_last_activity (link_session 0 sample_link) = 0" "ss_state (link_session 0 sample_link) = New"
proof -
  have "accepts (sample_host 7) sample_key sample_hex True 7" by (simp add: accepts_def sample_host_def)
  note c = connect_session [OF bound_link_simps(2,1) sample_uri this]
  show "ss_last_activity (link_session 0 sample_link) = 0" "ss_state (link_session 0 sample_link) = New"
    using c by (simp_all add: sample_link_def link_handle_def returning_fst_def link_emit_def link_session_def bound_link_simps(7)
        sample_host_def split_beta)
qed

theorem reaper_drops_idle_witness:
  "map_of (lk_sessions (exec (on_reaper ((sample_host 9)\<lparr>lh_now := 60000001\<rparr>)) sample_link)) 7 = None \<and>
   map_of (lk_sessions (exec (on_reaper ((sample_host 9)\<lparr>lh_now := 60000000\<rparr>)) sample_link)) 7 \<noteq> None"
proof -
  have o: "distinct (lh_order ((sample_host 9)\<lparr>lh_now := n\<rparr>) (map fst (lk_sessions sample_link)))"
    "set (lh_order ((sample_host 9)\<lparr>lh_now := n\<rparr>) (map fst (lk_sessions sample_link))) = set (map fst (lk_sessions sample_link))"
    "lh_notify_disconnect ((sample_host 9)\<lparr>lh_now := n\<rparr>)" for n
    using reachable_ok [OF reachable_sample] sample_link_simps(3) by (simp_all add: sample_host_def link_ok_def)
  note r = reaper_drops_idle [OF reachable_sample _ sample_link_simps(4) o(3) o(1,2), of _ 7]
  show ?thesis
    using r sample_link_simps(1,3) sample_clock by (simp add: idle_session_def kIdleSessionLimitSeconds_def)
qed

section \<open>Answers\<close>

text \<open>C37: An answer finds the session that \<open>connect\<close> opened exactly when the key in the URI was written in lower case. The table
  of peers keeps the digits as they were typed; \<open>deliver_signal\<close> looks the peer up under the lower-case
  digits of its key. So \<open>connect\<close> accepts an upper-case digit and the answer of that peer is then refused.\<close>

theorem answer_finds_connect:
  assumes "\<not> lk_shutdown l" and "lk_api l" and "is_ice_uri uri" and "peer_of_uri uri = Some (pk, peer)"
    and "accepts H pk peer True conn" and "lk_peer_to_ids l (to_lower peer) = None"
    and "lk_composer_peer_to_id l (to_lower peer) = None"
    and "signal_view v" and "\<not> lv_controlling v"
    and "\<not> (cf_lite_mode (lk_cfg (exec (connect H uri) l)) \<and> lv_flags v AND ICE_SIGNAL_FLAG_LITE \<noteq> 0)"
  shows "eval (deliver_signal H' pk (signal_kind v) (signal_blob v)) (exec (connect H uri) l) =
    (if peer = to_lower peer then GN_OK else GN_ERR_NOT_FOUND)"
proof -
  let ?l = "exec (connect H uri) l"
  note c = connect_opens [OF assms(1-5)]
  have key: "pk_to_hex pk = to_lower peer" using peer_of_uri_lower [OF assms(4)] by simp
  have run: "eval (deliver_signal H' pk (signal_kind v) (signal_blob v)) ?l =
      eval (deliver_answer pk (lv_flags v AND ICE_SIGNAL_FLAG_MASK) (lv_ufrag v) (lv_pwd v)
        (map wire_view (lv_candidates v)) True) ?l"
    using deliver_blob [OF assms(8) _ assms(10), of H' pk] c(6) assms(1,9) by simp
  have lower: "lk_peer_to_ids ?l (to_lower peer) = (if peer = to_lower peer then Some [conn] else None)"
    using assms(6) by (cases "peer = to_lower peer") (metis c(3) fun_upd_apply ids_of_def option.simps(4) append_Nil, simp add: c(3))
  have none: "composer_of_peer (to_lower peer) ?l = None" using assms(7) by (simp add: composer_of_peer_def c(5))
  show ?thesis
    unfolding run
    using lower none by (simp add: deliver_answer_def key first_of_peer_def find_session_def c(2) update_conv' split_beta)
qed

definition upper_hex :: string where "upper_hex = concat (replicate 32 ''AB'')"

lemma upper_uri:
  "is_ice_uri (''ice://'' @ upper_hex)" "peer_of_uri (''ice://'' @ upper_hex) = Some (sample_key, upper_hex)"
  "to_lower upper_hex = sample_hex" "upper_hex \<noteq> sample_hex" "to_lower sample_hex = sample_hex"
proof -
  have pair: "to_lower ''AB'' = ''ab''" "to_lower ''ab'' = ''ab''" by code_simp+
  have "to_lower (concat (replicate n s)) = concat (replicate n (to_lower s))" for n s
    by (simp add: to_lower_def map_concat)
  then show "to_lower upper_hex = sample_hex" "to_lower sample_hex = sample_hex"
    by (simp_all only: upper_hex_def sample_hex_def pair)
  show "upper_hex \<noteq> sample_hex" by (simp add: upper_hex_def sample_hex_def eval_nat_numeral)
  have digits: "key_digit (CHR ''A'') = Some 10" "key_digit (CHR ''B'') = Some 11" by code_simp+
  have "hex_octets (concat (replicate n ''AB'')) = Some (replicate n 0xAB)" for n
    by (induction n) (simp_all add: digits)
  then have "hex_octets upper_hex = Some sample_key" by (simp only: upper_hex_def sample_key_def)
  moreover have "length upper_hex = 64" by (simp add: upper_hex_def length_concat sum_list_replicate)
  moreover have "last upper_hex \<noteq> CHR ''/''" by (simp add: upper_hex_def eval_nat_numeral)
  ultimately show "is_ice_uri (''ice://'' @ upper_hex)" "peer_of_uri (''ice://'' @ upper_hex) = Some (sample_key, upper_hex)"
    by (simp_all add: is_ice_uri_def peer_of_uri_def parse_peer_pk_hex_def GN_PUBLIC_KEY_BYTES_def Let_def)
qed

theorem answer_finds_connect_witness:
  "eval (deliver_signal (sample_host 9) sample_key ICE_SIGNAL_ANSWER_EOC (signal_blob (sample_view\<lparr>lv_controlling := False\<rparr>)))
     (exec (connect (sample_host 7) (''ice://'' @ upper_hex)) bound_link) = GN_ERR_NOT_FOUND \<and>
   eval (deliver_signal (sample_host 9) sample_key ICE_SIGNAL_ANSWER_EOC (signal_blob (sample_view\<lparr>lv_controlling := False\<rparr>)))
     (exec (connect (sample_host 7) (''ice://'' @ sample_hex)) bound_link) = GN_OK"
proof -
  let ?v = "sample_view\<lparr>lv_controlling := False\<rparr>"
  have v: "signal_view ?v" "\<not> lv_controlling ?v" "lv_flags ?v AND ICE_SIGNAL_FLAG_LITE = 0" "signal_kind ?v = ICE_SIGNAL_ANSWER_EOC"
    using sample_signal(1)
    by (simp_all add: signal_view_def signal_kind_def) (simp add: sample_view_def ICE_SIGNAL_FLAG_SYMMETRIC_def ICE_SIGNAL_FLAG_LITE_def)
  have acc: "accepts (sample_host 7) sample_key peer True 7" for peer by (simp add: accepts_def sample_host_def)
  have b: "lk_peer_to_ids bound_link p = None" "lk_composer_peer_to_id bound_link p = None" for p
    by (simp_all add: bound_link_def link_handle_def set_host_api_def link_apply_config_def resolve_carriers_def
      start_reaper_def link_emit_def sample_host_def apply_config_def new_ice_link_def Let_def)
  note f = answer_finds_connect [OF bound_link_simps(2,1) _ _ acc b v(1,2), where H' = "sample_host 9"]
  have lite: "\<not> (x \<and> lv_flags ?v AND ICE_SIGNAL_FLAG_LITE \<noteq> 0)" for x using v(3) by simp
  show ?thesis
    using f [OF upper_uri(1,2) lite] f [OF sample_uri lite] unfolding v(4) upper_uri(3,5) by (simp add: upper_uri(4))
qed

section \<open>Configuration\<close>

text \<open>What the topology set is gone after the next reload of the configuration.\<close>

lemma reload_forgets_topology:
  assumes "lk_api l" and "lh_config H = Some cfg"
  shows "lk_cfg (exec (do { link_handle H (LkTopology tcp overhead ordered); link_handle H LkConfigReload }) l) =
    lk_cfg (exec (link_handle H LkConfigReload) l)"
  using assms by (simp add: link_handle_def set_topology_def link_apply_config_def apply_config_def Let_def split_beta
      read_path_mtu_def)

end
