(* ===== verification/Plugin_Entry.thy ===== *)
theory Plugin_Entry
  imports Link_Calls
begin

text \<open>
  The entry surface of the plugin (\<open>plugin_entry.cpp\<close>): the tables of functions that the kernel and
  other plugins call, and the life cycle of the plugin. A table is a datatype with one constructor
  per slot and a function that runs a slot; the handle of the plugin is a flag that says whether the
  caller passed it, and every pointer of a caller is a flag or an option. Registered extensions are
  balanced by the unregistration, and the composer's tables of the link stay empty behind this surface.
\<close>

section \<open>State\<close>

text \<open>
  What the plugin uses of the host and of its headers: allocation, the four registration functions
  (None and False for a slot that is missing), and the constants of the trust classes and of the
  security flags.
\<close>

record plugin_host =
  ph_link :: link_host
  ph_alloc :: bool
  ph_register_vtable :: "(gn_result \<times> u64) option"
  ph_register_extension :: "(string \<Rightarrow> gn_result) option"
  ph_unregister_extension :: bool
  ph_unregister_vtable :: bool
  ph_trust_untrusted :: nat
  ph_trust_peer :: nat
  ph_e2e_encryption :: u32

definition kIceScheme :: string where "kIceScheme = ''ice''"
definition kIceLinkExtensionName :: string where "kIceLinkExtensionName = ''gn.link.ice''"
definition kIceSignalExtensionName :: string where "kIceSignalExtensionName = ''gn.link.ice.signal''"
definition kIcePathMtuExtensionName :: string where "kIcePathMtuExtensionName = ''gn.link.ice.path_mtu''"
definition kIceMetricsExtensionName :: string where "kIceMetricsExtensionName = ''gn.link.ice.metrics''"

definition kProvidesList :: "string list" where
  "kProvidesList = [kIceLinkExtensionName, kIceSignalExtensionName, kIcePathMtuExtensionName, kIceMetricsExtensionName]"

datatype PluginEffect =
    RegisterVtable string
  | RegisterExtension string
  | UnregisterExtension string
  | UnregisterVtable u64

record IcePlugin =
  ip_link :: IceLink
  ip_link_id :: u64
  ip_max_payload :: u32
  ip_link_extension_registered :: bool
  ip_signal_extension_registered :: bool
  ip_path_mtu_extension_registered :: bool
  ip_metrics_extension_registered :: bool
  ip_log :: "PluginEffect list"

type_synonym 'a plugin = "(IcePlugin, 'a) state"

definition plugin_emit :: "PluginEffect \<Rightarrow> unit plugin" where
  "plugin_emit e = modify (\<lambda>p. p\<lparr>ip_log := ip_log p @ [e]\<rparr>)"

text \<open>A call of a method of \<open>p->link\<close>.\<close>

definition on_link :: "'a link \<Rightarrow> 'a plugin" where
  "on_link m = do {
     l \<leftarrow> gets ip_link;
     modify (\<lambda>p. p\<lparr>ip_link := exec m l\<rparr>);
     return (eval m l)
   }"

section \<open>Function tables\<close>

text \<open>A pointer with a size: a null pointer with the size that came with it, or the elements.\<close>

datatype 'a c_array = NullArray nat | CArray "'a list"

fun c_span :: "'a c_array \<Rightarrow> 'a list option" where
  "c_span (NullArray n) = (if n > 0 then None else Some [])"
| "c_span (CArray xs) = Some xs"

text \<open>
  What a slot returns: the result and, when it was written, the out parameter.
\<close>

datatype PluginReply =
    Result gn_result
  | ConnReply gn_result "conn_id option"
  | StatsReply LinkStats
  | CapsReply u32
  | TokenReply gn_result "u64 option"
  | PortReply gn_result "u16 option"
  | PollReply gn_result "nat option" "(u32 \<times> bytes) option"
  | MtuReply u32
  | NominationReply byte byte byte byte byte u64
  | CountsReply CandidateCounts CandidateCounts

text \<open>The link table that the kernel calls, without the slots that return constants.\<close>

datatype LinkSlot =
    SlotListen "string option"
  | SlotConnect "string option"
  | SlotSend conn_id "byte c_array"
  | SlotSendBatch conn_id "bytes c_array"
  | SlotDisconnect conn_id

definition link_vtable_call :: "plugin_host \<Rightarrow> bool \<Rightarrow> LinkSlot \<Rightarrow> PluginReply plugin" where
  "link_vtable_call H self slot =
     (if \<not> self then return (Result GN_ERR_NULL_ARG)
      else case slot of
        SlotListen uri \<Rightarrow>
          (case uri of
             None \<Rightarrow> return (Result GN_ERR_NULL_ARG)
           | Some u \<Rightarrow> return (Result (listen u)))
      | SlotConnect uri \<Rightarrow>
          (case uri of
             None \<Rightarrow> return (Result GN_ERR_NULL_ARG)
           | Some u \<Rightarrow> do { r \<leftarrow> on_link (connect (ph_link H) u); return (Result (fst r)) })
      | SlotSend conn data \<Rightarrow>
          (case c_span data of
             None \<Rightarrow> return (Result GN_ERR_NULL_ARG)
           | Some bs \<Rightarrow> do { rc \<leftarrow> on_link (ice_send (ph_link H) conn bs); return (Result rc) })
      | SlotSendBatch conn batch \<Rightarrow>
          (case c_span batch of
             None \<Rightarrow> return (Result GN_ERR_NULL_ARG)
           | Some frames \<Rightarrow> do { rc \<leftarrow> on_link (send_batch (ph_link H) conn frames); return (Result rc) })
      | SlotDisconnect conn \<Rightarrow> do { rc \<leftarrow> on_link (disconnect (ph_link H) conn); return (Result rc) })"

text \<open>The extension \<open>gn.link.ice\<close>.\<close>

datatype LinkExtSlot =
    ExtGetStats bool
  | ExtGetCaps bool
  | ExtSend conn_id "byte c_array"
  | ExtSendBatch conn_id "bytes c_array"
  | ExtClose conn_id
  | ExtListen "string option"
  | ExtConnect "string option" bool
  | ExtSubscribeData conn_id "nat option" nat
  | ExtUnsubscribeData conn_id
  | ExtSubscribeAccept "nat option" nat bool
  | ExtUnsubscribeAccept u64
  | ExtListenPort bool

definition link_extension_call :: "plugin_host \<Rightarrow> bool \<Rightarrow> LinkExtSlot \<Rightarrow> PluginReply plugin" where
  "link_extension_call H ctx slot =
     (if \<not> ctx then return (Result GN_ERR_NULL_ARG)
      else case slot of
        ExtGetStats out \<Rightarrow>
          if \<not> out then return (Result GN_ERR_NULL_ARG) else gets (\<lambda>p. StatsReply (link_stats (ip_link p)))
      | ExtGetCaps out \<Rightarrow>
          if \<not> out then return (Result GN_ERR_NULL_ARG) else gets (\<lambda>p. CapsReply (ip_max_payload p))
      | ExtSend conn data \<Rightarrow>
          (case c_span data of
             None \<Rightarrow> return (Result GN_ERR_NULL_ARG)
           | Some bs \<Rightarrow> do { rc \<leftarrow> on_link (ice_send (ph_link H) conn bs); return (Result rc) })
      | ExtSendBatch conn batch \<Rightarrow> link_vtable_call H ctx (SlotSendBatch conn batch)
      | ExtClose conn \<Rightarrow> do { rc \<leftarrow> on_link (disconnect (ph_link H) conn); return (Result rc) }
      | ExtListen uri \<Rightarrow>
          (case uri of
             None \<Rightarrow> return (Result GN_ERR_NULL_ARG)
           | Some u \<Rightarrow> gets (\<lambda>p. Result (composer_listen u (ip_link p))))
      | ExtConnect uri out_conn \<Rightarrow>
          (case uri of
             None \<Rightarrow> return (Result GN_ERR_NULL_ARG)
           | Some u \<Rightarrow>
               if \<not> out_conn then return (Result GN_ERR_NULL_ARG)
               else do { r \<leftarrow> on_link (connect (ph_link H) u); return (ConnReply (fst r) (snd r)) })
      | ExtSubscribeData conn cb user \<Rightarrow>
          do { rc \<leftarrow> on_link (composer_subscribe_data conn cb user); return (Result rc) }
      | ExtUnsubscribeData conn \<Rightarrow> do { rc \<leftarrow> on_link (composer_unsubscribe_data conn); return (Result rc) }
      | ExtSubscribeAccept cb user out_token \<Rightarrow>
          do { r \<leftarrow> on_link (composer_subscribe_accept cb user out_token); return (TokenReply (fst r) (snd r)) }
      | ExtUnsubscribeAccept token \<Rightarrow> do { rc \<leftarrow> on_link (composer_unsubscribe_accept token); return (Result rc) }
      | ExtListenPort out_port \<Rightarrow>
          if \<not> out_port then return (Result GN_ERR_NULL_ARG)
          else gets (\<lambda>p. let r = composer_listen_port (ph_link H) out_port (ip_link p) in PortReply (fst r) (snd r)))"

text \<open>The extension \<open>gn.link.ice.signal\<close>; the key is None for a null pointer.\<close>

datatype SignalSlot =
    SignalOffer "bytes option" "byte c_array"
  | SignalAnswer "bytes option" "byte c_array"
  | SignalOfferEoc "bytes option" "byte c_array"
  | SignalAnswerEoc "bytes option" "byte c_array"
  | SignalPollLocal "bytes option" bool bool nat bool

definition signal_deliver :: "plugin_host \<Rightarrow> byte \<Rightarrow> bytes option \<Rightarrow> byte c_array \<Rightarrow> PluginReply plugin" where
  "signal_deliver H kind peer_pk blob =
     (case peer_pk of
        None \<Rightarrow> return (Result GN_ERR_NULL_ARG)
      | Some pk \<Rightarrow>
          (case c_span blob of
             None \<Rightarrow> return (Result GN_ERR_NULL_ARG)
           | Some bs \<Rightarrow> do { rc \<leftarrow> on_link (deliver_signal (ph_link H) pk kind bs); return (Result rc) }))"

definition signal_extension_call :: "plugin_host \<Rightarrow> bool \<Rightarrow> SignalSlot \<Rightarrow> PluginReply plugin" where
  "signal_extension_call H ctx slot =
     (if \<not> ctx then return (Result GN_ERR_NULL_ARG)
      else case slot of
        SignalOffer pk blob \<Rightarrow> signal_deliver H ICE_SIGNAL_OFFER pk blob
      | SignalAnswer pk blob \<Rightarrow> signal_deliver H ICE_SIGNAL_ANSWER pk blob
      | SignalOfferEoc pk blob \<Rightarrow> signal_deliver H ICE_SIGNAL_OFFER_EOC pk blob
      | SignalAnswerEoc pk blob \<Rightarrow> signal_deliver H ICE_SIGNAL_ANSWER_EOC pk blob
      | SignalPollLocal pk kind_out blob_out blob_cap blob_len_out \<Rightarrow>
          if pk = None \<or> \<not> kind_out \<or> \<not> blob_len_out then return (Result GN_ERR_NULL_ARG)
          else if blob_cap > 0 \<and> \<not> blob_out then return (Result GN_ERR_NULL_ARG)
          else do {
            r \<leftarrow> on_link (poll_local_signal pk kind_out blob_out blob_cap blob_len_out);
            return (PollReply (fst r) (fst (snd r)) (snd (snd r)))
          })"

text \<open>
  The extensions \<open>gn.link.ice.path_mtu\<close> and \<open>gn.link.ice.metrics\<close>. The out parameter of a metrics
  slot is None for a null pointer, otherwise the \<open>api_size\<close> that the caller set. The sizes of the
  two structures are those of the usual 64-bit layout.
\<close>

datatype MetricsSlot =
    PathMtuGet conn_id bool
  | GetNomination conn_id "u32 option"
  | GetCandidateCounts conn_id "u32 option"

definition sizeof_nomination :: u32 where "sizeof_nomination = 24"
definition sizeof_candidate_counts :: u32 where "sizeof_candidate_counts = 36"

definition metrics_extension_call :: "bool \<Rightarrow> MetricsSlot \<Rightarrow> PluginReply plugin" where
  "metrics_extension_call ctx slot =
     (if \<not> ctx then return (Result GN_ERR_NULL_ARG)
      else case slot of
        PathMtuGet conn out \<Rightarrow>
          if \<not> out then return (Result GN_ERR_NULL_ARG)
          else gets (\<lambda>p. MtuReply (link_effective_path_mtu conn (ip_link p)))
      | GetNomination conn out \<Rightarrow>
          (case out of
             None \<Rightarrow> return (Result GN_ERR_NULL_ARG)
           | Some api_size \<Rightarrow>
               if api_size < sizeof_nomination then return (Result GN_ERR_OUT_OF_RANGE)
               else gets (\<lambda>p. let m = link_nomination_metrics conn (ip_link p) in
                 NominationReply (if nm_nominated m then 1 else 0) (if nm_uses_relay m then 1 else 0)
                   (type_code (nm_local_type m)) (type_code (nm_remote_type m))
                   (transport_code (nm_transport m)) (nm_rtt_us m)))
      | GetCandidateCounts conn out \<Rightarrow>
          (case out of
             None \<Rightarrow> return (Result GN_ERR_NULL_ARG)
           | Some api_size \<Rightarrow>
               if api_size < sizeof_candidate_counts then return (Result GN_ERR_OUT_OF_RANGE)
               else gets (\<lambda>p. let c = link_candidate_counts conn (ip_link p) in CountsReply (fst c) (snd c))))"

text \<open>What the topology tells the plugin: the open trust classes and the flags of the security providers.\<close>

record gn_topology =
  tp_contour_gaps :: u32
  tp_provides_flags :: "u32 list"

definition link_on_topology_sealed :: "plugin_host \<Rightarrow> bool \<Rightarrow> gn_topology option \<Rightarrow> unit plugin" where
  "link_on_topology_sealed H self topo =
     (case topo of
        None \<Rightarrow> return ()
      | Some t \<Rightarrow> whenM self (do {
          let contour_open = (tp_contour_gaps t AND (push_bit (ph_trust_untrusted H) 1 OR push_bit (ph_trust_peer H) 1) \<noteq> 0);
          let e2e_present = list_ex (\<lambda>flags. flags AND ph_e2e_encryption H \<noteq> 0) (tp_provides_flags t);
          on_link (set_topology contour_open (if e2e_present then 20 else 0) e2e_present)
        }))"

section \<open>Life cycle\<close>

definition new_plugin :: IcePlugin where
  "new_plugin = \<lparr>ip_link = new_ice_link, ip_link_id = 0, ip_max_payload = 0,
     ip_link_extension_registered = False, ip_signal_extension_registered = False,
     ip_path_mtu_extension_registered = False, ip_metrics_extension_registered = False, ip_log = []\<rparr>"

definition plugin_init :: "plugin_host \<Rightarrow> bool \<Rightarrow> bool \<Rightarrow> gn_result \<times> IcePlugin option" where
  "plugin_init H api out_self =
     (if \<not> api \<or> \<not> out_self then (GN_ERR_NULL_ARG, None)
      else if \<not> ph_alloc H then (GN_ERR_OUT_OF_MEMORY, None)
      else (GN_OK, Some (exec (do {
        on_link (set_host_api (ph_link H) True);
        modify (\<lambda>p. p\<lparr>ip_max_payload := capabilities_max_payload\<rparr>)
      }) new_plugin)))"

text \<open>One extension: the flag is set when the host accepts it.\<close>

definition register_one :: "(string \<Rightarrow> gn_result) \<Rightarrow> string \<Rightarrow> (IcePlugin \<Rightarrow> IcePlugin) \<Rightarrow> unit plugin" where
  "register_one register name set_flag = do {
     plugin_emit (RegisterExtension name);
     whenM (register name = GN_OK) (modify set_flag)
   }"

definition plugin_register :: "plugin_host \<Rightarrow> bool \<Rightarrow> gn_result plugin" where
  "plugin_register H self =
     (if \<not> self then return GN_ERR_NULL_ARG
      else case ph_register_vtable H of
        None \<Rightarrow> return GN_ERR_NOT_IMPLEMENTED
      | Some (rc, link_id) \<Rightarrow> do {
          plugin_emit (RegisterVtable kIceScheme);
          if rc \<noteq> GN_OK then return rc
          else do {
            modify (\<lambda>p. p\<lparr>ip_link_id := link_id\<rparr>);
            (case ph_register_extension H of
               None \<Rightarrow> return ()
             | Some register \<Rightarrow> do {
                 register_one register kIceLinkExtensionName (\<lambda>p. p\<lparr>ip_link_extension_registered := True\<rparr>);
                 register_one register kIceSignalExtensionName (\<lambda>p. p\<lparr>ip_signal_extension_registered := True\<rparr>);
                 register_one register kIcePathMtuExtensionName (\<lambda>p. p\<lparr>ip_path_mtu_extension_registered := True\<rparr>);
                 register_one register kIceMetricsExtensionName (\<lambda>p. p\<lparr>ip_metrics_extension_registered := True\<rparr>)
               });
            return GN_OK
          }
        })"

definition unregister_one :: "plugin_host \<Rightarrow> string \<Rightarrow> (IcePlugin \<Rightarrow> bool) \<Rightarrow> (IcePlugin \<Rightarrow> IcePlugin) \<Rightarrow> unit plugin" where
  "unregister_one H name flag clear_flag = do {
     registered \<leftarrow> gets flag;
     whenM (registered \<and> ph_unregister_extension H) (do {
       plugin_emit (UnregisterExtension name);
       modify clear_flag
     })
   }"

definition plugin_unregister :: "plugin_host \<Rightarrow> bool \<Rightarrow> gn_result plugin" where
  "plugin_unregister H self =
     (if \<not> self then return GN_ERR_NULL_ARG
      else do {
        unregister_one H kIceMetricsExtensionName ip_metrics_extension_registered (\<lambda>p. p\<lparr>ip_metrics_extension_registered := False\<rparr>);
        unregister_one H kIcePathMtuExtensionName ip_path_mtu_extension_registered (\<lambda>p. p\<lparr>ip_path_mtu_extension_registered := False\<rparr>);
        unregister_one H kIceSignalExtensionName ip_signal_extension_registered (\<lambda>p. p\<lparr>ip_signal_extension_registered := False\<rparr>);
        unregister_one H kIceLinkExtensionName ip_link_extension_registered (\<lambda>p. p\<lparr>ip_link_extension_registered := False\<rparr>);
        link_id \<leftarrow> gets ip_link_id;
        whenM (ph_unregister_vtable H \<and> link_id \<noteq> 0) (do {
          plugin_emit (UnregisterVtable link_id);
          modify (\<lambda>p. p\<lparr>ip_link_id := 0\<rparr>)
        });
        on_link (shutdown (ph_link H));
        return GN_OK
      })"

text \<open>Deleting the plugin destroys the link, whose destructor shuts it down.\<close>

definition plugin_shutdown :: "plugin_host \<Rightarrow> bool \<Rightarrow> unit plugin" where
  "plugin_shutdown H self = whenM self (on_link (shutdown (ph_link H)))"

section \<open>Events\<close>

text \<open>
  Calls of the kernel and of other plugins, and what the link does on its own threads: reloads of the
  configuration, the reaper, jobs and input of its parts.
\<close>

datatype PluginEvent =
    PeVtable bool LinkSlot
  | PeExtension bool LinkExtSlot
  | PeSignal bool SignalSlot
  | PeMetrics bool MetricsSlot
  | PeTopology bool "gn_topology option"
  | PeRegister bool
  | PeUnregister bool
  | PeLink LinkEvent

definition link_own_event :: "LinkEvent \<Rightarrow> bool" where
  "link_own_event e =
     (case e of LkConfigReload \<Rightarrow> True | LkReaper \<Rightarrow> True | LkJob \<Rightarrow> True | LkInput _ _ \<Rightarrow> True
      | LkMdns _ \<Rightarrow> True | LkWatch _ \<Rightarrow> True | _ \<Rightarrow> False)"

definition forget :: "'a plugin \<Rightarrow> unit plugin" where
  "forget m = do { m; return () }"

definition plugin_handle :: "plugin_host \<Rightarrow> PluginEvent \<Rightarrow> unit plugin" where
  "plugin_handle H e =
     (case e of
        PeVtable self slot \<Rightarrow> forget (link_vtable_call H self slot)
      | PeExtension ctx slot \<Rightarrow> forget (link_extension_call H ctx slot)
      | PeSignal ctx slot \<Rightarrow> forget (signal_extension_call H ctx slot)
      | PeMetrics ctx slot \<Rightarrow> forget (metrics_extension_call ctx slot)
      | PeTopology self topo \<Rightarrow> link_on_topology_sealed H self topo
      | PeRegister self \<Rightarrow> forget (plugin_register H self)
      | PeUnregister self \<Rightarrow> forget (plugin_unregister H self)
      | PeLink ev \<Rightarrow> whenM (link_own_event ev) (on_link (link_handle (ph_link H) ev)))"

text \<open>The states of a plugin that the host has created.\<close>

inductive loaded :: "IcePlugin \<Rightarrow> bool" where
  created: "plugin_init H api out_self = (GN_OK, Some p) \<Longrightarrow> loaded p"
| handled: "loaded p \<Longrightarrow> loaded (exec (plugin_handle H e) p)"

section \<open>No session of the composer\<close>

definition no_composers :: "IceLink \<Rightarrow> bool" where
  "no_composers l \<longleftrightarrow> lk_composer_sessions l = [] \<and> lk_composer_peer_to_id l = Map.empty"

lemma bare_modify:
  "lk_composer_sessions (f l) = lk_composer_sessions l \<Longrightarrow> lk_composer_peer_to_id (f l) = lk_composer_peer_to_id l \<Longrightarrow>
   effect (keeps no_composers) (modify f) l"
  by (simp add: effect_def keeps_def no_composers_def)

interpretation bare: end_order "keeps no_composers"
proof unfold_locales
  have emit: "effect (keeps no_composers) (link_emit e) l" for e l
    unfolding link_emit_def by (rule bare_modify) simp_all
  show "keeps no_composers a b" if "table_view b = table_view a" for a b
    using that by (auto simp: keeps_def no_composers_def table_view_def composer_view_def)
  show "effect (keeps no_composers) (end_session H conn (pe_peer_pk_hex e) rc) l" for H conn e rc l
    unfolding end_session_def erase_session_def erase_peer_id_def notify_disconnect_def
    by (intro keeps.rules bare_modify emit) simp_all
  have none: "effect (keeps no_composers) m l" if "map_of (lk_composer_sessions l) cid = Some c" for m :: "'x link" and cid c l
    using that by (auto simp: effect_def keeps_def no_composers_def)
  then show "effect (keeps no_composers) (erase_composer cid (co_peer_pk_hex c)) l"
    if "map_of (lk_composer_sessions l) cid = Some c" for cid c l
    using that by blast
  show "effect (keeps no_composers) (on_connected cb) l" for cb l
    unfolding on_connected_def
    by (cases cb) (auto intro!: keeps.return effect_gets_bind effect_if keeps.bind_all [OF effect_option] keeps.for_each emit
        intro: none)
  show "effect (keeps no_composers) (on_data H data cb) l" for H data cb l
    unfolding on_data_def count_in_def
    by (cases cb) (auto intro!: keeps.rules emit simp: keeps_def no_composers_def)
qed

lemma bare_opened: "effect (keeps no_composers) (open_session H conn peer c m) l"
  unfolding open_session_def make_session_def publish_session_def Let_def by (intro keeps.rules bare_modify) simp_all

lemma bare_emit: "effect (keeps no_composers) (link_emit e) l"
  unfolding link_emit_def by (rule bare_modify) simp_all

interpretation surface: call_order "keeps no_composers" "\<lambda>_ _. True"
proof unfold_locales
  show "effect (keeps no_composers) (connect H uri) l" for H uri l
    unfolding connect_def by (intro keeps.rules bare.still_ops bare_emit bare_opened)
  show "effect (keeps no_composers) (deliver_offer H pk flags u p cands eoc) l" for H pk flags u p cands eoc l
    unfolding deliver_offer_def Let_def by (intro keeps.rules bare.still_ops bare_emit bare_opened)
  have stop: "effect (keeps no_composers) (modify (\<lambda>l. l\<lparr>lk_published_ids := [], lk_sessions := [], lk_peer_to_ids := Map.empty,
      lk_composer_sessions := [], lk_composer_peer_to_id := Map.empty, lk_accept_subs := []\<rparr>)) l" for l
    by (simp add: effect_def keeps_def no_composers_def)
  have tell: "effect (keeps no_composers) (notify_disconnect H conn rc) l" for H conn rc l
    unfolding notify_disconnect_def by (intro keeps.rules bare_emit)
  show "effect (keeps no_composers) (shutdown H) l" for H l
    unfolding shutdown_def by (intro keeps.rules bare.still_ops bare_emit stop tell bare_modify) simp_all
qed

text \<open>The same through the handle of the plugin.\<close>

lemma run_on_link [simp]: "run_state (on_link m) p = (eval m (ip_link p), p\<lparr>ip_link := exec m (ip_link p)\<rparr>)"
  by (simp add: on_link_def)

abbreviation bare_plugin :: "IcePlugin \<Rightarrow> bool" where "bare_plugin p \<equiv> no_composers (ip_link p)"

lemma plugin_link: "effect (keeps no_composers) m (ip_link p) \<Longrightarrow> effect (keeps bare_plugin) (on_link m) p"
  by (simp add: effect_def keeps_def)

lemma plugin_same: "(\<And>p. ip_link (f p) = ip_link p) \<Longrightarrow> effect (keeps bare_plugin) (modify f) p"
  by (simp add: effect_def keeps_def)

lemma bare_handle: "effect (keeps bare_plugin) (plugin_handle H e) p"
proof -
  note link = surface.connecting surface.stopping surface.ev_deliver surface.ev_subscribe surface.ev_unsubscribe
    surface.ev_accept surface.ev_topology bare.end_ops bare.still_ops
  have emit: "effect (keeps bare_plugin) (plugin_emit x) p" for x p
    unfolding plugin_emit_def by (rule plugin_same) simp
  have own: "effect (keeps no_composers) (link_handle (ph_link H) ev) l" if "link_own_event ev" for ev l
    using that by (intro surface.ev_call) (auto simp: link_own_event_def)
  have vt: "effect (keeps bare_plugin) (link_vtable_call H self slot) p" for self slot p
    unfolding link_vtable_call_def by (cases slot) (auto intro!: keeps.rules plugin_link link)
  have ext: "effect (keeps bare_plugin) (link_extension_call H self slot) p" for self slot p
    unfolding link_extension_call_def by (cases slot) (auto intro!: keeps.rules plugin_link link vt)
  have sig: "effect (keeps bare_plugin) (signal_extension_call H self slot) p" for self slot p
    unfolding signal_extension_call_def signal_deliver_def by (cases slot) (auto intro!: keeps.rules plugin_link link)
  have met: "effect (keeps bare_plugin) (metrics_extension_call self slot) p" for self slot p
    unfolding metrics_extension_call_def by (cases slot) (auto intro!: keeps.rules)
  have top: "effect (keeps bare_plugin) (link_on_topology_sealed H self t) p" for self t p
    unfolding link_on_topology_sealed_def Let_def by (intro keeps.rules plugin_link link)
  have reg: "effect (keeps bare_plugin) (plugin_register H self) p" for self p
    unfolding plugin_register_def register_one_def by (intro keeps.rules plugin_same emit) simp_all
  have unreg: "effect (keeps bare_plugin) (plugin_unregister H self) p" for self p
    unfolding plugin_unregister_def unregister_one_def by (intro keeps.rules plugin_same emit plugin_link link) simp_all
  show ?thesis
    unfolding plugin_handle_def forget_def
    by (cases e) (auto intro!: keeps.rules plugin_link own vt ext sig met top reg unreg)
qed

lemma loaded_bare: "loaded p \<Longrightarrow> no_composers (ip_link p)"
proof (induction rule: loaded.induct)
  case (created H api out_self p)
  have "no_composers new_ice_link" by (simp add: no_composers_def new_ice_link_def)
  then have "no_composers (exec (set_host_api (ph_link H) True) new_ice_link)"
    using bare.still_host_api [of "ph_link H" True new_ice_link] by (simp add: effect_def keeps_def)
  with created show ?case by (auto simp: plugin_init_def new_plugin_def split: if_splits)
next
  case (handled p H e)
  with bare_handle [of H e p] show ?case by (simp add: effect_def keeps_def)
qed

section \<open>Registration\<close>

interpretation down: table_order "keeps lk_shutdown"
  by unfold_locales (auto simp: keeps_def table_view_def)

lemma shutdown_flag: "lk_shutdown (exec (shutdown H) l)"
proof -
  have tell: "effect (keeps lk_shutdown) (notify_disconnect H conn rc) l" for conn rc l
    by (simp add: effect_def keeps_def notify_disconnect_def link_emit_def)
  have "effect (keeps lk_shutdown) (whenM b (do {
      ids_to_emit \<leftarrow> gets lk_published_ids;
      live \<leftarrow> gets (live_sessions H);
      modify (\<lambda>l. l\<lparr>lk_published_ids := [], lk_sessions := [], lk_peer_to_ids := Map.empty,
        lk_composer_sessions := [], lk_composer_peer_to_id := Map.empty, lk_accept_subs := []\<rparr>);
      for_each close_session live;
      for_each (\<lambda>conn. notify_disconnect H conn GN_OK) ids_to_emit;
      modify (\<lambda>l. l\<lparr>lk_timer_ctx := False\<rparr>);
      link_emit StopWorker })) l" for b l
    by (intro keeps.rules down.still_ops tell) (simp_all add: keeps_def)
  from effectD [OF this] show ?thesis by (simp add: shutdown_def split_beta keeps_def)
qed

text \<open>The accepted extensions among the flags of the plugin, in the order of their registration.\<close>

definition registered :: "IcePlugin \<Rightarrow> string list" where
  "registered p =
     (if ip_link_extension_registered p then [kIceLinkExtensionName] else []) @
     (if ip_signal_extension_registered p then [kIceSignalExtensionName] else []) @
     (if ip_path_mtu_extension_registered p then [kIcePathMtuExtensionName] else []) @
     (if ip_metrics_extension_registered p then [kIceMetricsExtensionName] else [])"

lemma run_register_one: "exec (register_one r name set_flag) p =
    (if r name = GN_OK then set_flag (p\<lparr>ip_log := ip_log p @ [RegisterExtension name]\<rparr>)
     else p\<lparr>ip_log := ip_log p @ [RegisterExtension name]\<rparr>)"
  by (simp add: register_one_def plugin_emit_def)

lemma register_run:
  assumes "registered p = []" and "ph_register_vtable H = Some (GN_OK, i)" and "ph_register_extension H = Some r"
  shows "registered (exec (plugin_register H True) p) = filter (\<lambda>name. r name = GN_OK) kProvidesList"
    and "ip_link_id (exec (plugin_register H True) p) = i"
    and "ip_log (exec (plugin_register H True) p) = ip_log p @ RegisterVtable kIceScheme # map RegisterExtension kProvidesList"
  using assms
  by (simp_all add: plugin_register_def plugin_emit_def registered_def kProvidesList_def split_beta run_register_one
      split: if_splits)

lemma run_unregister_one: "ph_unregister_extension H \<Longrightarrow> exec (unregister_one H name flag clear_flag) p =
    (if flag p then clear_flag (p\<lparr>ip_log := ip_log p @ [UnregisterExtension name]\<rparr>) else p)"
  by (simp add: unregister_one_def plugin_emit_def)

lemma unregister_run:
  assumes "ph_unregister_extension H" and "ph_unregister_vtable H"
  shows "registered (exec (plugin_unregister H True) p) = []" and "ip_link_id (exec (plugin_unregister H True) p) = 0"
    and "ip_log (exec (plugin_unregister H True) p) = ip_log p @ map UnregisterExtension (rev (registered p)) @
      (if ip_link_id p = 0 then [] else [UnregisterVtable (ip_link_id p)])"
    and "lk_shutdown (ip_link (exec (plugin_unregister H True) p))"
  using assms
  by (simp_all add: plugin_unregister_def plugin_emit_def registered_def split_beta run_unregister_one shutdown_flag)

section \<open>Properties\<close>

text \<open>C38: The plugin never has a session of the composer. The slot \<open>connect\<close> of the extension forwards to \<open>IceLink::connect\<close>, so
  whatever is called, by whom and in which order, the composer's tables stay empty: each subscription to the
  data of a connection is refused as not found, whichever id the caller got.\<close>

theorem composer_unreachable:
  assumes "loaded p"
  shows "run_state (link_extension_call H True (ExtSubscribeData conn cb user)) p = (Result GN_ERR_NOT_FOUND, p) \<and>
    lk_composer_sessions (ip_link p) = [] \<and> composer_of_peer peer (ip_link p) = None \<and>
    exec (plugin_handle H' (PeExtension True (ExtSubscribeData conn cb user))) p = p"
proof -
  have bare: "lk_composer_sessions (ip_link p) = []" "lk_composer_peer_to_id (ip_link p) = Map.empty"
    using loaded_bare [OF assms] by (simp_all add: no_composers_def)
  have "run_state (composer_subscribe_data conn cb user) (ip_link p) = (GN_ERR_NOT_FOUND, ip_link p)"
    using bare by (simp add: composer_subscribe_data_def)
  then have run: "run_state (link_extension_call G True (ExtSubscribeData conn cb user)) p = (Result GN_ERR_NOT_FOUND, p)" for G
    by (simp add: link_extension_call_def)
  show ?thesis using bare run by (simp add: composer_of_peer_def plugin_handle_def forget_def)
qed

definition sample_plugin_host :: plugin_host where
  "sample_plugin_host = \<lparr>ph_link = sample_host 7, ph_alloc = True, ph_register_vtable = Some (GN_OK, 3),
     ph_register_extension = Some (\<lambda>name. if name = kIceSignalExtensionName then GN_ERR_NOT_FOUND else GN_OK),
     ph_unregister_extension = True, ph_unregister_vtable = True, ph_trust_untrusted = 0, ph_trust_peer = 1,
     ph_e2e_encryption = 1\<rparr>"

definition sample_plugin :: IcePlugin where
  "sample_plugin = the (snd (plugin_init sample_plugin_host True True))"

lemma sample_loaded: "loaded sample_plugin"
  by (rule loaded.created [of sample_plugin_host True True])
    (simp add: sample_plugin_def plugin_init_def sample_plugin_host_def)

definition connected_plugin :: IcePlugin where
  "connected_plugin = exec (plugin_handle sample_plugin_host (PeExtension True (ExtConnect (Some (''ice://'' @ sample_hex)) True))) sample_plugin"

theorem composer_unreachable_witness:
  "run_state (link_extension_call sample_plugin_host True (ExtSubscribeData 7 (Some 0) 0)) connected_plugin =
   (Result GN_ERR_NOT_FOUND, connected_plugin)"
proof -
  have "loaded connected_plugin" unfolding connected_plugin_def by (rule loaded.handled [OF sample_loaded])
  from composer_unreachable [OF this, of sample_plugin_host 7 "Some 0" 0] show ?thesis by blast
qed

text \<open>C39: What the plugin registers it takes back. Registration announces the link and then the four extensions; the
  unregistration takes back, in reverse order and once each, exactly the extensions that the host accepted, then
  the link, and shuts the link down. A second unregistration finds nothing left to take back.\<close>

theorem registration_balanced:
  assumes "registered p = []" and "ph_register_vtable H = Some (GN_OK, i)" and "i \<noteq> 0"
    and "ph_register_extension H = Some register" and "ph_unregister_extension H" and "ph_unregister_vtable H"
  shows "let q = exec (do { plugin_register H True; plugin_unregister H True }) p in
    ip_log q = ip_log p @ RegisterVtable kIceScheme # map RegisterExtension kProvidesList @
      map UnregisterExtension (rev (filter (\<lambda>name. register name = GN_OK) kProvidesList)) @ [UnregisterVtable i] \<and>
    registered q = [] \<and> ip_link_id q = 0 \<and> lk_shutdown (ip_link q) \<and>
    ip_log (exec (plugin_unregister H True) q) = ip_log q"
  using register_run [OF assms(1,2,4)] unregister_run [OF assms(5,6)] assms(3) by (simp add: Let_def split_beta)

theorem registration_balanced_witness:
  "ip_log (exec (do { plugin_register sample_plugin_host True; plugin_unregister sample_plugin_host True }) sample_plugin) =
   [RegisterVtable ''ice'', RegisterExtension ''gn.link.ice'', RegisterExtension ''gn.link.ice.signal'',
    RegisterExtension ''gn.link.ice.path_mtu'', RegisterExtension ''gn.link.ice.metrics'',
    UnregisterExtension ''gn.link.ice.metrics'', UnregisterExtension ''gn.link.ice.path_mtu'',
    UnregisterExtension ''gn.link.ice'', UnregisterVtable 3]"
proof -
  have "registered sample_plugin = []" "ip_log sample_plugin = []"
    by (simp_all add: sample_plugin_def plugin_init_def sample_plugin_host_def registered_def new_plugin_def)
  then show ?thesis
    using registration_balanced [of sample_plugin sample_plugin_host 3
        "\<lambda>name. if name = kIceSignalExtensionName then GN_ERR_NOT_FOUND else GN_OK"]
    by (simp add: sample_plugin_host_def kProvidesList_def kIceScheme_def kIceLinkExtensionName_def
        kIceSignalExtensionName_def kIcePathMtuExtensionName_def kIceMetricsExtensionName_def Let_def)
qed

end
