(* ===== verification/Spec2Isabelle.thy ===== *)
theory Spec2Isabelle
  imports Framing Candidate Stun_Parser Path_Mtu Turn_Client Reorder Check_List Mdns_Manager
    Session_Safety Session_Flow Plugin_Entry
begin

text \<open>
  Verification of the ICE link plugin (\<open>src/\<close>): STUN and TURN messages, candidates and their
  signalling, connectivity checks, the session that ties them together, and the link and plugin
  around the sessions.

  \<^bold>\<open>The program.\<close> An \<open>IceSession\<close> (\<open>session.cpp\<close>) connects two peers. It gathers candidates, exchanges
  them as signals (\<open>candidate.hpp\<close>), pairs them into a check list, sends STUN binding requests
  (\<open>stun.cpp\<close>) over carriers or through a \<open>TurnClient\<close> (\<open>turn.cpp\<close>), nominates a pair, and then
  carries application data, refreshes consent and searches the path MTU (\<open>path_mtu.cpp\<close>). Host
  names of candidates are registered and resolved by multicast DNS (\<open>mdns.cpp\<close>). An \<open>IceLink\<close>
  (\<open>link_ice.cpp\<close>) holds the sessions under the connection ids of the kernel, reads the
  configuration, exchanges the signals of its sessions with the host, reaps idle sessions and
  restarts sessions when the network interfaces change (\<open>interface_watcher.cpp\<close>). The plugin
  (\<open>plugin_entry.cpp\<close>) exposes the link as tables of C functions.

  \<^bold>\<open>Theories of the protocol parts.\<close>
  \<^item> \<open>Ice_Prelude\<close>: machine words, octets, checked reads (\<open>checked\<close>: None is a read outside the
    buffer; \<open>parsed\<close>: reject or accept), shared list lemmas.
  \<^item> \<open>State_Logic\<close>: the state monad of the stateful components and the calculus \<open>effect\<close> for what a
    computation may do to its state, proved once in the locale \<open>step_order\<close>.
  \<^item> \<open>Endian\<close>: the big-endian readers and writers of \<open>stun.cpp\<close>, behind the locale \<open>fixed_codec\<close>.
  \<^item> \<open>Framing\<close>: length-prefixed streams (\<open>turn.cpp\<close>, \<open>session.cpp\<close>) and ChannelData (\<open>stun.cpp\<close>).
  \<^item> \<open>Inet\<close>: \<open>inet_pton\<close>/\<open>inet_ntop\<close> as parameters with the laws the code relies on, and a sample.
  \<^item> \<open>Candidate\<close>: candidates, foundations, priorities and the signal codec (\<open>candidate.hpp\<close>).
  \<^item> \<open>Stun_Builder\<close>, \<open>Stun_Parser\<close>: the message builder, parser and integrity check.
  \<^item> \<open>Path_Mtu\<close>: the search state machine. \<open>Turn_Client\<close>: the TURN client as a transition function.
  \<^item> \<open>Reorder\<close>: sequence numbers and the reorder buffer. \<open>Check_List\<close>: pair formation and states.
  \<^item> \<open>Mdns_Codec\<close>: DNS names, queries, responses and the message parser. \<open>Mdns_Response\<close>: what the
    parser reads from an encoded response. \<open>Mdns_Manager\<close>: names, pending queries and callbacks.

  \<^bold>\<open>Theories of the session.\<close>
  \<^item> \<open>Session_State\<close>, \<open>Session_Net\<close>, \<open>Session_Checks\<close>, \<open>Session_Gather\<close>, \<open>Session_Input\<close>: the
    session, one definition per method, in the order of the calls: state and surroundings; conn ids,
    TURN paths, application data and one check; building and pacing the list; gathering; nomination,
    consent, restart, signalling, inbound bytes, timers and the step function.
  \<^item> \<open>Session_Orders\<close>: which methods may change role, state and credentials, as a chain of locales.
    \<open>Session_Safety\<close>, \<open>Session_Flow\<close>: the properties of the session.

  \<^bold>\<open>Theories of the link and the plugin.\<close>
  \<^item> \<open>Ext_Clients\<close>: SRV records, service URIs and the clients of the DNS and port mapping extensions.
    \<open>Link_Config\<close>: \<open>apply_config\<close>. \<open>Interface_Watcher\<close>: the netlink reader and the waits
    of its debounce timer.
  \<^item> \<open>Ice_Link\<close>: the link with its tables, callbacks, signals, reaper, composer surface and shutdown.
  \<^item> \<open>Link_Tables\<close>: the invariant of the tables; contracts for what leaves the tables alone, ends a
    session, or is any event, as the locales \<open>table_order\<close>, \<open>end_order\<close>, \<open>call_order\<close> and \<open>event_order\<close>.
    \<open>Link_Signals\<close>: keys as text, and signals from one link to another. \<open>Link_Calls\<close>: failed calls, the
    reaper, answers.
  \<^item> \<open>Plugin_Entry\<close>: the function tables, registration and the states of a loaded plugin.

  \<^bold>\<open>State and effects.\<close> A session is the record \<open>Session\<close>, built in layers that follow the members of
  the class; methods are computations \<open>'a session\<close>. Sends, callbacks, armed timers and posted tasks
  are appended to \<open>ss_log\<close>; a posted task or a timer runs as an event of its own (\<open>Event\<close>,
  \<open>session_step\<close>), and a timer handler compares its generation with \<open>ss_gen\<close> as the code does. The
  strand runs one handler at a time, so events are sequential. The clock is \<open>ss_now\<close>, in microseconds.
  A link is the record \<open>IceLink\<close>; \<open>lk_objects\<close> are all sessions it ever built, and its tables refer to
  them by index as the shared pointers do. Calls posted to a session wait in \<open>lk_queue\<close> and run one at a
  time (\<open>run_job\<close>); the effects of a session become calls of the link's callbacks (\<open>route\<close>). The calls
  to the host and the results are appended to \<open>lk_log\<close>. \<open>reachable\<close> are the links after any sequence of
  events whose host satisfies \<open>host_ok\<close>; \<open>loaded\<close> are the plugins after any calls of the tables.

  \<^bold>\<open>What the properties show.\<close> Codecs: round trips, totality and memory safety of the message parsers, and
  independence of chunking for the stream framing. Path MTU: termination and accuracy. TURN: agreement
  of the channel tables as long as the channel counter has not wrapped, the authentication exchange, the channel
  fast path. Check list: completeness
  and order. Session: only an authenticated message connects it, role conflicts are resolved, checks
  and answers verify at the other agent, the cap on checks in flight holds, the scheduler always has a
  next step, consent expires when nothing is heard after a nomination, and data sent early is kept as the
  most recent 64 frames. mDNS: every resolution is answered once, and a registered name resolves at another
  manager if the answer fits its receive buffer. Link: the tables agree, the end of a connection is reported
  once, shutdown ends all sessions for good, a signal reaches the session of its peer unchanged, a failed
  call changes nothing, the reaper ends exactly the idle sessions of the kernel that are not connected, and
  every configuration is within its ranges. Watcher: a debounce wait completes only when no message was
  handled for an interval. Plugin: registration is balanced. Several properties state
  what the code does where that is not what it means to do, such as the dropped keepalives, the reorder
  buffer that stalls after an overflow, the relayed peers lost on restart, the disconnections reported again on shutdown, the answers lost for
  keys in upper case and the composer surface that no caller reaches.

  \<^bold>\<open>Parameters.\<close> HMAC-SHA1 and MD5, \<open>inet_pton\<close> and \<open>inet_ntop\<close>, random octets, the outcome of
  \<open>connect\<close>, \<open>getifaddrs\<close>, the sockets, the port mapping service, \<open>gn::parse_uri\<close> and the sorts are
  arguments (\<open>session_env\<close>, \<open>turn_env\<close>, \<open>inet\<close>, \<open>hmac\<close>, \<open>mdns_env\<close>, \<open>dns_env\<close>, \<open>config_env\<close>), and so
  are the host API (\<open>link_host\<close>, \<open>plugin_host\<close>) and the order in which an unordered map is iterated. When
  a timer of \<open>asio\<close> completes a wait and when its handler runs are events that the environment chooses;
  what is assumed of them is a hypothesis (\<open>hmac_ok\<close>, \<open>inet_ok\<close>, \<open>sort_ok\<close>, \<open>order_ok\<close>, \<open>host_ok\<close>) with a
  sample that satisfies it.

  \<^bold>\<open>Bounds and fuel.\<close> No definition uses fuel. Loops end by structural recursion or a measure: the
  octets left in a buffer, the name left to encode, the 16 pointer jumps and 255 octets of a DNS name.
  Integers have the width of the source where they can wrap.

  \<^bold>\<open>Not modelled.\<close> Mutexes have no counterpart: the theorems describe a run in which every lock is
  obtained and every handler runs without interruption. Callbacks do not call back into the session or the
  link within the same event. The threads of the link and of the watcher, the destruction of a session
  that nothing refers to any more, exceptions, log and debug output (\<open>dbg.hpp\<close>), the accessors of the
  plugin's version and descriptor, and the branches for platforms other than Linux are left out.
\<close>

end
